theory Spec2Isabelle
  imports Complex_Main "HOL-Library.Word"
begin

section \<open>Tokens (token.h)\<close>

text \<open>
  The scoped enumeration \<^verbatim>\<open>TokenType\<close>. The constructor \<open>T_X\<close> stands for
  \<^verbatim>\<open>TokenType::X\<close>; the prefix keeps \<^verbatim>\<open>True\<close>, \<^verbatim>\<open>None\<close>, \<^verbatim>\<open>If\<close>, \<^verbatim>\<open>Not\<close> and \<^verbatim>\<open>Int\<close>
  apart from the constants of HOL and from the AST node \<^verbatim>\<open>Identifier\<close>.
\<close>

datatype TokenType =
    T_Fn | T_Imp | T_Ret | T_If | T_Elif | T_Else | T_For | T_In | T_While
  | T_Try | T_Except | T_Finally | T_Pass | T_And | T_Or | T_Not | T_True
  | T_False | T_None | T_Class
  | T_Plus | T_Minus | T_Star | T_Slash | T_Percent | T_DoubleStar | T_EqEq
  | T_BangEq | T_Less | T_LessEq | T_Greater | T_GreaterEq | T_Eq | T_PlusEq
  | T_MinusEq | T_StarEq | T_SlashEq
  | T_LParen | T_RParen | T_LBracket | T_RBracket | T_LBrace | T_RBrace
  | T_Colon | T_Comma | T_Dot
  | T_Int | T_Float | T_String
  | T_Indent | T_Dedent | T_Newline | T_Eof
  | T_Identifier

text \<open>\<^verbatim>\<open>struct Token { TokenType type; std::string value; int line; int column; }\<close>\<close>

record Token =
  tok_type :: TokenType
  tok_value :: string
  tok_line :: int
  tok_column :: int

definition mk_token :: "TokenType \<Rightarrow> string \<Rightarrow> int \<Rightarrow> int \<Rightarrow> Token" where
  "mk_token t v l c = \<lparr>tok_type = t, tok_value = v, tok_line = l, tok_column = c\<rparr>"

text \<open>
  \<^verbatim>\<open>LexerError(message, line, column)\<close>: the three constructor arguments; \<^verbatim>\<open>what()\<close> is
  formatted from them.
\<close>

datatype LexerError = LexerError string int int

section \<open>The lexer (token.h, class Lexer)\<close>

text \<open>
  The fields of \<^verbatim>\<open>class Lexer\<close>, without the trailing underscore of the source.
  \<open>indent_stack\<close> holds the vector with its \<^verbatim>\<open>back()\<close> first: \<^verbatim>\<open>push_back\<close> is \<open>#\<close>,
  \<^verbatim>\<open>pop_back\<close> is \<open>tl\<close>, \<^verbatim>\<open>back()\<close> is \<open>hd\<close>.
\<close>

record Lexer =
  source :: string
  pos :: nat
  line :: int
  column :: int
  at_line_start :: bool
  indent_stack :: "int list"

definition Lexer_init :: "string \<Rightarrow> Lexer" where
  "Lexer_init src = \<lparr>source = src, pos = 0, line = 1, column = 1,
                      at_line_start = True, indent_stack = [0]\<rparr>"

definition c_nl :: char where "c_nl = CHR 0x0A"
definition c_cr :: char where "c_cr = CHR 0x0D"
definition c_tab :: char where "c_tab = CHR 0x09"
definition c_nul :: char where "c_nul = CHR 0x00"
definition c_bslash :: char where "c_bslash = CHR 0x5C"
definition c_dquote :: char where "c_dquote = CHR 0x22"
definition c_squote :: char where "c_squote = CHR 0x27"

text \<open>\<^verbatim>\<open>std::isdigit\<close>, \<^verbatim>\<open>std::isalpha\<close>, \<^verbatim>\<open>std::isalnum\<close> in the C locale.\<close>

definition isdigit :: "char \<Rightarrow> bool" where
  "isdigit c = (48 \<le> (of_char c :: nat) \<and> (of_char c :: nat) \<le> 57)"

definition isalpha :: "char \<Rightarrow> bool" where
  "isalpha c = ((65 \<le> (of_char c :: nat) \<and> (of_char c :: nat) \<le> 90) \<or>
                (97 \<le> (of_char c :: nat) \<and> (of_char c :: nat) \<le> 122))"

definition isalnum :: "char \<Rightarrow> bool" where
  "isalnum c = (isalpha c \<or> isdigit c)"

definition at_end :: "Lexer \<Rightarrow> bool" where
  "at_end lx = (pos lx \<ge> length (source lx))"

text \<open>
  \<^verbatim>\<open>source_[pos_]\<close>; every call of the source is guarded by \<^verbatim>\<open>!at_end()\<close>, and
  \<^verbatim>\<open>std::string::operator[]\<close> at \<^verbatim>\<open>size()\<close> is the terminating null character.
\<close>

definition peek :: "Lexer \<Rightarrow> char" where
  "peek lx = (if pos lx < length (source lx) then source lx ! pos lx else c_nul)"

definition peek_next :: "Lexer \<Rightarrow> char" where
  "peek_next lx =
     (if pos lx + 1 \<ge> length (source lx) then c_nul else source lx ! (pos lx + 1))"

definition advance :: "Lexer \<Rightarrow> char \<times> Lexer" where
  "advance lx =
     (let c = peek lx in
      (c, if c = c_nl then lx\<lparr>pos := pos lx + 1, line := line lx + 1, column := 1\<rparr>
          else lx\<lparr>pos := pos lx + 1, column := column lx + 1\<rparr>))"

abbreviation adv :: "Lexer \<Rightarrow> Lexer" where
  "adv lx \<equiv> snd (advance lx)"

definition remaining :: "Lexer \<Rightarrow> nat" where
  "remaining lx = length (source lx) - pos lx"

lemma remaining_adv [simp]: "\<not> at_end lx \<Longrightarrow> remaining (adv lx) < remaining lx"
  by (auto simp: remaining_def advance_def at_end_def Let_def)

lemma source_adv [simp]: "source (adv lx) = source lx"
  by (simp add: advance_def Let_def)

lemma pos_adv [simp]: "pos (adv lx) = Suc (pos lx)"
  by (simp add: advance_def Let_def)

lemma indent_stack_adv [simp]: "indent_stack (adv lx) = indent_stack lx"
  by (simp add: advance_def Let_def)

lemma remaining_adv2:
  "\<not> at_end lx \<Longrightarrow> \<not> at_end (adv lx) \<Longrightarrow> (c, y) = advance (adv lx)
   \<Longrightarrow> remaining y < remaining lx"
proof -
  assume a: "\<not> at_end lx" "\<not> at_end (adv lx)" "(c, y) = advance (adv lx)"
  have "remaining (adv (adv lx)) < remaining (adv lx)" using a by simp
  moreover have "remaining (adv lx) < remaining lx" using a by simp
  moreover have "y = adv (adv lx)" using a by (metis snd_conv)
  ultimately show ?thesis by simp
qed

subsection \<open>handle_indentation\<close>

text \<open>
  The first loop of \<^verbatim>\<open>handle_indentation\<close>: count the leading blanks, a tab advancing
  to the next multiple of 8.
\<close>

function indent_scan :: "Lexer \<Rightarrow> int \<Rightarrow> int \<times> Lexer" where
  "indent_scan lx indent =
     (if at_end lx then (indent, lx)
      else if peek lx = CHR '' '' then indent_scan (adv lx) (indent + 1)
      else if peek lx = c_tab then indent_scan (adv lx) (((indent div 8) + 1) * 8)
      else (indent, lx))"
  by pat_completeness auto
termination
  by (relation "measure (\<lambda>(lx, i). remaining lx)") auto

declare indent_scan.simps [simp del]

text \<open>
  The second loop: pop levels deeper than \<open>indent\<close>, one \<^verbatim>\<open>Dedent\<close> each.
\<close>

function dedent_loop :: "int list \<Rightarrow> int \<Rightarrow> int \<Rightarrow> int \<Rightarrow> Token list
    \<Rightarrow> int list \<times> Token list" where
  "dedent_loop stack indent l c tokens =
     (if length stack > 1 \<and> hd stack > indent
      then dedent_loop (tl stack) indent l c (tokens @ [mk_token T_Dedent [] l c])
      else (stack, tokens))"
  by pat_completeness auto
termination
  by (relation "measure (\<lambda>(stack, indent, l, c, tokens). length stack)") auto

declare dedent_loop.simps [simp del]

definition handle_indentation :: "Lexer \<Rightarrow> Token list \<Rightarrow> LexerError + (Token list \<times> Lexer)" where
  "handle_indentation lx0 tokens =
     (let indent_line = line lx0;
          indent_col = column lx0;
          (indent, lx) = indent_scan lx0 0
      in if at_end lx \<or> peek lx = c_nl \<or> peek lx = c_cr \<or> peek lx = CHR ''#''
         then Inr (tokens, lx)
         else
           let current = hd (indent_stack lx) in
           if indent > current
           then Inr (tokens @ [mk_token T_Indent [] indent_line indent_col],
                     lx\<lparr>indent_stack := indent # indent_stack lx\<rparr>)
           else if indent < current
           then (let (stack, tokens') =
                        dedent_loop (indent_stack lx) indent indent_line indent_col tokens
                 in if hd stack \<noteq> indent
                    then Inl (LexerError
                           ''unindent does not match any outer indentation level''
                           indent_line indent_col)
                    else Inr (tokens', lx\<lparr>indent_stack := stack\<rparr>))
           else Inr (tokens, lx))"

subsection \<open>Comments, strings, numbers, identifiers, operators\<close>

function skip_comment :: "Lexer \<Rightarrow> Lexer" where
  "skip_comment lx =
     (if \<not> at_end lx \<and> peek lx \<noteq> c_nl then skip_comment (adv lx) else lx)"
  by pat_completeness auto
termination
  by (relation "measure remaining") auto

declare skip_comment.simps [simp del]

text \<open>The loop of \<^verbatim>\<open>read_string\<close>, after the opening quote has been consumed.\<close>

function read_string_loop :: "char \<Rightarrow> int \<Rightarrow> int \<Rightarrow> string \<Rightarrow> Lexer
    \<Rightarrow> LexerError + (Token \<times> Lexer)" where
  "read_string_loop quote start_line start_col val lx =
     (if at_end lx
      then Inl (LexerError ''unterminated string literal (reached end of input)''
                  start_line start_col)
      else
        let c = peek lx in
        if c = c_nl
        then Inl (LexerError ''unterminated string literal (newline in string)''
                    start_line start_col)
        else if c = c_bslash
        then (let lx1 = adv lx in
              if at_end lx1
              then Inl (LexerError ''unterminated escape sequence at end of input''
                          (line lx1) (column lx1))
              else
                let (escaped, lx2) = advance lx1 in
                if escaped = CHR ''n'' then read_string_loop quote start_line start_col (val @ [c_nl]) lx2
                else if escaped = CHR ''t'' then read_string_loop quote start_line start_col (val @ [c_tab]) lx2
                else if escaped = CHR ''r'' then read_string_loop quote start_line start_col (val @ [c_cr]) lx2
                else if escaped = c_bslash then read_string_loop quote start_line start_col (val @ [c_bslash]) lx2
                else if escaped = c_squote then read_string_loop quote start_line start_col (val @ [c_squote]) lx2
                else if escaped = c_dquote then read_string_loop quote start_line start_col (val @ [c_dquote]) lx2
                else if escaped = CHR ''0'' then read_string_loop quote start_line start_col (val @ [c_nul]) lx2
                else Inl (LexerError (''invalid escape sequence: '' @ [c_bslash, escaped])
                            (line lx2) (column lx2 - 1)))
        else if c = quote
        then Inr (mk_token T_String val start_line start_col, adv lx)
        else read_string_loop quote start_line start_col (val @ [c]) (adv lx))"
  by pat_completeness auto
termination
  by (relation "measure (\<lambda>(q, sl, sc, v, lx). remaining lx)")
     (auto dest: remaining_adv2)

declare read_string_loop.simps [simp del]

definition read_string :: "Lexer \<Rightarrow> LexerError + (Token \<times> Lexer)" where
  "read_string lx =
     (let start_line = line lx; start_col = column lx; (quote, lx1) = advance lx
      in read_string_loop quote start_line start_col [] lx1)"

text \<open>\<^verbatim>\<open>while (!at_end() && std::isdigit(peek())) value += advance();\<close>\<close>

function read_digits :: "string \<Rightarrow> Lexer \<Rightarrow> string \<times> Lexer" where
  "read_digits val lx =
     (if \<not> at_end lx \<and> isdigit (peek lx) then read_digits (val @ [peek lx]) (adv lx)
      else (val, lx))"
  by pat_completeness auto
termination
  by (relation "measure (\<lambda>(v, lx). remaining lx)") auto

declare read_digits.simps [simp del]

definition read_number :: "Lexer \<Rightarrow> LexerError + (Token \<times> Lexer)" where
  "read_number lx0 =
     (let start_line = line lx0; start_col = column lx0;
          (v1, lx1) = read_digits [] lx0;
          (is_float1, v2, lx2) =
             (if \<not> at_end lx1 \<and> peek lx1 = CHR ''.'' \<and> isdigit (peek_next lx1)
              then (let (v, l) = read_digits (v1 @ [peek lx1]) (adv lx1) in (True, v, l))
              else (False, v1, lx1))
      in if \<not> at_end lx2 \<and> (peek lx2 = CHR ''e'' \<or> peek lx2 = CHR ''E'')
         then
           (let v3 = v2 @ [peek lx2]; lx3 = adv lx2;
                (v4, lx4) = (if \<not> at_end lx3 \<and> (peek lx3 = CHR ''+'' \<or> peek lx3 = CHR ''-'')
                             then (v3 @ [peek lx3], adv lx3) else (v3, lx3))
            in if at_end lx4 \<or> \<not> isdigit (peek lx4)
               then Inl (LexerError ''invalid numeric literal: expected digit after exponent''
                           (line lx4) (column lx4))
               else (let (v5, lx5) = read_digits v4 lx4
                     in Inr (mk_token T_Float v5 start_line start_col, lx5)))
         else Inr (mk_token (if is_float1 then T_Float else T_Int) v2 start_line start_col, lx2))"

function read_ident_chars :: "string \<Rightarrow> Lexer \<Rightarrow> string \<times> Lexer" where
  "read_ident_chars val lx =
     (if \<not> at_end lx \<and> (isalnum (peek lx) \<or> peek lx = CHR ''_'')
      then read_ident_chars (val @ [peek lx]) (adv lx)
      else (val, lx))"
  by pat_completeness auto
termination
  by (relation "measure (\<lambda>(v, lx). remaining lx)") auto

declare read_ident_chars.simps [simp del]

text \<open>The keyword table \<^verbatim>\<open>Lexer::keywords()\<close>.\<close>

definition keyword_table :: "(string \<times> TokenType) list" where
  "keyword_table =
     [(''fn'', T_Fn), (''imp'', T_Imp), (''ret'', T_Ret), (''if'', T_If),
      (''elif'', T_Elif), (''else'', T_Else), (''for'', T_For), (''in'', T_In),
      (''while'', T_While), (''try'', T_Try), (''except'', T_Except),
      (''finally'', T_Finally), (''pass'', T_Pass), (''and'', T_And), (''or'', T_Or),
      (''not'', T_Not), (''true'', T_True), (''false'', T_False), (''none'', T_None),
      (''class'', T_Class)]"

definition read_identifier_or_keyword :: "Lexer \<Rightarrow> Token \<times> Lexer" where
  "read_identifier_or_keyword lx0 =
     (let start_line = line lx0; start_col = column lx0;
          (val, lx) = read_ident_chars [] lx0
      in case map_of keyword_table val of
           Some t \<Rightarrow> (mk_token t val start_line start_col, lx)
         | None \<Rightarrow> (mk_token T_Identifier val start_line start_col, lx))"

text \<open>
  The two-character operators of \<^verbatim>\<open>read_operator_or_delimiter\<close>: after the first
  character, a following \<open>second\<close> gives \<open>two\<close>, anything else \<open>one\<close>.
\<close>

definition op2 :: "Lexer \<Rightarrow> char \<Rightarrow> TokenType \<Rightarrow> string \<Rightarrow> TokenType \<Rightarrow> string
    \<Rightarrow> int \<Rightarrow> int \<Rightarrow> LexerError + (Token \<times> Lexer)" where
  "op2 lx second two two_text one one_text l c =
     (if \<not> at_end lx \<and> peek lx = second
      then Inr (mk_token two two_text l c, adv lx)
      else Inr (mk_token one one_text l c, lx))"

definition read_operator_or_delimiter :: "Lexer \<Rightarrow> LexerError + (Token \<times> Lexer)" where
  "read_operator_or_delimiter lx0 =
     (let start_line = line lx0; start_col = column lx0; (c, lx) = advance lx0 in
      if c = CHR ''('' then Inr (mk_token T_LParen ''('' start_line start_col, lx)
      else if c = CHR '')'' then Inr (mk_token T_RParen '')'' start_line start_col, lx)
      else if c = CHR ''['' then Inr (mk_token T_LBracket ''['' start_line start_col, lx)
      else if c = CHR '']'' then Inr (mk_token T_RBracket '']'' start_line start_col, lx)
      else if c = CHR ''{'' then Inr (mk_token T_LBrace ''{'' start_line start_col, lx)
      else if c = CHR ''}'' then Inr (mk_token T_RBrace ''}'' start_line start_col, lx)
      else if c = CHR '':'' then Inr (mk_token T_Colon '':'' start_line start_col, lx)
      else if c = CHR '','' then Inr (mk_token T_Comma '','' start_line start_col, lx)
      else if c = CHR ''.'' then Inr (mk_token T_Dot ''.'' start_line start_col, lx)
      else if c = CHR ''%'' then Inr (mk_token T_Percent ''%'' start_line start_col, lx)
      else if c = CHR ''+'' then op2 lx (CHR ''='') T_PlusEq ''+='' T_Plus ''+'' start_line start_col
      else if c = CHR ''-'' then op2 lx (CHR ''='') T_MinusEq ''-='' T_Minus ''-'' start_line start_col
      else if c = CHR ''*'' then
        (if \<not> at_end lx \<and> peek lx = CHR ''*''
         then Inr (mk_token T_DoubleStar ''**'' start_line start_col, adv lx)
         else op2 lx (CHR ''='') T_StarEq ''*='' T_Star ''*'' start_line start_col)
      else if c = CHR ''/'' then op2 lx (CHR ''='') T_SlashEq ''/='' T_Slash ''/'' start_line start_col
      else if c = CHR ''='' then op2 lx (CHR ''='') T_EqEq ''=='' T_Eq ''='' start_line start_col
      else if c = CHR ''!'' then
        (if \<not> at_end lx \<and> peek lx = CHR ''=''
         then Inr (mk_token T_BangEq ''!='' start_line start_col, adv lx)
         else Inl (LexerError (''unexpected character '' @ [c_squote] @ ''!'' @ [c_squote]
                     @ '' (did you mean '' @ [c_squote] @ ''!='' @ [c_squote] @ ''?)'')
                     start_line start_col))
      else if c = CHR ''<'' then op2 lx (CHR ''='') T_LessEq ''<='' T_Less ''<'' start_line start_col
      else if c = CHR ''>'' then op2 lx (CHR ''='') T_GreaterEq ''>='' T_Greater ''>'' start_line start_col
      else Inl (LexerError (''unexpected character: '' @ [c_squote, c, c_squote])
                  start_line start_col))"


subsection \<open>tokenize\<close>

text \<open>
  One iteration of the main loop of \<^verbatim>\<open>tokenize\<close>, in two parts: \<open>scan_token\<close> is the
  dispatch on the current character, \<open>tokenize_step\<close> puts the indentation handling of
  a line start before it. The Boolean of the result says that the iteration left the
  loop through \<^verbatim>\<open>break\<close> (end of input after the indentation). The lexeme of a
  \<^verbatim>\<open>Newline\<close> token is the two characters backslash and n.
\<close>

definition newline_token :: "int \<Rightarrow> int \<Rightarrow> Token" where
  "newline_token l c = mk_token T_Newline [c_bslash, CHR ''n''] l c"

definition push_token :: "Token list \<Rightarrow> LexerError + (Token \<times> Lexer)
    \<Rightarrow> LexerError + (Token list \<times> Lexer)" where
  "push_token tokens r =
     (case r of Inl e \<Rightarrow> Inl e | Inr (t, lx) \<Rightarrow> Inr (tokens @ [t], lx))"

definition scan_token :: "Lexer \<Rightarrow> Token list \<Rightarrow> LexerError + (Token list \<times> Lexer)" where
  "scan_token lx tokens =
     (let c = peek lx in
      if c = CHR '' '' \<or> c = c_tab then Inr (tokens, adv lx)
      else if c = c_nl
      then Inr (tokens @ [newline_token (line lx) (column lx)],
                (adv lx)\<lparr>at_line_start := True\<rparr>)
      else if c = c_cr
      then (let lx1 = adv lx;
                lx2 = (if \<not> at_end lx1 \<and> peek lx1 = c_nl then adv lx1 else lx1)
            in Inr (tokens @ [newline_token (line lx2 - 1) (column lx2)],
                    lx2\<lparr>at_line_start := True\<rparr>))
      else if c = CHR ''#'' then Inr (tokens, skip_comment lx)
      else if c = c_dquote \<or> c = c_squote then push_token tokens (read_string lx)
      else if isdigit c then push_token tokens (read_number lx)
      else if isalpha c \<or> c = CHR ''_''
      then push_token tokens (Inr (read_identifier_or_keyword lx))
      else push_token tokens (read_operator_or_delimiter lx))"

definition tokenize_step :: "Lexer \<Rightarrow> Token list
    \<Rightarrow> LexerError + (bool \<times> Token list \<times> Lexer)" where
  "tokenize_step lx0 tokens0 =
     (if at_line_start lx0
      then (case handle_indentation lx0 tokens0 of
              Inl e \<Rightarrow> Inl e
            | Inr (ts, l) \<Rightarrow>
                let lx = l\<lparr>at_line_start := False\<rparr> in
                if at_end lx then Inr (True, ts, lx)
                else map_sum id (Pair False) (scan_token lx ts))
      else map_sum id (Pair False) (scan_token lx0 tokens0))"

text \<open>How far the helpers move: never backwards, and the token readers at least one
  character.\<close>

lemma at_end_remaining: "at_end lx \<longleftrightarrow> remaining lx = 0"
  by (auto simp: at_end_def remaining_def)

lemma remaining_at_line_start [simp]: "remaining (lx\<lparr>at_line_start := b\<rparr>) = remaining lx"
  by (simp add: remaining_def)

lemma remaining_indent_stack [simp]: "remaining (lx\<lparr>indent_stack := b\<rparr>) = remaining lx"
  by (simp add: remaining_def)

lemma remaining_adv_le: "remaining (adv lx) \<le> remaining lx"
  by (simp add: remaining_def)

lemma indent_scan_remaining:
  "indent_scan lx i = (i', lx') \<Longrightarrow> remaining lx' \<le> remaining lx"
proof (induction lx i rule: indent_scan.induct)
  case (1 lx indent)
  show ?case
  proof (cases "at_end lx")
    case True
    with "1.prems" show ?thesis by (simp add: indent_scan.simps [of lx])
  next
    case False
    note ne = this
    show ?thesis
    proof (cases "peek lx = CHR '' ''")
      case True
      with ne "1.prems" have "indent_scan (adv lx) (indent + 1) = (i', lx')"
        by (simp add: indent_scan.simps [of lx])
      from "1.IH"(1) [OF ne True this] remaining_adv_le [of lx] show ?thesis by simp
    next
      case False
      note nsp = this
      show ?thesis
      proof (cases "peek lx = c_tab")
        case True
        with ne nsp "1.prems"
        have "indent_scan (adv lx) (((indent div 8) + 1) * 8) = (i', lx')"
          by (simp add: indent_scan.simps [of lx])
        from "1.IH"(2) [OF ne nsp True this] remaining_adv_le [of lx] show ?thesis by simp
      next
        case False
        with ne nsp "1.prems" show ?thesis by (simp add: indent_scan.simps [of lx])
      qed
    qed
  qed
qed

lemma handle_indentation_remaining:
  "handle_indentation lx toks = Inr (toks', lx') \<Longrightarrow> remaining lx' \<le> remaining lx"
  by (auto simp: handle_indentation_def Let_def split: prod.splits if_splits
           dest: indent_scan_remaining)

lemma skip_comment_remaining_le: "remaining (skip_comment lx) \<le> remaining lx"
proof (induction lx rule: skip_comment.induct)
  case (1 lx)
  show ?case
  proof (cases "\<not> at_end lx \<and> peek lx \<noteq> c_nl")
    case True
    then have "skip_comment lx = skip_comment (adv lx)"
      by (simp add: skip_comment.simps [of lx])
    with "1.IH" [OF True] remaining_adv_le [of lx] show ?thesis by simp
  next
    case False
    then show ?thesis by (auto simp: skip_comment.simps [of lx])
  qed
qed

lemma skip_comment_remaining:
  "\<not> at_end lx \<Longrightarrow> peek lx \<noteq> c_nl \<Longrightarrow> remaining (skip_comment lx) < remaining lx"
proof -
  assume a: "\<not> at_end lx" "peek lx \<noteq> c_nl"
  then have "skip_comment lx = skip_comment (adv lx)"
    by (simp add: skip_comment.simps [of lx])
  with skip_comment_remaining_le [of "adv lx"] remaining_adv [OF a(1)] show ?thesis by simp
qed

lemma read_string_loop_remaining:
  "read_string_loop q sl sc v lx = Inr (t, lx') \<Longrightarrow> remaining lx' \<le> remaining lx"
proof (induction q sl sc v lx rule: read_string_loop.induct)
  case (1 quote start_line start_col val lx)
  note unf = read_string_loop.simps [of quote start_line start_col val lx]
  from "1.prems" have ne: "\<not> at_end lx"
    by (auto simp: unf split: if_splits)
  have step: "remaining (adv lx) \<le> remaining lx" by (rule remaining_adv_le)
  have step2: "remaining (adv (adv lx)) \<le> remaining lx"
    using remaining_adv_le [of "adv lx"] step by simp
  show ?case
  proof (cases "peek lx = c_bslash")
    case True
    with "1.prems" ne have nn: "peek lx \<noteq> c_nl" and ne1: "\<not> at_end (adv lx)"
      by (auto simp: unf Let_def split: if_splits prod.splits)
    obtain escaped lx2 where adv2: "advance (adv lx) = (escaped, lx2)"
      by (cases "advance (adv lx)")
    then have lx2: "lx2 = adv (adv lx)" by simp
    note IH = "1.IH"(1-7) [OF ne refl nn True refl ne1 adv2 [symmetric]]
    have "remaining lx' \<le> remaining lx2"
      using "1.prems" ne nn True ne1 adv2 IH
      by (auto simp: unf Let_def split: if_splits)
    with step2 lx2 show ?thesis by simp
  next
    case False
    note nb = this
    show ?thesis
    proof (cases "peek lx = quote")
      case True
      with "1.prems" ne nb have "lx' = adv lx" by (auto simp: unf Let_def split: if_splits)
      with step show ?thesis by simp
    next
      case False
      with "1.prems" ne nb have nn: "peek lx \<noteq> c_nl"
        and r: "read_string_loop quote start_line start_col (val @ [peek lx]) (adv lx) = Inr (t, lx')"
        by (auto simp: unf Let_def split: if_splits)
      from "1.IH"(8) [OF ne refl nn nb False r] step show ?thesis by simp
    qed
  qed
qed

lemma read_string_remaining:
  assumes "\<not> at_end lx" "read_string lx = Inr (t, lx')"
  shows "remaining lx' < remaining lx"
proof -
  have "read_string lx = read_string_loop (fst (advance lx)) (line lx) (column lx) [] (adv lx)"
    by (simp add: read_string_def Let_def split_beta)
  with assms(2) read_string_loop_remaining have "remaining lx' \<le> remaining (adv lx)"
    by metis
  with remaining_adv [OF assms(1)] show ?thesis by simp
qed

lemma read_digits_remaining_le:
  "read_digits v lx = (v', lx') \<Longrightarrow> remaining lx' \<le> remaining lx"
proof (induction v lx rule: read_digits.induct)
  case (1 val lx)
  show ?case
  proof (cases "\<not> at_end lx \<and> isdigit (peek lx)")
    case True
    with "1.prems" have "read_digits (val @ [peek lx]) (adv lx) = (v', lx')"
      by (simp add: read_digits.simps [of val lx])
    from "1.IH" [OF True this] remaining_adv_le [of lx] show ?thesis by simp
  next
    case False
    with "1.prems" show ?thesis by (auto simp: read_digits.simps [of val lx])
  qed
qed

lemma read_digits_remaining:
  "\<not> at_end lx \<Longrightarrow> isdigit (peek lx) \<Longrightarrow> read_digits v lx = (v', lx')
   \<Longrightarrow> remaining lx' < remaining lx"
proof -
  assume a: "\<not> at_end lx" "isdigit (peek lx)" "read_digits v lx = (v', lx')"
  then have "read_digits (v @ [peek lx]) (adv lx) = (v', lx')"
    by (simp add: read_digits.simps [of v lx])
  from read_digits_remaining_le [OF this] remaining_adv [OF a(1)] show ?thesis by simp
qed

lemma read_number_remaining_le:
  assumes "read_number lx = Inr (t, lx')"
  shows "\<exists>v1 lx1. read_digits [] lx = (v1, lx1) \<and> remaining lx' \<le> remaining lx1"
proof -
  obtain v1 lx1 where d1: "read_digits [] lx = (v1, lx1)" by (cases "read_digits [] lx")
  obtain f2 v2 lx2 where d2:
    "(if \<not> at_end lx1 \<and> peek lx1 = CHR ''.'' \<and> isdigit (peek_next lx1)
      then (let (v, l) = read_digits (v1 @ [peek lx1]) (adv lx1) in (True, v, l))
      else (False, v1, lx1)) = (f2, v2, lx2)"
    by (metis prod_cases3)
  have le2: "remaining lx2 \<le> remaining lx1"
    using d2 remaining_adv_le [of lx1]
    by (auto simp: Let_def split: if_splits prod.splits dest!: read_digits_remaining_le)
  have "remaining lx' \<le> remaining lx2"
  proof (cases "\<not> at_end lx2 \<and> (peek lx2 = CHR ''e'' \<or> peek lx2 = CHR ''E'')")
    case False
    with assms d1 d2 have "lx' = lx2"
      by (auto simp: read_number_def Let_def)
    then show ?thesis by simp
  next
    case True
    obtain v4 lx4 where d4:
      "(if \<not> at_end (adv lx2) \<and> (peek (adv lx2) = CHR ''+'' \<or> peek (adv lx2) = CHR ''-'')
        then (v2 @ [peek lx2] @ [peek (adv lx2)], adv (adv lx2))
        else (v2 @ [peek lx2], adv lx2)) = (v4, lx4)"
      by (metis surj_pair)
    have le4: "remaining lx4 \<le> remaining lx2"
      using d4 remaining_adv_le [of lx2] remaining_adv_le [of "adv lx2"]
      by (auto split: if_splits)
    obtain v5 lx5 where d5: "read_digits v4 lx4 = (v5, lx5)" by (cases "read_digits v4 lx4")
    from assms d1 d2 True d4 d5 have "lx' = lx5"
      by (auto simp: read_number_def Let_def split: if_splits)
    with read_digits_remaining_le [OF d5] le4 show ?thesis by simp
  qed
  with le2 d1 show ?thesis by auto
qed

lemma read_number_remaining:
  assumes "\<not> at_end lx" "isdigit (peek lx)" "read_number lx = Inr (t, lx')"
  shows "remaining lx' < remaining lx"
proof -
  from read_number_remaining_le [OF assms(3)] obtain v1 lx1
    where d1: "read_digits [] lx = (v1, lx1)" and le: "remaining lx' \<le> remaining lx1"
    by blast
  from read_digits_remaining [OF assms(1,2) d1] le show ?thesis by simp
qed

lemma read_ident_chars_remaining_le:
  "read_ident_chars v lx = (v', lx') \<Longrightarrow> remaining lx' \<le> remaining lx"
proof (induction v lx rule: read_ident_chars.induct)
  case (1 val lx)
  show ?case
  proof (cases "\<not> at_end lx \<and> (isalnum (peek lx) \<or> peek lx = CHR ''_'')")
    case True
    with "1.prems" have "read_ident_chars (val @ [peek lx]) (adv lx) = (v', lx')"
      by (simp add: read_ident_chars.simps [of val lx])
    from "1.IH" [OF True this] remaining_adv_le [of lx] show ?thesis by simp
  next
    case False
    with "1.prems" show ?thesis by (auto simp: read_ident_chars.simps [of val lx])
  qed
qed

lemma read_identifier_remaining:
  assumes "\<not> at_end lx" "isalpha (peek lx) \<or> peek lx = CHR ''_''"
    and "read_identifier_or_keyword lx = (t, lx')"
  shows "remaining lx' < remaining lx"
proof -
  obtain v lx1 where d: "read_ident_chars [] lx = (v, lx1)" by (cases "read_ident_chars [] lx")
  from assms(1,2) d have "read_ident_chars [peek lx] (adv lx) = (v, lx1)"
    by (auto simp: read_ident_chars.simps [of "[]" lx] isalnum_def)
  from read_ident_chars_remaining_le [OF this] remaining_adv [OF assms(1)]
  have "remaining lx1 < remaining lx" by simp
  moreover from assms(3) d have "lx' = lx1"
    by (auto simp: read_identifier_or_keyword_def Let_def split: option.splits)
  ultimately show ?thesis by simp
qed

lemma read_operator_remaining:
  assumes "\<not> at_end lx" "read_operator_or_delimiter lx = Inr (t, lx')"
  shows "remaining lx' < remaining lx"
proof -
  have "lx' = adv lx \<or> lx' = adv (adv lx)"
    using assms(2)
    by (auto simp: read_operator_or_delimiter_def op2_def Let_def split: prod.splits if_splits)
  with remaining_adv [OF assms(1)] remaining_adv_le [of "adv lx"] show ?thesis
    by auto
qed

lemma scan_token_remaining:
  assumes ne: "\<not> at_end l" and sc: "scan_token l ts = Inr (toks', lx')"
  shows "remaining lx' < remaining l"
proof -
  consider (adv1) "lx' = adv l" | (adv1') "lx' = (adv l)\<lparr>at_line_start := True\<rparr>"
    | (adv2) "lx' = (adv (adv l))\<lparr>at_line_start := True\<rparr>"
    | (comment) "peek l = CHR ''#''" "lx' = skip_comment l"
    | (str) t where "read_string l = Inr (t, lx')"
    | (num) t where "isdigit (peek l)" "read_number l = Inr (t, lx')"
    | (ident) t where "isalpha (peek l) \<or> peek l = CHR ''_''"
        "read_identifier_or_keyword l = (t, lx')"
    | (oper) t where "read_operator_or_delimiter l = Inr (t, lx')"
    using sc
    by (auto simp: scan_token_def Let_def push_token_def
             split: if_splits sum.splits prod.splits)
  then show ?thesis
  proof cases
    case adv1 with remaining_adv [OF ne] show ?thesis by simp
  next
    case adv1' with remaining_adv [OF ne] show ?thesis by simp
  next
    case adv2 with remaining_adv [OF ne] remaining_adv_le [of "adv l"] show ?thesis by simp
  next
    case comment
    then have "peek l \<noteq> c_nl" by (simp add: c_nl_def)
    from skip_comment_remaining [OF ne this] comment show ?thesis by simp
  next
    case str with read_string_remaining [OF ne] show ?thesis by simp
  next
    case num with read_number_remaining [OF ne] show ?thesis by simp
  next
    case ident with read_identifier_remaining [OF ne] show ?thesis by simp
  next
    case oper with read_operator_remaining [OF ne] show ?thesis by simp
  qed
qed

lemma tokenize_step_remaining:
  assumes "\<not> at_end lx" "tokenize_step lx toks = Inr (False, toks', lx')"
  shows "remaining lx' < remaining lx"
proof (cases "at_line_start lx")
  case False
  with assms(2) have "scan_token lx toks = Inr (toks', lx')"
    by (cases "scan_token lx toks") (auto simp: tokenize_step_def)
  from scan_token_remaining [OF assms(1) this] show ?thesis .
next
  case True
  with assms(2) obtain ts l where h: "handle_indentation lx toks = Inr (ts, l)"
    by (auto simp: tokenize_step_def split: sum.splits)
  let ?l = "l\<lparr>at_line_start := False\<rparr>"
  from assms(2) True h have ne: "\<not> at_end ?l"
    and "map_sum id (Pair False) (scan_token ?l ts) = Inr (False, toks', lx')"
    by (auto simp: tokenize_step_def Let_def split: if_splits)
  then have "scan_token ?l ts = Inr (toks', lx')"
    by (cases "scan_token ?l ts") auto
  from scan_token_remaining [OF ne this] handle_indentation_remaining [OF h]
  show ?thesis by simp
qed

function tokenize_loop :: "Lexer \<Rightarrow> Token list \<Rightarrow> LexerError + (Token list \<times> Lexer)" where
  "tokenize_loop lx tokens =
     (if at_end lx then Inr (tokens, lx)
      else case tokenize_step lx tokens of
             Inl e \<Rightarrow> Inl e
           | Inr (brk, tokens', lx') \<Rightarrow>
               if brk then Inr (tokens', lx') else tokenize_loop lx' tokens')"
  by pat_completeness auto
termination
  by (relation "measure (\<lambda>(lx, tokens). remaining lx)")
     (auto dest: tokenize_step_remaining)

declare tokenize_loop.simps [simp del]

text \<open>The loop that closes the open indentation levels at the end of input.\<close>

function final_dedents :: "int list \<Rightarrow> int \<Rightarrow> int \<Rightarrow> Token list \<Rightarrow> int list \<times> Token list" where
  "final_dedents stack l c tokens =
     (if length stack > 1
      then final_dedents (tl stack) l c (tokens @ [mk_token T_Dedent [] l c])
      else (stack, tokens))"
  by pat_completeness auto
termination
  by (relation "measure (\<lambda>(stack, l, c, tokens). length stack)") auto

declare final_dedents.simps [simp del]

definition tokenize :: "string \<Rightarrow> LexerError + Token list" where
  "tokenize src =
     (case tokenize_loop (Lexer_init src) [] of
        Inl e \<Rightarrow> Inl e
      | Inr (tokens, lx) \<Rightarrow>
          let tokens1 = (if tokens \<noteq> [] \<and> tok_type (last tokens) \<noteq> T_Newline
                         then tokens @ [newline_token (line lx) (column lx)]
                         else tokens);
              (stack, tokens2) = final_dedents (indent_stack lx) (line lx) (column lx) tokens1
          in Inr (tokens2 @ [mk_token T_Eof [] (line lx) (column lx)]))"

subsection \<open>Balance of Indent and Dedent\<close>

definition count_type :: "TokenType \<Rightarrow> Token list \<Rightarrow> nat" where
  "count_type t toks = length (filter (\<lambda>k. tok_type k = t) toks)"

text \<open>
  Reading a token sequence as brackets: \<open>nesting d toks\<close> is the depth after \<open>toks\<close>
  when the depth before is \<open>d\<close>, and \<open>None\<close> when a \<^verbatim>\<open>Dedent\<close> has no open
  \<^verbatim>\<open>Indent\<close> to close.
\<close>

fun nesting :: "nat \<Rightarrow> Token list \<Rightarrow> nat option" where
  "nesting d [] = Some d"
| "nesting d (t # ts) =
     (if tok_type t = T_Indent then nesting (Suc d) ts
      else if tok_type t = T_Dedent
      then (case d of 0 \<Rightarrow> None | Suc d' \<Rightarrow> nesting d' ts)
      else nesting d ts)"

definition plain :: "Token \<Rightarrow> bool" where
  "plain t = (tok_type t \<noteq> T_Indent \<and> tok_type t \<noteq> T_Dedent \<and> tok_type t \<noteq> T_Eof)"

definition lexer_inv :: "Lexer \<Rightarrow> Token list \<Rightarrow> bool" where
  "lexer_inv lx toks =
     (nesting 0 toks = Some (length (indent_stack lx) - 1) \<and> indent_stack lx \<noteq> [] \<and>
      count_type T_Eof toks = 0)"

lemma nesting_append:
  "nesting d (xs @ ys) = (case nesting d xs of None \<Rightarrow> None | Some d' \<Rightarrow> nesting d' ys)"
  by (induction xs arbitrary: d) (auto split: nat.splits)

lemma nesting_snoc_plain: "plain t \<Longrightarrow> nesting d (xs @ [t]) = nesting d xs"
  by (simp add: nesting_append plain_def split: option.splits)

lemma count_type_append [simp]:
  "count_type t (xs @ ys) = count_type t xs + count_type t ys"
  by (simp add: count_type_def)

lemma nesting_counts:
  "nesting d toks = Some d' \<Longrightarrow> d + count_type T_Indent toks = count_type T_Dedent toks + d'"
proof (induction toks arbitrary: d)
  case Nil
  then show ?case by (simp add: count_type_def)
next
  case (Cons t ts)
  show ?case
  proof (cases "tok_type t = T_Indent")
    case True
    with Cons.prems have "nesting (Suc d) ts = Some d'" by simp
    from Cons.IH [OF this] True show ?thesis by (simp add: count_type_def)
  next
    case False
    note ni = this
    show ?thesis
    proof (cases "tok_type t = T_Dedent")
      case True
      with Cons.prems ni obtain d0 where d: "d = Suc d0" and "nesting d0 ts = Some d'"
        by (cases d) auto
      from Cons.IH [OF this(2)] True d show ?thesis by (simp add: count_type_def)
    next
      case False
      with Cons.prems ni have "nesting d ts = Some d'" by simp
      from Cons.IH [OF this] ni False show ?thesis by (simp add: count_type_def)
    qed
  qed
qed

lemma plain_mk_token [simp]:
  "plain (mk_token t v l c) \<longleftrightarrow> t \<noteq> T_Indent \<and> t \<noteq> T_Dedent \<and> t \<noteq> T_Eof"
  by (simp add: plain_def mk_token_def)

lemma lexer_inv_snoc_plain:
  "plain t \<Longrightarrow> lexer_inv lx toks \<Longrightarrow> lexer_inv lx (toks @ [t])"
  by (simp add: lexer_inv_def nesting_snoc_plain) (simp add: count_type_def plain_def)

lemma lexer_inv_cong:
  "indent_stack lx' = indent_stack lx \<Longrightarrow> lexer_inv lx toks \<Longrightarrow> lexer_inv lx' toks"
  by (simp add: lexer_inv_def)

text \<open>No helper but \<open>handle_indentation\<close> touches the stack of indentation levels.\<close>

lemma indent_scan_stack:
  "indent_scan lx i = (i', lx') \<Longrightarrow> indent_stack lx' = indent_stack lx"
proof (induction lx i rule: indent_scan.induct)
  case (1 lx indent)
  show ?case
  proof (cases "at_end lx")
    case True
    with "1.prems" show ?thesis by (simp add: indent_scan.simps [of lx])
  next
    case False
    note ne = this
    show ?thesis
    proof (cases "peek lx = CHR '' ''")
      case True
      with ne "1.prems" have "indent_scan (adv lx) (indent + 1) = (i', lx')"
        by (simp add: indent_scan.simps [of lx])
      from "1.IH"(1) [OF ne True this] show ?thesis by simp
    next
      case False
      note nsp = this
      show ?thesis
      proof (cases "peek lx = c_tab")
        case True
        with ne nsp "1.prems"
        have "indent_scan (adv lx) (((indent div 8) + 1) * 8) = (i', lx')"
          by (simp add: indent_scan.simps [of lx])
        from "1.IH"(2) [OF ne nsp True this] show ?thesis by simp
      next
        case False
        with ne nsp "1.prems" show ?thesis by (simp add: indent_scan.simps [of lx])
      qed
    qed
  qed
qed

lemma skip_comment_stack: "indent_stack (skip_comment lx) = indent_stack lx"
proof (induction lx rule: skip_comment.induct)
  case (1 lx)
  show ?case
  proof (cases "\<not> at_end lx \<and> peek lx \<noteq> c_nl")
    case True
    then have "skip_comment lx = skip_comment (adv lx)"
      by (simp add: skip_comment.simps [of lx])
    with "1.IH" [OF True] show ?thesis by simp
  next
    case False
    then show ?thesis by (auto simp: skip_comment.simps [of lx])
  qed
qed

lemma read_string_loop_stack:
  "read_string_loop q sl sc v lx = Inr (t, lx')
   \<Longrightarrow> indent_stack lx' = indent_stack lx \<and> tok_type t = T_String"
proof (induction q sl sc v lx rule: read_string_loop.induct)
  case (1 quote start_line start_col val lx)
  note unf = read_string_loop.simps [of quote start_line start_col val lx]
  from "1.prems" have ne: "\<not> at_end lx"
    by (auto simp: unf split: if_splits)
  show ?case
  proof (cases "peek lx = c_bslash")
    case True
    with "1.prems" ne have nn: "peek lx \<noteq> c_nl" and ne1: "\<not> at_end (adv lx)"
      by (auto simp: unf Let_def split: if_splits prod.splits)
    obtain escaped lx2 where adv2: "advance (adv lx) = (escaped, lx2)"
      by (cases "advance (adv lx)")
    then have lx2: "lx2 = adv (adv lx)" by simp
    note IH = "1.IH"(1-7) [OF ne refl nn True refl ne1 adv2 [symmetric]]
    have "indent_stack lx' = indent_stack lx2 \<and> tok_type t = T_String"
      using "1.prems" ne nn True ne1 adv2 IH
      by (auto simp: unf Let_def split: if_splits)
    with lx2 show ?thesis by simp
  next
    case False
    note nb = this
    show ?thesis
    proof (cases "peek lx = quote")
      case True
      with "1.prems" ne nb have "lx' = adv lx \<and> tok_type t = T_String"
        by (auto simp: unf Let_def mk_token_def split: if_splits)
      then show ?thesis by simp
    next
      case False
      with "1.prems" ne nb have nn: "peek lx \<noteq> c_nl"
        and r: "read_string_loop quote start_line start_col (val @ [peek lx]) (adv lx) = Inr (t, lx')"
        by (auto simp: unf Let_def split: if_splits)
      from "1.IH"(8) [OF ne refl nn nb False r] show ?thesis by simp
    qed
  qed
qed

lemma read_string_stack:
  assumes "read_string lx = Inr (t, lx')"
  shows "indent_stack lx' = indent_stack lx \<and> plain t"
proof -
  have "read_string lx = read_string_loop (fst (advance lx)) (line lx) (column lx) [] (adv lx)"
    by (simp add: read_string_def Let_def split_beta)
  with assms read_string_loop_stack
  have "indent_stack lx' = indent_stack (adv lx) \<and> tok_type t = T_String"
    by metis
  then show ?thesis by (simp add: plain_def)
qed

lemma read_digits_stack:
  "read_digits v lx = (v', lx') \<Longrightarrow> indent_stack lx' = indent_stack lx"
proof (induction v lx rule: read_digits.induct)
  case (1 val lx)
  show ?case
  proof (cases "\<not> at_end lx \<and> isdigit (peek lx)")
    case True
    with "1.prems" have "read_digits (val @ [peek lx]) (adv lx) = (v', lx')"
      by (simp add: read_digits.simps [of val lx])
    from "1.IH" [OF True this] show ?thesis by simp
  next
    case False
    with "1.prems" show ?thesis by (auto simp: read_digits.simps [of val lx])
  qed
qed

lemma read_number_stack:
  assumes "read_number lx = Inr (t, lx')"
  shows "indent_stack lx' = indent_stack lx \<and> plain t"
proof -
  obtain v1 lx1 where d1: "read_digits [] lx = (v1, lx1)" by (cases "read_digits [] lx")
  obtain f2 v2 lx2 where d2:
    "(if \<not> at_end lx1 \<and> peek lx1 = CHR ''.'' \<and> isdigit (peek_next lx1)
      then (let (v, l) = read_digits (v1 @ [peek lx1]) (adv lx1) in (True, v, l))
      else (False, v1, lx1)) = (f2, v2, lx2)"
    by (metis prod_cases3)
  have s2: "indent_stack lx2 = indent_stack lx"
    using d2 read_digits_stack [OF d1]
    by (auto simp: Let_def split: if_splits prod.splits dest!: read_digits_stack)
  show ?thesis
  proof (cases "\<not> at_end lx2 \<and> (peek lx2 = CHR ''e'' \<or> peek lx2 = CHR ''E'')")
    case False
    with assms d1 d2 have "lx' = lx2 \<and> plain t"
      by (auto simp: read_number_def Let_def)
    with s2 show ?thesis by simp
  next
    case True
    obtain v4 lx4 where d4:
      "(if \<not> at_end (adv lx2) \<and> (peek (adv lx2) = CHR ''+'' \<or> peek (adv lx2) = CHR ''-'')
        then (v2 @ [peek lx2] @ [peek (adv lx2)], adv (adv lx2))
        else (v2 @ [peek lx2], adv lx2)) = (v4, lx4)"
      by (metis surj_pair)
    have s4: "indent_stack lx4 = indent_stack lx2"
      using d4 by (auto split: if_splits)
    obtain v5 lx5 where d5: "read_digits v4 lx4 = (v5, lx5)" by (cases "read_digits v4 lx4")
    from assms d1 d2 True d4 d5 have "lx' = lx5 \<and> plain t"
      by (auto simp: read_number_def Let_def split: if_splits)
    with read_digits_stack [OF d5] s4 s2 show ?thesis by simp
  qed
qed

lemma read_ident_chars_stack:
  "read_ident_chars v lx = (v', lx') \<Longrightarrow> indent_stack lx' = indent_stack lx"
proof (induction v lx rule: read_ident_chars.induct)
  case (1 val lx)
  show ?case
  proof (cases "\<not> at_end lx \<and> (isalnum (peek lx) \<or> peek lx = CHR ''_'')")
    case True
    with "1.prems" have "read_ident_chars (val @ [peek lx]) (adv lx) = (v', lx')"
      by (simp add: read_ident_chars.simps [of val lx])
    from "1.IH" [OF True this] show ?thesis by simp
  next
    case False
    with "1.prems" show ?thesis by (auto simp: read_ident_chars.simps [of val lx])
  qed
qed

lemma keyword_table_plain:
  "map_of keyword_table v = Some t \<Longrightarrow> t \<noteq> T_Indent \<and> t \<noteq> T_Dedent \<and> t \<noteq> T_Eof"
  by (auto simp: keyword_table_def split: if_splits)

lemma read_identifier_stack:
  assumes "read_identifier_or_keyword lx = (t, lx')"
  shows "indent_stack lx' = indent_stack lx \<and> plain t"
proof -
  obtain v lx1 where d: "read_ident_chars [] lx = (v, lx1)" by (cases "read_ident_chars [] lx")
  from assms d have "lx' = lx1 \<and> plain t"
    by (auto simp: read_identifier_or_keyword_def Let_def split: option.splits
             dest: keyword_table_plain)
  with read_ident_chars_stack [OF d] show ?thesis by simp
qed

lemma read_operator_stack:
  assumes "read_operator_or_delimiter lx = Inr (t, lx')"
  shows "indent_stack lx' = indent_stack lx \<and> plain t"
proof -
  have "(lx' = adv lx \<or> lx' = adv (adv lx)) \<and> plain t"
    using assms
    by (auto simp: read_operator_or_delimiter_def op2_def Let_def split: prod.splits if_splits)
  then show ?thesis by auto
qed

lemma scan_token_inv:
  assumes sc: "scan_token l ts = Inr (toks', lx')" and inv: "lexer_inv l ts"
  shows "lexer_inv lx' toks'"
proof -
  have "indent_stack lx' = indent_stack l \<and> (toks' = ts \<or> (\<exists>t. plain t \<and> toks' = ts @ [t]))"
    using sc
    by (auto simp: scan_token_def Let_def push_token_def newline_token_def skip_comment_stack
             split: if_splits sum.splits prod.splits
             dest!: read_string_stack read_number_stack read_identifier_stack
                    read_operator_stack)
  with inv show ?thesis
    by (auto intro: lexer_inv_cong lexer_inv_snoc_plain)
qed

lemma dedent_loop_inv:
  "dedent_loop stack indent l c toks = (stack', toks') \<Longrightarrow> stack \<noteq> [] \<Longrightarrow>
   nesting 0 toks = Some (length stack - 1) \<Longrightarrow> count_type T_Eof toks = 0 \<Longrightarrow>
   stack' \<noteq> [] \<and> nesting 0 toks' = Some (length stack' - 1) \<and> count_type T_Eof toks' = 0"
proof (induction stack indent l c toks rule: dedent_loop.induct)
  case (1 stack indent l c tokens)
  note unf = dedent_loop.simps [of stack indent l c tokens]
  show ?case
  proof (cases "length stack > 1 \<and> hd stack > indent")
    case False
    with "1.prems" show ?thesis by (auto simp: unf)
  next
    case True
    let ?toks = "tokens @ [mk_token T_Dedent [] l c]"
    from True "1.prems" have r: "dedent_loop (tl stack) indent l c ?toks = (stack', toks')"
      by (simp add: unf)
    from True have ne: "tl stack \<noteq> []" by (cases stack) auto
    from True have "2 \<le> length stack" by simp
    then obtain n where n: "length stack = Suc (Suc n)"
      by (metis add_2_eq_Suc le_Suc_ex)
    then have lt: "length (tl stack) = Suc n" by simp
    have nest: "nesting 0 ?toks = Some (length (tl stack) - 1)"
      using "1.prems"(3) n lt by (simp add: nesting_append mk_token_def)
    have eof: "count_type T_Eof ?toks = 0"
      using "1.prems"(4) by (simp add: count_type_def mk_token_def)
    from "1.IH" [OF True r ne nest eof] show ?thesis .
  qed
qed

lemma handle_indentation_inv:
  assumes h: "handle_indentation lx toks = Inr (toks', lx')" and inv: "lexer_inv lx toks"
  shows "lexer_inv lx' toks'"
proof -
  obtain indent l where sc: "indent_scan lx 0 = (indent, l)" by (cases "indent_scan lx 0")
  note st = indent_scan_stack [OF sc]
  from inv st have invl: "lexer_inv l toks" by (simp add: lexer_inv_def)
  show ?thesis
  proof (cases "at_end l \<or> peek l = c_nl \<or> peek l = c_cr \<or> peek l = CHR ''#''")
    case True
    with h sc have "toks' = toks \<and> lx' = l" by (auto simp: handle_indentation_def Let_def)
    with invl show ?thesis by simp
  next
    case False
    note body = this
    show ?thesis
    proof (cases "indent > hd (indent_stack l)")
      case True
      with h sc body
      have eq: "toks' = toks @ [mk_token T_Indent [] (line lx) (column lx)]"
        "lx' = l\<lparr>indent_stack := indent # indent_stack l\<rparr>"
        by (auto simp: handle_indentation_def Let_def)
      from invl obtain n where "length (indent_stack l) = Suc n"
        by (cases "indent_stack l") (auto simp: lexer_inv_def)
      with invl eq show ?thesis
        by (simp add: lexer_inv_def nesting_append mk_token_def count_type_def)
    next
      case False
      note ngt = this
      show ?thesis
      proof (cases "indent < hd (indent_stack l)")
        case False
        with h sc body ngt have "toks' = toks \<and> lx' = l"
          by (auto simp: handle_indentation_def Let_def)
        with invl show ?thesis by simp
      next
        case True
        obtain stack tks where d:
          "dedent_loop (indent_stack l) indent (line lx) (column lx) toks = (stack, tks)"
          by (cases "dedent_loop (indent_stack l) indent (line lx) (column lx) toks")
        from h sc body ngt True d have eq: "toks' = tks" "lx' = l\<lparr>indent_stack := stack\<rparr>"
          by (auto simp: handle_indentation_def Let_def split: if_splits)
        from invl have "indent_stack l \<noteq> []"
          "nesting 0 toks = Some (length (indent_stack l) - 1)" "count_type T_Eof toks = 0"
          by (simp_all add: lexer_inv_def)
        from dedent_loop_inv [OF d this] eq show ?thesis by (simp add: lexer_inv_def)
      qed
    qed
  qed
qed

lemma tokenize_step_inv:
  assumes "tokenize_step lx toks = Inr (brk, toks', lx')" "lexer_inv lx toks"
  shows "lexer_inv lx' toks'"
proof (cases "at_line_start lx")
  case False
  with assms(1) have "scan_token lx toks = Inr (toks', lx')"
    by (cases "scan_token lx toks") (auto simp: tokenize_step_def)
  from scan_token_inv [OF this assms(2)] show ?thesis .
next
  case True
  with assms(1) obtain ts l where h: "handle_indentation lx toks = Inr (ts, l)"
    by (auto simp: tokenize_step_def split: sum.splits)
  let ?l = "l\<lparr>at_line_start := False\<rparr>"
  have inv: "lexer_inv ?l ts"
    using handle_indentation_inv [OF h assms(2)] by (simp add: lexer_inv_def)
  show ?thesis
  proof (cases "at_end ?l")
    case True
    with assms(1) \<open>at_line_start lx\<close> h have "toks' = ts \<and> lx' = ?l"
      by (auto simp: tokenize_step_def Let_def)
    with inv show ?thesis by simp
  next
    case False
    with assms(1) \<open>at_line_start lx\<close> h
    have "map_sum id (Pair False) (scan_token ?l ts) = Inr (brk, toks', lx')"
      by (auto simp: tokenize_step_def Let_def)
    then have "scan_token ?l ts = Inr (toks', lx')"
      by (cases "scan_token ?l ts") auto
    from scan_token_inv [OF this inv] show ?thesis .
  qed
qed

lemma tokenize_loop_inv:
  "tokenize_loop lx toks = Inr (toks', lx') \<Longrightarrow> lexer_inv lx toks \<Longrightarrow> lexer_inv lx' toks'"
proof (induction lx toks rule: tokenize_loop.induct)
  case (1 lx tokens)
  note unf = tokenize_loop.simps [of lx tokens]
  show ?case
  proof (cases "at_end lx")
    case True
    with "1.prems" show ?thesis by (simp add: unf)
  next
    case False
    with "1.prems"(1) obtain brk ts l where st: "tokenize_step lx tokens = Inr (brk, ts, l)"
      by (auto simp: unf split: sum.splits)
    note inv = tokenize_step_inv [OF st "1.prems"(2)]
    show ?thesis
    proof (cases brk)
      case True
      with "1.prems"(1) False st have "toks' = ts \<and> lx' = l" by (simp add: unf)
      with inv show ?thesis by simp
    next
      case False
      with "1.prems"(1) \<open>\<not> at_end lx\<close> st have "tokenize_loop l ts = Inr (toks', lx')"
        by (simp add: unf)
      from "1.IH" [OF \<open>\<not> at_end lx\<close> st refl refl False this inv] show ?thesis .
    qed
  qed
qed

lemma final_dedents_inv:
  "final_dedents stack l c toks = (stack', toks') \<Longrightarrow> stack \<noteq> [] \<Longrightarrow>
   nesting 0 toks = Some (length stack - 1) \<Longrightarrow> count_type T_Eof toks = 0 \<Longrightarrow>
   nesting 0 toks' = Some 0 \<and> count_type T_Eof toks' = 0"
proof (induction stack l c toks rule: final_dedents.induct)
  case (1 stack l c tokens)
  note unf = final_dedents.simps [of stack l c tokens]
  show ?case
  proof (cases "length stack > 1")
    case False
    with "1.prems" have "length stack = 1" by (cases stack) auto
    with False "1.prems" show ?thesis by (auto simp: unf)
  next
    case True
    let ?toks = "tokens @ [mk_token T_Dedent [] l c]"
    from True "1.prems" have r: "final_dedents (tl stack) l c ?toks = (stack', toks')"
      by (simp add: unf)
    from True have ne: "tl stack \<noteq> []" by (cases stack) auto
    from True have "2 \<le> length stack" by simp
    then obtain n where n: "length stack = Suc (Suc n)"
      by (metis add_2_eq_Suc le_Suc_ex)
    then have lt: "length (tl stack) = Suc n" by simp
    have nest: "nesting 0 ?toks = Some (length (tl stack) - 1)"
      using "1.prems"(3) n lt by (simp add: nesting_append mk_token_def)
    have eof: "count_type T_Eof ?toks = 0"
      using "1.prems"(4) by (simp add: count_type_def mk_token_def)
    from "1.IH" [OF True r ne nest eof] show ?thesis .
  qed
qed

lemma lexer_inv_init: "lexer_inv (Lexer_init src) []"
  by (simp add: lexer_inv_def Lexer_init_def count_type_def)

lemma tokenize_shape:
  assumes "tokenize src = Inr toks"
  shows "\<exists>body eof. toks = body @ [eof] \<and> tok_type eof = T_Eof \<and>
           nesting 0 body = Some 0 \<and> count_type T_Eof body = 0"
proof -
  from assms obtain tokens lx where lp: "tokenize_loop (Lexer_init src) [] = Inr (tokens, lx)"
    by (auto simp: tokenize_def split: sum.splits)
  from tokenize_loop_inv [OF lp lexer_inv_init] have inv: "lexer_inv lx tokens" .
  define tokens1 where "tokens1 =
     (if tokens \<noteq> [] \<and> tok_type (last tokens) \<noteq> T_Newline
      then tokens @ [newline_token (line lx) (column lx)] else tokens)"
  have inv1: "lexer_inv lx tokens1"
    using inv by (auto simp: tokens1_def newline_token_def intro: lexer_inv_snoc_plain)
  obtain stack tokens2 where
    fd: "final_dedents (indent_stack lx) (line lx) (column lx) tokens1 = (stack, tokens2)"
    by (cases "final_dedents (indent_stack lx) (line lx) (column lx) tokens1")
  from inv1 have "indent_stack lx \<noteq> []"
    "nesting 0 tokens1 = Some (length (indent_stack lx) - 1)" "count_type T_Eof tokens1 = 0"
    by (simp_all add: lexer_inv_def)
  from final_dedents_inv [OF fd this]
  have r: "nesting 0 tokens2 = Some 0" "count_type T_Eof tokens2 = 0" by simp_all
  from assms lp fd have "toks = tokens2 @ [mk_token T_Eof [] (line lx) (column lx)]"
    by (simp add: tokenize_def Let_def tokens1_def)
  with r show ?thesis by (auto simp: mk_token_def)
qed

text \<open>
  C8. Whenever \<open>tokenize\<close> succeeds, the token stream has as many \<^verbatim>\<open>Indent\<close> as
  \<^verbatim>\<open>Dedent\<close> tokens; it ends with the only \<^verbatim>\<open>Eof\<close> token, and the tokens before
  it are well nested: every \<^verbatim>\<open>Dedent\<close> closes an earlier \<^verbatim>\<open>Indent\<close> and every
  \<^verbatim>\<open>Indent\<close> is closed before \<^verbatim>\<open>Eof\<close>.
\<close>

theorem tokenize_indent_dedent_balanced:
  assumes "tokenize src = Inr toks"
  shows "count_type T_Indent toks = count_type T_Dedent toks \<and>
         (\<exists>body eof. toks = body @ [eof] \<and> tok_type eof = T_Eof \<and>
            count_type T_Eof body = 0 \<and> nesting 0 body = Some 0)"
proof -
  from tokenize_shape [OF assms] obtain body eof where
    s: "toks = body @ [eof]" "tok_type eof = T_Eof" "nesting 0 body = Some 0"
       "count_type T_Eof body = 0"
    by blast
  from nesting_counts [OF s(3)] s(1,2)
  have "count_type T_Indent toks = count_type T_Dedent toks"
    by (simp add: count_type_def)
  with s show ?thesis by blast
qed

theorem tokenize_indent_dedent_balanced_witness:
  "\<exists>toks. tokenize ''if x:\<newline>  y\<newline>'' = Inr toks \<and>
          count_type T_Indent toks = 1 \<and> count_type T_Dedent toks = 1"
proof -
  let ?toks = "[mk_token T_If ''if'' 1 1, mk_token T_Identifier ''x'' 1 4,
      mk_token T_Colon '':'' 1 5, newline_token 1 6, mk_token T_Indent [] 2 1,
      mk_token T_Identifier ''y'' 2 3, newline_token 2 4, mk_token T_Dedent [] 3 1,
      mk_token T_Eof [] 3 1]"
  have e: "tokenize ''if x:\<newline>  y\<newline>'' = Inr ?toks"
    by code_simp
  have "count_type T_Indent ?toks = 1"
    by (simp add: count_type_def mk_token_def newline_token_def)
  with tokenize_indent_dedent_balanced [OF e] e show ?thesis
    by simp
qed

section \<open>The abstract syntax tree (ast.h)\<close>

text \<open>
  One constructor for each struct derived from \<^verbatim>\<open>ASTNode\<close>, with the fields in the order
  of the struct. The type parameter \<open>'f\<close> stands for the C++ type \<^verbatim>\<open>double\<close>. The
  source location \<^verbatim>\<open>loc\<close> of a node is left out: the evaluator only copies it into the
  \<^verbatim>\<open>line\<close> and \<^verbatim>\<open>column\<close> fields of the errors it throws. A \<^verbatim>\<open>ReturnStmt\<close> whose value
  pointer is null is \<open>ReturnStmt None\<close>; an \<^verbatim>\<open>ElifClause\<close> is a pair.
\<close>

datatype 'f ASTNode =
    NumberLiteral 'f
  | StringLiteral string
  | BoolLiteral bool
  | NoneLiteral
  | Identifier string
  | BinaryOp "'f ASTNode" TokenType "'f ASTNode"
  | UnaryOp TokenType "'f ASTNode"
  | Assignment "'f ASTNode" TokenType "'f ASTNode"
  | ListLiteral "'f ASTNode list"
  | DictLiteral "('f ASTNode \<times> 'f ASTNode) list"
  | IndexExpr "'f ASTNode" "'f ASTNode"
  | MemberAccess "'f ASTNode" string
  | FunctionCall "'f ASTNode" "'f ASTNode list"
  | ExpressionStmt "'f ASTNode"
  | Block "'f ASTNode list"
  | PassStmt
  | ReturnStmt "'f ASTNode option"
  | FnDef string "string list" "'f ASTNode list"
  | IfStmt "'f ASTNode" "'f ASTNode list" "('f ASTNode \<times> 'f ASTNode list) list"
      "'f ASTNode list"
  | ForStmt string "'f ASTNode" "'f ASTNode list"
  | WhileStmt "'f ASTNode" "'f ASTNode list"
  | ImportStmt "string list"
  | TryStmt "'f ASTNode list" string "'f ASTNode list" "'f ASTNode list"
  | ClassDef string "'f ASTNode list"
  | Program "'f ASTNode list"

section \<open>Values, environments and the interpreter state\<close>

type_synonym int64 = "64 word"

text \<open>
  The callables stored in \<^verbatim>\<open>builtin_val\<close>: the lambdas of \<^verbatim>\<open>register_builtins\<close> and the
  three closures made by \<^verbatim>\<open>eval_member\<close>, with what they capture. \<^verbatim>\<open>io.println\<close> is the
  same object as \<^verbatim>\<open>io.print\<close>.
\<close>

datatype Builtin =
    B_io_print | B_io_input
  | B_fs_read_all_bytes | B_fs_write_all_bytes | B_fs_read_text | B_fs_write_text
  | B_len | B_str | B_int | B_float | B_type | B_range | B_append | B_print
  | B_list_append nat | B_upper string | B_lower string

text \<open>
  A \<^verbatim>\<open>BoaValuePtr\<close>. Values of the types whose payload the interpreter mutates in place
  (\<^verbatim>\<open>List\<close>, \<^verbatim>\<open>Dict\<close>, \<^verbatim>\<open>Module\<close>) are addresses into the heaps of the state, so that
  two variables can share one list; the payloads of the other types are never written
  after \<^verbatim>\<open>make_...\<close>, and the value carries them. A function value holds the fields of
  \<^verbatim>\<open>BoaFunction\<close>: name, params, body and the address of the closure environment.
\<close>

datatype 'f BoaValue =
    VNone
  | VBool bool
  | VInt int64
  | VFloat 'f
  | VString string
  | VList nat
  | VDict nat
  | VFunction string "string list" "'f ASTNode list" nat
  | VBuiltin Builtin
  | VModule nat

record 'f Environment =
  parent :: "nat option"
  vars :: "string \<rightharpoonup> 'f BoaValue"

record 'f BoaModule =
  mod_name :: string
  members :: "string \<rightharpoonup> 'f BoaValue"

text \<open>
  What the interpreter throws and catches: \<^verbatim>\<open>BoaRuntimeError\<close> with its message, the
  control-flow exceptions, the errors of the lexer and the parser that an import or
  \<^verbatim>\<open>run\<close> lets through, and any other \<^verbatim>\<open>std::exception\<close>. \<open>Sigfpe\<close> is not an exception
  but the signal that the division instruction raises; no handler catches it, it ends
  the process.
\<close>

datatype 'f Thrown =
    BoaRuntimeError string
  | ReturnException "'f BoaValue"
  | BreakException
  | ContinueException
  | BoaException "'f BoaValue"
  | LexerFailure LexerError
  | ParseError string
  | StdException string
  | Sigfpe

text \<open>
  The private fields of \<^verbatim>\<open>class Interpreter\<close>, the heaps its shared pointers point into
  (an address is a natural number, \<open>..._next\<close> the next free one), and the part of
  the process environment the built-ins reach: standard output and input, and the files
  by path. \<open>writable\<close> says for which paths opening a \<^verbatim>\<open>std::ofstream\<close> succeeds.
\<close>

record 'f Interpreter =
  env_heap :: "nat \<Rightarrow> 'f Environment"
  env_next :: nat
  list_heap :: "nat \<Rightarrow> 'f BoaValue list"
  list_next :: nat
  dict_heap :: "nat \<Rightarrow> ('f BoaValue \<times> 'f BoaValue) list"
  dict_next :: nat
  module_heap :: "nat \<Rightarrow> 'f BoaModule"
  module_next :: nat
  global_env :: nat
  base_dir :: string
  current_file :: string
  module_cache :: "string \<rightharpoonup> 'f BoaValue"
  captured :: string
  capture_output :: bool
  std_cout :: string
  std_cin :: string
  files :: "string \<rightharpoonup> string"
  writable :: "string \<Rightarrow> bool"

text \<open>
  What the evaluator takes from outside this development: the arithmetic of the C++ type
  \<^verbatim>\<open>double\<close> and the library functions on it, and the parser (\<^verbatim>\<open>Parser::parse_program\<close>
  applied to the token vector), whose result is the statement list of the \<^verbatim>\<open>Program\<close>
  or what it throws.
\<close>

record 'f Platform =
  d_of_int :: "int64 \<Rightarrow> 'f"
  d_to_int :: "'f \<Rightarrow> int64"
  d_add :: "'f \<Rightarrow> 'f \<Rightarrow> 'f"
  d_sub :: "'f \<Rightarrow> 'f \<Rightarrow> 'f"
  d_mul :: "'f \<Rightarrow> 'f \<Rightarrow> 'f"
  d_div :: "'f \<Rightarrow> 'f \<Rightarrow> 'f"
  d_fmod :: "'f \<Rightarrow> 'f \<Rightarrow> 'f"
  d_pow :: "'f \<Rightarrow> 'f \<Rightarrow> 'f"
  d_neg :: "'f \<Rightarrow> 'f"
  d_eq :: "'f \<Rightarrow> 'f \<Rightarrow> bool"
  d_lt :: "'f \<Rightarrow> 'f \<Rightarrow> bool"
  d_show :: "'f \<Rightarrow> string"
  stod :: "string \<Rightarrow> 'f option"
  parse_program :: "Token list \<Rightarrow> 'f Thrown + 'f ASTNode list"

definition d_le :: "'f Platform \<Rightarrow> 'f \<Rightarrow> 'f \<Rightarrow> bool" where
  "d_le P a b = (d_lt P a b \<or> d_eq P a b)"

text \<open>
  The result of running a piece of the evaluator: a value and the state after it, a
  thrown exception and the state at the throw, or \<open>OutOfFuel\<close> when the bound on the
  recursion depth and the loop iterations was too small.
\<close>

datatype ('a, 'f) outcome =
    Normal 'a "'f Interpreter"
  | Throw "'f Thrown" "'f Interpreter"
  | OutOfFuel

definition seq :: "('a, 'f) outcome \<Rightarrow> ('a \<Rightarrow> 'f Interpreter \<Rightarrow> ('b, 'f) outcome)
    \<Rightarrow> ('b, 'f) outcome" where
  "seq m f = (case m of Normal v st \<Rightarrow> f v st | Throw e st \<Rightarrow> Throw e st
              | OutOfFuel \<Rightarrow> OutOfFuel)"

lemma seq_simps [simp]:
  "seq (Normal v st) f = f v st"
  "seq (Throw e st) f = Throw e st"
  "seq OutOfFuel f = OutOfFuel"
  by (simp_all add: seq_def)

definition throw_error :: "string \<Rightarrow> 'f Interpreter \<Rightarrow> ('a, 'f) outcome" where
  "throw_error msg st = Throw (BoaRuntimeError msg) st"

subsection \<open>class Environment\<close>

text \<open>
  An environment is built from an existing \<^verbatim>\<open>EnvPtr\<close> and its \<^verbatim>\<open>parent\<close> is never
  assigned again, so a parent's address is smaller than the child's. The walks up the
  chain state this as their guard; on a chain that breaks it they stop.
\<close>

function env_get :: "(nat \<Rightarrow> 'f Environment) \<Rightarrow> nat \<Rightarrow> string \<Rightarrow> 'f BoaValue option" where
  "env_get h e name =
     (case vars (h e) name of
        Some v \<Rightarrow> Some v
      | None \<Rightarrow> (case parent (h e) of
                   None \<Rightarrow> None
                 | Some p \<Rightarrow> if p < e then env_get h p name else None))"
  by pat_completeness auto
termination
  by (relation "measure (\<lambda>(h, e, name). e)") auto

declare env_get.simps [simp del]

text \<open>The loop of \<^verbatim>\<open>Environment::set\<close>: the first environment of the chain that binds
  the name.\<close>

function env_find :: "(nat \<Rightarrow> 'f Environment) \<Rightarrow> nat \<Rightarrow> string \<Rightarrow> nat option" where
  "env_find h e name =
     (if vars (h e) name \<noteq> None then Some e
      else (case parent (h e) of
              None \<Rightarrow> None
            | Some p \<Rightarrow> if p < e then env_find h p name else None))"
  by pat_completeness auto
termination
  by (relation "measure (\<lambda>(h, e, name). e)") auto

declare env_find.simps [simp del]

definition env_define :: "(nat \<Rightarrow> 'f Environment) \<Rightarrow> nat \<Rightarrow> string \<Rightarrow> 'f BoaValue
    \<Rightarrow> (nat \<Rightarrow> 'f Environment)" where
  "env_define h e name val = h(e := (h e)\<lparr>vars := (vars (h e))(name \<mapsto> val)\<rparr>)"

definition env_set :: "(nat \<Rightarrow> 'f Environment) \<Rightarrow> nat \<Rightarrow> string \<Rightarrow> 'f BoaValue
    \<Rightarrow> (nat \<Rightarrow> 'f Environment)" where
  "env_set h e name val =
     (case env_find h e name of
        Some owner \<Rightarrow> env_define h owner name val
      | None \<Rightarrow> env_define h e name val)"

text \<open>\<^verbatim>\<open>env->get(name)\<close>, \<^verbatim>\<open>env->set(name, val)\<close> and \<^verbatim>\<open>env->define(name, val)\<close> on the
  environment at address \<open>env\<close> of the state, and the allocations of
  \<^verbatim>\<open>std::make_shared\<close>.\<close>

definition get_var :: "'f Interpreter \<Rightarrow> nat \<Rightarrow> string \<Rightarrow> 'f BoaValue option" where
  "get_var st env name = env_get (env_heap st) env name"

definition set_var :: "nat \<Rightarrow> string \<Rightarrow> 'f BoaValue \<Rightarrow> 'f Interpreter \<Rightarrow> 'f Interpreter" where
  "set_var env name val st = st\<lparr>env_heap := env_set (env_heap st) env name val\<rparr>"

definition define_var :: "nat \<Rightarrow> string \<Rightarrow> 'f BoaValue \<Rightarrow> 'f Interpreter \<Rightarrow> 'f Interpreter" where
  "define_var env name val st = st\<lparr>env_heap := env_define (env_heap st) env name val\<rparr>"

definition new_env :: "nat option \<Rightarrow> 'f Interpreter \<Rightarrow> nat \<times> 'f Interpreter" where
  "new_env p st =
     (env_next st,
      st\<lparr>env_heap := (env_heap st)(env_next st := \<lparr>parent = p, vars = Map.empty\<rparr>),
         env_next := Suc (env_next st)\<rparr>)"

definition make_list :: "'f BoaValue list \<Rightarrow> 'f Interpreter \<Rightarrow> ('f BoaValue, 'f) outcome" where
  "make_list elems st =
     Normal (VList (list_next st))
       (st\<lparr>list_heap := (list_heap st)(list_next st := elems), list_next := Suc (list_next st)\<rparr>)"

definition make_dict :: "('f BoaValue \<times> 'f BoaValue) list \<Rightarrow> 'f Interpreter
    \<Rightarrow> ('f BoaValue, 'f) outcome" where
  "make_dict entries st =
     Normal (VDict (dict_next st))
       (st\<lparr>dict_heap := (dict_heap st)(dict_next st := entries), dict_next := Suc (dict_next st)\<rparr>)"

definition make_module :: "string \<Rightarrow> (string \<rightharpoonup> 'f BoaValue) \<Rightarrow> 'f Interpreter
    \<Rightarrow> 'f BoaValue \<times> 'f Interpreter" where
  "make_module name ms st =
     (VModule (module_next st),
      st\<lparr>module_heap := (module_heap st)(module_next st := \<lparr>mod_name = name, members = ms\<rparr>),
         module_next := Suc (module_next st)\<rparr>)"

subsection \<open>struct BoaValue\<close>

definition quoted :: "string \<Rightarrow> string" where
  "quoted s = [c_squote] @ s @ [c_squote]"

text \<open>\<^verbatim>\<open>value_type_name\<close> of the \<^verbatim>\<open>type\<close> tag of a value.\<close>

fun value_type_name :: "'f BoaValue \<Rightarrow> string" where
  "value_type_name VNone = ''none''"
| "value_type_name (VBool b) = ''bool''"
| "value_type_name (VInt i) = ''int''"
| "value_type_name (VFloat f) = ''float''"
| "value_type_name (VString s) = ''string''"
| "value_type_name (VList r) = ''list''"
| "value_type_name (VDict r) = ''dict''"
| "value_type_name (VFunction n ps b c) = ''function''"
| "value_type_name (VBuiltin b) = ''builtin_function''"
| "value_type_name (VModule r) = ''module''"

fun is_truthy :: "'f Platform \<Rightarrow> 'f Interpreter \<Rightarrow> 'f BoaValue \<Rightarrow> bool" where
  "is_truthy P st VNone = False"
| "is_truthy P st (VBool b) = b"
| "is_truthy P st (VInt i) = (i \<noteq> 0)"
| "is_truthy P st (VFloat f) = (\<not> d_eq P f (d_of_int P 0))"
| "is_truthy P st (VString s) = (s \<noteq> [])"
| "is_truthy P st (VList r) = (list_heap st r \<noteq> [])"
| "is_truthy P st (VDict r) = (dict_heap st r \<noteq> [])"
| "is_truthy P st v = True"

text \<open>\<^verbatim>\<open>std::to_string(int64_t)\<close>: the decimal digits, with a minus sign when negative.\<close>

definition digit_char :: "nat \<Rightarrow> char" where
  "digit_char d = char_of (48 + d)"

function show_nat :: "nat \<Rightarrow> string" where
  "show_nat n = (if n < 10 then [digit_char n] else show_nat (n div 10) @ [digit_char (n mod 10)])"
  by pat_completeness auto
termination
  by (relation "measure id") auto

declare show_nat.simps [simp del]

definition show_int :: "int \<Rightarrow> string" where
  "show_int i = (if i < 0 then ''-'' @ show_nat (nat (- i)) else show_nat (nat i))"

definition int64_to_string :: "int64 \<Rightarrow> string" where
  "int64_to_string w = show_int (sint w)"

text \<open>The separator of the loops of \<^verbatim>\<open>to_string\<close>: \<^verbatim>\<open>if (i > 0) s += ", "\<close>.\<close>

fun join :: "string \<Rightarrow> string list \<Rightarrow> string" where
  "join sep [] = []"
| "join sep [x] = x"
| "join sep (x # y # ys) = x @ sep @ join sep (y # ys)"

text \<open>
  \<^verbatim>\<open>BoaValue::to_string\<close>. The recursion follows the elements of a list or dict through
  the heap, and on a list that contains itself it does not end; the first argument
  bounds the nesting depth followed, and the result is \<open>None\<close> beyond it. A \<^verbatim>\<open>Float\<close>
  is written by \<^verbatim>\<open>operator<<\<close> of a default \<^verbatim>\<open>std::ostringstream\<close>.
\<close>

fun to_string :: "nat \<Rightarrow> 'f Platform \<Rightarrow> 'f Interpreter \<Rightarrow> 'f BoaValue \<Rightarrow> string option" where
  "to_string k P st VNone = Some ''none''"
| "to_string k P st (VBool b) = Some (if b then ''true'' else ''false'')"
| "to_string k P st (VInt i) = Some (int64_to_string i)"
| "to_string k P st (VFloat f) = Some (d_show P f)"
| "to_string k P st (VString s) = Some s"
| "to_string 0 P st (VList r) = None"
| "to_string (Suc k) P st (VList r) =
     map_option (\<lambda>parts. ''['' @ join '', '' parts @ '']'')
       (those (map (\<lambda>e. case e of
                          VString s \<Rightarrow> Some ([c_dquote] @ s @ [c_dquote])
                        | _ \<Rightarrow> to_string k P st e)
                 (list_heap st r)))"
| "to_string 0 P st (VDict r) = None"
| "to_string (Suc k) P st (VDict r) =
     map_option (\<lambda>parts. ''{'' @ join '', '' parts @ ''}'')
       (those (map (\<lambda>(a, b). case (to_string k P st a, to_string k P st b) of
                               (Some x, Some y) \<Rightarrow> Some (x @ '': '' @ y)
                             | _ \<Rightarrow> None)
                 (dict_heap st r)))"
| "to_string k P st (VFunction n ps b c) = Some (''<function '' @ n @ ''>'')"
| "to_string k P st (VBuiltin b) = Some ''<builtin_function>''"
| "to_string k P st (VModule r) = Some (''<module '' @ mod_name (module_heap st r) @ ''>'')"

text \<open>\<^verbatim>\<open>as_number\<close>: the value as a \<^verbatim>\<open>double\<close>, or the error it throws.\<close>

fun as_number :: "'f Platform \<Rightarrow> 'f BoaValue \<Rightarrow> string + 'f" where
  "as_number P (VInt i) = Inr (d_of_int P i)"
| "as_number P (VFloat f) = Inr f"
| "as_number P v = Inl (''Expected numeric value, got '' @ value_type_name v)"

definition with_number :: "'f Platform \<Rightarrow> 'f BoaValue \<Rightarrow> 'f Interpreter
    \<Rightarrow> ('f \<Rightarrow> ('a, 'f) outcome) \<Rightarrow> ('a, 'f) outcome" where
  "with_number P v st f = (case as_number P v of Inl msg \<Rightarrow> throw_error msg st | Inr d \<Rightarrow> f d)"

fun is_numeric :: "'f BoaValue \<Rightarrow> bool" where
  "is_numeric (VInt i) = True"
| "is_numeric (VFloat f) = True"
| "is_numeric v = False"

subsection \<open>Arithmetic helpers of the interpreter\<close>

text \<open>
  \<^verbatim>\<open>int64_t\<close> arithmetic is two's complement with wrap-around (what the compiled code
  does where C++ leaves signed overflow undefined); \<^verbatim>\<open>/\<close> and \<^verbatim>\<open>%\<close> truncate towards zero.
  The quotient of \<^verbatim>\<open>INT64_MIN\<close> by \<open>-1\<close> is not an \<^verbatim>\<open>int64_t\<close>: there the division
  instruction, which computes both \<^verbatim>\<open>/\<close> and \<^verbatim>\<open>%\<close>, raises \<^verbatim>\<open>SIGFPE\<close>, as it does for a
  zero divisor. \<open>int64_div\<close> and \<open>int64_mod\<close> are the results for the other operands.
\<close>

definition tdiv :: "int \<Rightarrow> int \<Rightarrow> int" where
  "tdiv a b = sgn a * sgn b * (\<bar>a\<bar> div \<bar>b\<bar>)"

definition tmod :: "int \<Rightarrow> int \<Rightarrow> int" where
  "tmod a b = a - b * tdiv a b"

definition int64_div :: "int64 \<Rightarrow> int64 \<Rightarrow> int64" where
  "int64_div a b = word_of_int (tdiv (sint a) (sint b))"

definition int64_mod :: "int64 \<Rightarrow> int64 \<Rightarrow> int64" where
  "int64_mod a b = word_of_int (tmod (sint a) (sint b))"

definition idiv_traps :: "int64 \<Rightarrow> int64 \<Rightarrow> bool" where
  "idiv_traps a b = (b = 0 \<or> (sint a = - (2 ^ 63) \<and> sint b = - 1))"

definition cannot :: "string \<Rightarrow> 'f BoaValue \<Rightarrow> 'f BoaValue \<Rightarrow> string" where
  "cannot what l r =
     ''Cannot '' @ what @ '' '' @ value_type_name l @ '' and '' @ value_type_name r"

fun add :: "'f Platform \<Rightarrow> 'f BoaValue \<Rightarrow> 'f BoaValue \<Rightarrow> 'f Interpreter
    \<Rightarrow> ('f BoaValue, 'f) outcome" where
  "add P (VString a) (VString b) st = Normal (VString (a @ b)) st"
| "add P (VList a) (VList b) st = make_list (list_heap st a @ list_heap st b) st"
| "add P (VInt a) (VInt b) st = Normal (VInt (a + b)) st"
| "add P l r st =
     (if is_numeric l \<and> is_numeric r
      then with_number P l st (\<lambda>x. with_number P r st (\<lambda>y. Normal (VFloat (d_add P x y)) st))
      else throw_error (cannot ''add'' l r) st)"

fun subtract :: "'f Platform \<Rightarrow> 'f BoaValue \<Rightarrow> 'f BoaValue \<Rightarrow> 'f Interpreter
    \<Rightarrow> ('f BoaValue, 'f) outcome" where
  "subtract P (VInt a) (VInt b) st = Normal (VInt (a - b)) st"
| "subtract P l r st =
     (if is_numeric l \<and> is_numeric r
      then with_number P l st (\<lambda>x. with_number P r st (\<lambda>y. Normal (VFloat (d_sub P x y)) st))
      else throw_error (cannot ''subtract'' l r) st)"

fun multiply :: "'f Platform \<Rightarrow> 'f BoaValue \<Rightarrow> 'f BoaValue \<Rightarrow> 'f Interpreter
    \<Rightarrow> ('f BoaValue, 'f) outcome" where
  "multiply P (VInt a) (VInt b) st = Normal (VInt (a * b)) st"
| "multiply P (VString s) (VInt n) st =
     Normal (VString (concat (replicate (nat (sint n)) s))) st"
| "multiply P l r st =
     (if is_numeric l \<and> is_numeric r
      then with_number P l st (\<lambda>x. with_number P r st (\<lambda>y. Normal (VFloat (d_mul P x y)) st))
      else throw_error (cannot ''multiply'' l r) st)"

definition both_int :: "'f BoaValue \<Rightarrow> 'f BoaValue \<Rightarrow> (int64 \<times> int64) option" where
  "both_int l r = (case (l, r) of (VInt a, VInt b) \<Rightarrow> Some (a, b) | _ \<Rightarrow> None)"

definition divide :: "'f Platform \<Rightarrow> 'f BoaValue \<Rightarrow> 'f BoaValue \<Rightarrow> 'f Interpreter
    \<Rightarrow> ('f BoaValue, 'f) outcome" where
  "divide P l r st =
     with_number P r st (\<lambda>y.
       if d_eq P y (d_of_int P 0) then throw_error ''Division by zero'' st
       else case both_int l r of
              Some (a, b) \<Rightarrow>
                if idiv_traps a b then Throw Sigfpe st else Normal (VInt (int64_div a b)) st
            | None \<Rightarrow> with_number P l st (\<lambda>x. Normal (VFloat (d_div P x y)) st))"

definition modulo :: "'f Platform \<Rightarrow> 'f BoaValue \<Rightarrow> 'f BoaValue \<Rightarrow> 'f Interpreter
    \<Rightarrow> ('f BoaValue, 'f) outcome" where
  "modulo P l r st =
     (case both_int l r of
        Some (a, b) \<Rightarrow>
          if b = 0 then throw_error ''Modulo by zero'' st
          else if idiv_traps a b then Throw Sigfpe st
          else Normal (VInt (int64_mod a b)) st
      | None \<Rightarrow>
          with_number P r st (\<lambda>y.
            if d_eq P y (d_of_int P 0) then throw_error ''Modulo by zero'' st
            else with_number P l st (\<lambda>x. Normal (VFloat (d_fmod P x y)) st)))"

text \<open>
  The loop of \<^verbatim>\<open>power\<close>: binary exponentiation on \<^verbatim>\<open>int64_t\<close>, entered with a
  non-negative exponent.
\<close>

lemma sint_int64_div_2: "0 < sint (e :: int64) \<Longrightarrow> sint (int64_div e 2) = sint e div 2"
proof -
  assume pos: "0 < sint e"
  have lt: "sint e < 2 ^ 63" using sint_lt [of e] by simp
  have "tdiv (sint e) (sint (2 :: int64)) = sint e div 2"
    using pos by (simp add: tdiv_def)
  moreover have "sint (word_of_int (sint e div 2) :: int64) = sint e div 2"
    using pos lt by (simp add: sint_sbintrunc' signed_take_bit_int_eq_self)
  ultimately show ?thesis by (simp add: int64_div_def)
qed

function power_loop :: "int64 \<Rightarrow> int64 \<Rightarrow> int64 \<Rightarrow> int64" where
  "power_loop result base ex =
     (if 0 <s ex
      then power_loop (if int64_mod ex 2 = 1 then result * base else result)
             (base * base) (int64_div ex 2)
      else result)"
  by pat_completeness auto
termination
proof (relation "measure (\<lambda>(result, base, ex). nat (sint ex))")
  show "wf (measure (\<lambda>(result, base, ex). nat (sint ex)))" by simp
next
  fix result base ex :: int64
  assume "0 <s ex"
  then have pos: "0 < sint ex" by (simp add: word_sless_alt)
  from sint_int64_div_2 [OF pos] pos
  show "((if int64_mod ex 2 = 1 then result * base else result, base * base, int64_div ex 2),
         result, base, ex) \<in> measure (\<lambda>(result, base, ex). nat (sint ex))"
    by simp
qed

declare power_loop.simps [simp del]

fun power :: "'f Platform \<Rightarrow> 'f BoaValue \<Rightarrow> 'f BoaValue \<Rightarrow> 'f Interpreter
    \<Rightarrow> ('f BoaValue, 'f) outcome" where
  "power P (VInt a) (VInt b) st =
     (if 0 \<le>s b then Normal (VInt (power_loop 1 a b)) st
      else Normal (VFloat (d_pow P (d_of_int P a) (d_of_int P b))) st)"
| "power P l r st =
     (if is_numeric l \<and> is_numeric r
      then with_number P l st (\<lambda>x. with_number P r st (\<lambda>y. Normal (VFloat (d_pow P x y)) st))
      else throw_error (''Cannot exponentiate '' @ value_type_name l) st)"

fun values_equal :: "'f Platform \<Rightarrow> 'f BoaValue \<Rightarrow> 'f BoaValue \<Rightarrow> bool" where
  "values_equal P VNone VNone = True"
| "values_equal P (VBool a) (VBool b) = (a = b)"
| "values_equal P (VInt a) (VInt b) = (a = b)"
| "values_equal P (VFloat a) (VFloat b) = d_eq P a b"
| "values_equal P (VInt a) (VFloat b) = d_eq P (d_of_int P a) b"
| "values_equal P (VFloat a) (VInt b) = d_eq P a (d_of_int P b)"
| "values_equal P (VString a) (VString b) = (a = b)"
| "values_equal P a b = False"

text \<open>\<^verbatim>\<open>std::string::compare\<close>: the bytes as unsigned characters, then the lengths.\<close>

fun string_compare :: "string \<Rightarrow> string \<Rightarrow> int" where
  "string_compare [] [] = 0"
| "string_compare [] (y # ys) = -1"
| "string_compare (x # xs) [] = 1"
| "string_compare (x # xs) (y # ys) =
     (if (of_char x :: nat) < of_char y then -1
      else if (of_char y :: nat) < of_char x then 1
      else string_compare xs ys)"

fun compare :: "'f Platform \<Rightarrow> 'f BoaValue \<Rightarrow> 'f BoaValue \<Rightarrow> string + int" where
  "compare P (VString a) (VString b) = Inr (string_compare a b)"
| "compare P a b =
     (case (as_number P a, as_number P b) of
        (Inr av, Inr bv) \<Rightarrow> Inr (if d_lt P av bv then -1 else if d_lt P bv av then 1 else 0)
      | _ \<Rightarrow> Inl (''Cannot compare '' @ value_type_name a @ '' and '' @ value_type_name b))"

definition comparison :: "'f Platform \<Rightarrow> (int \<Rightarrow> bool) \<Rightarrow> 'f BoaValue \<Rightarrow> 'f BoaValue
    \<Rightarrow> 'f Interpreter \<Rightarrow> ('f BoaValue, 'f) outcome" where
  "comparison P test l r st =
     (case compare P l r of
        Inl msg \<Rightarrow> throw_error msg st
      | Inr c \<Rightarrow> Normal (VBool (test c)) st)"

subsection \<open>Built-in functions\<close>

definition print_output :: "string \<Rightarrow> 'f Interpreter \<Rightarrow> 'f Interpreter" where
  "print_output s st =
     (if capture_output st then st\<lparr>captured := captured st @ s\<rparr>
      else st\<lparr>std_cout := std_cout st @ s\<rparr>)"

text \<open>The loop of \<^verbatim>\<open>print\<close>: each argument's string form, a space before all but the
  first.\<close>

fun print_args :: "nat \<Rightarrow> 'f Platform \<Rightarrow> bool \<Rightarrow> 'f BoaValue list \<Rightarrow> 'f Interpreter
    \<Rightarrow> (unit, 'f) outcome" where
  "print_args k P first [] st = Normal () st"
| "print_args k P first (a # as) st =
     (let st1 = (if first then st else print_output '' '' st) in
      case to_string k P st1 a of
        None \<Rightarrow> OutOfFuel
      | Some s \<Rightarrow> print_args k P False as (print_output s st1))"

definition builtin_print :: "nat \<Rightarrow> 'f Platform \<Rightarrow> 'f BoaValue list \<Rightarrow> 'f Interpreter
    \<Rightarrow> ('f BoaValue, 'f) outcome" where
  "builtin_print k P args st =
     seq (print_args k P True args st) (\<lambda>u st'. Normal VNone (print_output [c_nl] st'))"

text \<open>\<^verbatim>\<open>std::getline(std::cin, line)\<close>: the characters up to the next newline, which is
  consumed.\<close>

definition getline :: "string \<Rightarrow> string \<times> string" where
  "getline inp = (takeWhile (\<lambda>c. c \<noteq> c_nl) inp, drop 1 (dropWhile (\<lambda>c. c \<noteq> c_nl) inp))"

text \<open>The \<^verbatim>\<open>string_val\<close> field of a value: empty unless the value is a string.\<close>

fun string_val :: "'f BoaValue \<Rightarrow> string" where
  "string_val (VString s) = s"
| "string_val v = []"

fun is_string :: "'f BoaValue \<Rightarrow> bool" where
  "is_string (VString s) = True"
| "is_string v = False"

definition read_file :: "string \<Rightarrow> string \<Rightarrow> 'f Interpreter \<Rightarrow> ('f BoaValue, 'f) outcome" where
  "read_file who path st =
     (case files st path of
        None \<Rightarrow> throw_error (who @ '': cannot open file '' @ quoted path) st
      | Some content \<Rightarrow> Normal (VString content) st)"

definition write_file :: "nat \<Rightarrow> 'f Platform \<Rightarrow> string \<Rightarrow> string \<Rightarrow> 'f BoaValue
    \<Rightarrow> 'f Interpreter \<Rightarrow> ('f BoaValue, 'f) outcome" where
  "write_file k P who path data st =
     (if \<not> writable st path
      then throw_error (who @ '': cannot open file '' @ quoted path) st
      else case to_string k P st data of
             None \<Rightarrow> OutOfFuel
           | Some s \<Rightarrow> Normal VNone (st\<lparr>files := (files st)(path \<mapsto> s)\<rparr>))"

text \<open>
  \<^verbatim>\<open>std::stoll\<close> in base 10: leading white space, an optional sign, then the longest
  run of digits; it throws when there is no digit or the number does not fit
  \<^verbatim>\<open>long long\<close> (\<open>None\<close>). What follows the digits is ignored.
\<close>

definition isspace :: "char \<Rightarrow> bool" where
  "isspace c = (c = CHR '' '' \<or> (9 \<le> (of_char c :: nat) \<and> (of_char c :: nat) \<le> 13))"

definition digit_val :: "char \<Rightarrow> int" where
  "digit_val c = int (of_char c) - 48"

definition digits_value :: "string \<Rightarrow> int" where
  "digits_value ds = foldl (\<lambda>a c. 10 * a + digit_val c) 0 ds"

definition stoll :: "string \<Rightarrow> int64 option" where
  "stoll s =
     (let s1 = dropWhile isspace s;
          (neg, s2) = (case s1 of
                         c # r \<Rightarrow> if c = CHR ''-'' then (True, r)
                                  else if c = CHR ''+'' then (False, r) else (False, s1)
                       | [] \<Rightarrow> (False, s1));
          ds = takeWhile isdigit s2
      in if ds = [] then None
         else let n = (if neg then - digits_value ds else digits_value ds)
              in if - (2 ^ 63) \<le> n \<and> n < 2 ^ 63 then Some (word_of_int n) else None)"

text \<open>\<^verbatim>\<open>toupper\<close> and \<^verbatim>\<open>tolower\<close> in the C locale.\<close>

definition toupper :: "char \<Rightarrow> char" where
  "toupper c = (if 97 \<le> (of_char c :: nat) \<and> (of_char c :: nat) \<le> 122
                then char_of ((of_char c :: nat) - 32) else c)"

definition tolower :: "char \<Rightarrow> char" where
  "tolower c = (if 65 \<le> (of_char c :: nat) \<and> (of_char c :: nat) \<le> 90
                then char_of ((of_char c :: nat) + 32) else c)"

text \<open>
  The two loops of \<^verbatim>\<open>range\<close>. The counter is an \<^verbatim>\<open>int64_t\<close> and wraps around, so a loop
  need not end; the first argument bounds the iterations.
\<close>

fun range_loop :: "nat \<Rightarrow> bool \<Rightarrow> int64 \<Rightarrow> int64 \<Rightarrow> int64 \<Rightarrow> 'f BoaValue list
    \<Rightarrow> 'f BoaValue list option" where
  "range_loop 0 up i stop step acc = None"
| "range_loop (Suc k) up i stop step acc =
     (if (if up then i <s stop else stop <s i)
      then range_loop k up (i + step) stop step (acc @ [VInt i])
      else Some acc)"

definition to_int64 :: "'f Platform \<Rightarrow> 'f BoaValue \<Rightarrow> 'f Interpreter
    \<Rightarrow> (int64 \<Rightarrow> ('a, 'f) outcome) \<Rightarrow> ('a, 'f) outcome" where
  "to_int64 P v st f = with_number P v st (\<lambda>d. f (d_to_int P d))"

definition range_from :: "nat \<Rightarrow> int64 \<Rightarrow> int64 \<Rightarrow> int64 \<Rightarrow> 'f Interpreter
    \<Rightarrow> ('f BoaValue, 'f) outcome" where
  "range_from k start stop step st =
     (if step = 0 then throw_error ''range: step cannot be zero'' st
      else case range_loop k (0 <s step) start stop step [] of
             None \<Rightarrow> OutOfFuel
           | Some elems \<Rightarrow> make_list elems st)"

definition builtin_range :: "nat \<Rightarrow> 'f Platform \<Rightarrow> 'f BoaValue list \<Rightarrow> 'f Interpreter
    \<Rightarrow> ('f BoaValue, 'f) outcome" where
  "builtin_range k P args st =
     (case args of
        [a] \<Rightarrow> to_int64 P a st (\<lambda>stop. range_from k 0 stop 1 st)
      | [a, b] \<Rightarrow> to_int64 P a st (\<lambda>start. to_int64 P b st (\<lambda>stop.
                    range_from k start stop 1 st))
      | [a, b, c] \<Rightarrow> to_int64 P a st (\<lambda>start. to_int64 P b st (\<lambda>stop.
                       to_int64 P c st (\<lambda>step. range_from k start stop step st)))
      | _ \<Rightarrow> throw_error ''range: expected 1-3 arguments'' st)"

definition push_back :: "nat \<Rightarrow> 'f BoaValue \<Rightarrow> 'f Interpreter \<Rightarrow> 'f Interpreter" where
  "push_back r v st = st\<lparr>list_heap := (list_heap st)(r := list_heap st r @ [v])\<rparr>"

definition size_of :: "'a list \<Rightarrow> int64" where
  "size_of xs = of_nat (length xs)"

text \<open>
  \<^verbatim>\<open>callee->builtin_val(args)\<close>: the bodies of the lambdas, in the order of
  \<^verbatim>\<open>register_builtins\<close>, then the closures of \<^verbatim>\<open>eval_member\<close>.
\<close>

fun call_builtin :: "nat \<Rightarrow> 'f Platform \<Rightarrow> Builtin \<Rightarrow> 'f BoaValue list \<Rightarrow> 'f Interpreter
    \<Rightarrow> ('f BoaValue, 'f) outcome" where
  "call_builtin k P B_io_print args st = builtin_print k P args st"
| "call_builtin k P B_io_input args st =
     (case (case args of
              [] \<Rightarrow> Some st
            | a # as \<Rightarrow> map_option (\<lambda>s. print_output s st) (to_string k P st a)) of
        None \<Rightarrow> OutOfFuel
      | Some st1 \<Rightarrow>
          Normal (VString (fst (getline (std_cin st1))))
            (st1\<lparr>std_cin := snd (getline (std_cin st1))\<rparr>))"
| "call_builtin k P B_fs_read_all_bytes args st =
     (if args = [] \<or> \<not> is_string (hd args)
      then throw_error ''fs.read_all_bytes: expected string argument'' st
      else read_file ''fs.read_all_bytes'' (string_val (hd args)) st)"
| "call_builtin k P B_fs_write_all_bytes args st =
     (if length args < 2 \<or> \<not> is_string (hd args)
      then throw_error ''fs.write_all_bytes: expected (filename, data)'' st
      else write_file k P ''fs.write_all_bytes'' (string_val (hd args)) (args ! 1) st)"
| "call_builtin k P B_fs_read_text args st =
     (if args = [] \<or> \<not> is_string (hd args)
      then throw_error ''fs.read_text: expected string argument'' st
      else read_file ''fs.read_text'' (string_val (hd args)) st)"
| "call_builtin k P B_fs_write_text args st =
     (if length args < 2
      then throw_error ''fs.write_text: expected (filename, text)'' st
      else write_file k P ''fs.write_text'' (string_val (hd args)) (args ! 1) st)"
| "call_builtin k P B_len args st =
     (case args of
        [a] \<Rightarrow> (case a of
                  VString s \<Rightarrow> Normal (VInt (size_of s)) st
                | VList r \<Rightarrow> Normal (VInt (size_of (list_heap st r))) st
                | VDict r \<Rightarrow> Normal (VInt (size_of (dict_heap st r))) st
                | _ \<Rightarrow> throw_error (''len: unsupported type '' @ value_type_name a) st)
      | _ \<Rightarrow> throw_error ''len: expected 1 argument'' st)"
| "call_builtin k P B_str args st =
     (case args of
        [a] \<Rightarrow> (case to_string k P st a of
                  None \<Rightarrow> OutOfFuel
                | Some s \<Rightarrow> Normal (VString s) st)
      | _ \<Rightarrow> throw_error ''str: expected 1 argument'' st)"
| "call_builtin k P B_int args st =
     (case args of
        [a] \<Rightarrow> (case a of
                  VInt i \<Rightarrow> Normal a st
                | VFloat f \<Rightarrow> Normal (VInt (d_to_int P f)) st
                | VString s \<Rightarrow>
                    (case stoll s of
                       Some i \<Rightarrow> Normal (VInt i) st
                     | None \<Rightarrow> throw_error (''int: cannot convert '' @ quoted s @ '' to int'') st)
                | VBool b \<Rightarrow> Normal (VInt (if b then 1 else 0)) st
                | _ \<Rightarrow> throw_error (''int: unsupported type '' @ value_type_name a) st)
      | _ \<Rightarrow> throw_error ''int: expected 1 argument'' st)"
| "call_builtin k P B_float args st =
     (case args of
        [a] \<Rightarrow> (case a of
                  VFloat f \<Rightarrow> Normal a st
                | VInt i \<Rightarrow> Normal (VFloat (d_of_int P i)) st
                | VString s \<Rightarrow>
                    (case stod P s of
                       Some d \<Rightarrow> Normal (VFloat d) st
                     | None \<Rightarrow> throw_error (''float: cannot convert '' @ quoted s @ '' to float'') st)
                | VBool b \<Rightarrow> Normal (VFloat (d_of_int P (if b then 1 else 0))) st
                | _ \<Rightarrow> throw_error (''float: unsupported type '' @ value_type_name a) st)
      | _ \<Rightarrow> throw_error ''float: expected 1 argument'' st)"
| "call_builtin k P B_type args st =
     (case args of
        [a] \<Rightarrow> Normal (VString (value_type_name a)) st
      | _ \<Rightarrow> throw_error ''type: expected 1 argument'' st)"
| "call_builtin k P B_range args st = builtin_range k P args st"
| "call_builtin k P B_append args st =
     (case args of
        [a, b] \<Rightarrow> (case a of
                     VList r \<Rightarrow> Normal VNone (push_back r b st)
                   | _ \<Rightarrow> throw_error ''append: first argument must be a list'' st)
      | _ \<Rightarrow> throw_error ''append: expected 2 arguments (list, value)'' st)"
| "call_builtin k P B_print args st = builtin_print k P args st"
| "call_builtin k P (B_list_append r) args st =
     (case args of
        [a] \<Rightarrow> Normal VNone (push_back r a st)
      | _ \<Rightarrow> throw_error ''append: expected 1 argument'' st)"
| "call_builtin k P (B_upper s) args st = Normal (VString (map toupper s)) st"
| "call_builtin k P (B_lower s) args st = Normal (VString (map tolower s)) st"

section \<open>The evaluator (class Interpreter)\<close>

text \<open>
  \<^verbatim>\<open>eval\<close> and the functions it dispatches to call each other. Each of them is defined
  here with the evaluator it calls back as its argument \<open>ev\<close>; \<open>eval\<close> below ties the
  knot, with a bound on the depth of the calls.
\<close>

type_synonym 'f evaluator = "'f ASTNode \<Rightarrow> nat \<Rightarrow> 'f Interpreter \<Rightarrow> ('f BoaValue, 'f) outcome"

fun exec_from :: "'f evaluator \<Rightarrow> 'f BoaValue \<Rightarrow> 'f ASTNode list \<Rightarrow> nat \<Rightarrow> 'f Interpreter
    \<Rightarrow> ('f BoaValue, 'f) outcome" where
  "exec_from ev result [] env st = Normal result st"
| "exec_from ev result (stmt # stmts) env st =
     seq (ev stmt env st) (\<lambda>r st'. exec_from ev r stmts env st')"

text \<open>\<^verbatim>\<open>exec_body\<close> (and \<^verbatim>\<open>exec_body_raw\<close>, the same loop over raw pointers).\<close>

definition exec_body :: "'f evaluator \<Rightarrow> 'f ASTNode list \<Rightarrow> nat \<Rightarrow> 'f Interpreter
    \<Rightarrow> ('f BoaValue, 'f) outcome" where
  "exec_body ev stmts env st = exec_from ev VNone stmts env st"

text \<open>
  \<^verbatim>\<open>eval_number\<close>. The literals \<^verbatim>\<open>9e18\<close> and \<^verbatim>\<open>-9e18\<close> are the doubles of the integers
  \<open>9 * 10^18\<close> and its negation, which \<^verbatim>\<open>double\<close> represents exactly.
\<close>

definition eval_number :: "'f Platform \<Rightarrow> 'f \<Rightarrow> 'f BoaValue" where
  "eval_number P v =
     (if d_eq P v (d_of_int P (d_to_int P v)) \<and>
         d_le P (d_of_int P (- 9000000000000000000)) v \<and>
         d_le P v (d_of_int P 9000000000000000000)
      then VInt (d_to_int P v)
      else VFloat v)"

definition eval_identifier :: "string \<Rightarrow> nat \<Rightarrow> 'f Interpreter \<Rightarrow> ('f BoaValue, 'f) outcome" where
  "eval_identifier name env st =
     (case get_var st env name of
        None \<Rightarrow> throw_error (''Undefined variable '' @ quoted name) st
      | Some val \<Rightarrow> Normal val st)"

definition binary_op :: "'f Platform \<Rightarrow> TokenType \<Rightarrow> 'f BoaValue \<Rightarrow> 'f BoaValue
    \<Rightarrow> 'f Interpreter \<Rightarrow> ('f BoaValue, 'f) outcome" where
  "binary_op P op left right st =
     (case op of
        T_Plus \<Rightarrow> add P left right st
      | T_Minus \<Rightarrow> subtract P left right st
      | T_Star \<Rightarrow> multiply P left right st
      | T_Slash \<Rightarrow> divide P left right st
      | T_Percent \<Rightarrow> modulo P left right st
      | T_DoubleStar \<Rightarrow> power P left right st
      | T_EqEq \<Rightarrow> Normal (VBool (values_equal P left right)) st
      | T_BangEq \<Rightarrow> Normal (VBool (\<not> values_equal P left right)) st
      | T_Less \<Rightarrow> comparison P (\<lambda>c. c < 0) left right st
      | T_LessEq \<Rightarrow> comparison P (\<lambda>c. c \<le> 0) left right st
      | T_Greater \<Rightarrow> comparison P (\<lambda>c. c > 0) left right st
      | T_GreaterEq \<Rightarrow> comparison P (\<lambda>c. c \<ge> 0) left right st
      | T_And \<Rightarrow> Normal (if is_truthy P st left then right else left) st
      | T_Or \<Rightarrow> Normal (if is_truthy P st left then left else right) st
      | _ \<Rightarrow> throw_error ''Unknown binary operator'' st)"

text \<open>\<^verbatim>\<open>eval_binary\<close>: both operands are evaluated, the left one first, before the
  \<^verbatim>\<open>switch\<close> on the operator.\<close>

definition eval_binary :: "'f Platform \<Rightarrow> 'f evaluator \<Rightarrow> 'f ASTNode \<Rightarrow> TokenType \<Rightarrow> 'f ASTNode
    \<Rightarrow> nat \<Rightarrow> 'f Interpreter \<Rightarrow> ('f BoaValue, 'f) outcome" where
  "eval_binary P ev left op right env st =
     seq (ev left env st) (\<lambda>l st1.
       seq (ev right env st1) (\<lambda>r st2. binary_op P op l r st2))"

definition eval_unary :: "'f Platform \<Rightarrow> 'f evaluator \<Rightarrow> TokenType \<Rightarrow> 'f ASTNode
    \<Rightarrow> nat \<Rightarrow> 'f Interpreter \<Rightarrow> ('f BoaValue, 'f) outcome" where
  "eval_unary P ev op operand env st =
     seq (ev operand env st) (\<lambda>val st1.
       case op of
         T_Minus \<Rightarrow> (case val of
                       VInt i \<Rightarrow> Normal (VInt (- i)) st1
                     | VFloat f \<Rightarrow> Normal (VFloat (d_neg P f)) st1
                     | _ \<Rightarrow> throw_error (''Cannot negate '' @ value_type_name val) st1)
       | T_Plus \<Rightarrow> (if is_numeric val then Normal val st1
                     else throw_error (''Cannot apply unary + to '' @ value_type_name val) st1)
       | T_Not \<Rightarrow> Normal (VBool (\<not> is_truthy P st1 val)) st1
       | _ \<Rightarrow> throw_error ''Unknown unary operator'' st1)"

text \<open>
  The index arithmetic shared by \<^verbatim>\<open>eval_index\<close> and \<^verbatim>\<open>eval_assignment\<close>: the index is
  cast to \<^verbatim>\<open>int64_t\<close>, a negative one counts from the end, and the result is the
  position or \<open>None\<close> when it is out of range.
\<close>

definition norm_index :: "int64 \<Rightarrow> int64 \<Rightarrow> nat option" where
  "norm_index i sz =
     (let j = (if i <s 0 then i + sz else i)
      in if j <s 0 \<or> sz \<le>s j then None else Some (unat j))"

fun dict_find :: "'f Platform \<Rightarrow> 'f BoaValue \<Rightarrow> ('f BoaValue \<times> 'f BoaValue) list
    \<Rightarrow> 'f BoaValue option" where
  "dict_find P idx [] = None"
| "dict_find P idx ((key, v) # rest) =
     (if values_equal P key idx then Some v else dict_find P idx rest)"

fun dict_store :: "'f Platform \<Rightarrow> 'f BoaValue \<Rightarrow> 'f BoaValue \<Rightarrow> ('f BoaValue \<times> 'f BoaValue) list
    \<Rightarrow> ('f BoaValue \<times> 'f BoaValue) list" where
  "dict_store P idx val [] = [(idx, val)]"
| "dict_store P idx val ((key, v) # rest) =
     (if values_equal P key idx then (key, val) # rest
      else (key, v) # dict_store P idx val rest)"

text \<open>The part of \<^verbatim>\<open>eval_assignment\<close> for an \<^verbatim>\<open>IndexExpr\<close> target, once object and
  index are evaluated. The operator of the assignment is not looked at.\<close>

definition assign_index :: "'f Platform \<Rightarrow> 'f BoaValue \<Rightarrow> 'f BoaValue \<Rightarrow> 'f BoaValue
    \<Rightarrow> 'f Interpreter \<Rightarrow> ('f BoaValue, 'f) outcome" where
  "assign_index P obj index val st =
     (case obj of
        VList r \<Rightarrow>
          to_int64 P index st (\<lambda>i.
            case norm_index i (size_of (list_heap st r)) of
              None \<Rightarrow> throw_error ''Index out of range'' st
            | Some j \<Rightarrow>
                Normal val (st\<lparr>list_heap := (list_heap st)(r := (list_heap st r)[j := val])\<rparr>))
      | VDict r \<Rightarrow>
          Normal val (st\<lparr>dict_heap := (dict_heap st)(r := dict_store P index val (dict_heap st r))\<rparr>)
      | _ \<Rightarrow> throw_error (''Cannot index '' @ value_type_name obj) st)"

definition assign_member :: "'f BoaValue \<Rightarrow> string \<Rightarrow> 'f BoaValue
    \<Rightarrow> 'f Interpreter \<Rightarrow> ('f BoaValue, 'f) outcome" where
  "assign_member obj member val st =
     (case obj of
        VModule r \<Rightarrow>
          Normal val
            (st\<lparr>module_heap := (module_heap st)
                   (r := (module_heap st r)\<lparr>members := (members (module_heap st r))(member \<mapsto> val)\<rparr>)\<rparr>)
      | _ \<Rightarrow> throw_error (''Cannot set member on '' @ value_type_name obj) st)"

definition compound_op :: "'f Platform \<Rightarrow> TokenType \<Rightarrow> 'f BoaValue \<Rightarrow> 'f BoaValue
    \<Rightarrow> 'f Interpreter \<Rightarrow> ('f BoaValue, 'f) outcome" where
  "compound_op P op existing val st =
     (case op of
        T_PlusEq \<Rightarrow> add P existing val st
      | T_MinusEq \<Rightarrow> subtract P existing val st
      | T_StarEq \<Rightarrow> multiply P existing val st
      | T_SlashEq \<Rightarrow> divide P existing val st
      | _ \<Rightarrow> throw_error ''Unknown assignment operator'' st)"

definition eval_assignment :: "'f Platform \<Rightarrow> 'f evaluator \<Rightarrow> 'f ASTNode \<Rightarrow> TokenType
    \<Rightarrow> 'f ASTNode \<Rightarrow> nat \<Rightarrow> 'f Interpreter \<Rightarrow> ('f BoaValue, 'f) outcome" where
  "eval_assignment P ev target op rhs env st =
     seq (ev rhs env st) (\<lambda>val st1.
       case target of
         Identifier name \<Rightarrow>
           if op = T_Eq then Normal val (set_var env name val st1)
           else (case get_var st1 env name of
                   None \<Rightarrow> throw_error (''Undefined variable '' @ quoted name) st1
                 | Some existing \<Rightarrow>
                     seq (compound_op P op existing val st1) (\<lambda>result st2.
                       Normal val (set_var env name result st2)))
       | IndexExpr object index \<Rightarrow>
           seq (ev object env st1) (\<lambda>obj st2.
             seq (ev index env st2) (\<lambda>idx st3. assign_index P obj idx val st3))
       | MemberAccess object member \<Rightarrow>
           seq (ev object env st1) (\<lambda>obj st2. assign_member obj member val st2)
       | _ \<Rightarrow> throw_error ''Invalid assignment target'' st1)"

fun eval_all :: "'f evaluator \<Rightarrow> 'f ASTNode list \<Rightarrow> nat \<Rightarrow> 'f Interpreter
    \<Rightarrow> ('f BoaValue list, 'f) outcome" where
  "eval_all ev [] env st = Normal [] st"
| "eval_all ev (e # es) env st =
     seq (ev e env st) (\<lambda>v st1. seq (eval_all ev es env st1) (\<lambda>vs st2. Normal (v # vs) st2))"

definition eval_list :: "'f evaluator \<Rightarrow> 'f ASTNode list \<Rightarrow> nat \<Rightarrow> 'f Interpreter
    \<Rightarrow> ('f BoaValue, 'f) outcome" where
  "eval_list ev elements env st = seq (eval_all ev elements env st) make_list"

fun eval_entries :: "'f evaluator \<Rightarrow> ('f ASTNode \<times> 'f ASTNode) list \<Rightarrow> nat \<Rightarrow> 'f Interpreter
    \<Rightarrow> (('f BoaValue \<times> 'f BoaValue) list, 'f) outcome" where
  "eval_entries ev [] env st = Normal [] st"
| "eval_entries ev ((a, b) # es) env st =
     seq (ev a env st) (\<lambda>x st1. seq (ev b env st1) (\<lambda>y st2.
       seq (eval_entries ev es env st2) (\<lambda>xs st3. Normal ((x, y) # xs) st3)))"

definition eval_dict :: "'f evaluator \<Rightarrow> ('f ASTNode \<times> 'f ASTNode) list \<Rightarrow> nat \<Rightarrow> 'f Interpreter
    \<Rightarrow> ('f BoaValue, 'f) outcome" where
  "eval_dict ev entries env st = seq (eval_entries ev entries env st) make_dict"

definition index_value :: "'f Platform \<Rightarrow> 'f BoaValue \<Rightarrow> 'f BoaValue
    \<Rightarrow> 'f Interpreter \<Rightarrow> ('f BoaValue, 'f) outcome" where
  "index_value P obj index st =
     (case obj of
        VList r \<Rightarrow>
          to_int64 P index st (\<lambda>i.
            case norm_index i (size_of (list_heap st r)) of
              None \<Rightarrow> throw_error ''Index out of range'' st
            | Some j \<Rightarrow> Normal (list_heap st r ! j) st)
      | VString s \<Rightarrow>
          to_int64 P index st (\<lambda>i.
            case norm_index i (size_of s) of
              None \<Rightarrow> throw_error ''String index out of range'' st
            | Some j \<Rightarrow> Normal (VString [s ! j]) st)
      | VDict r \<Rightarrow>
          (case dict_find P index (dict_heap st r) of
             Some v \<Rightarrow> Normal v st
           | None \<Rightarrow> throw_error ''Key not found in dict'' st)
      | _ \<Rightarrow> throw_error (''Cannot index '' @ value_type_name obj) st)"

definition eval_index :: "'f Platform \<Rightarrow> 'f evaluator \<Rightarrow> 'f ASTNode \<Rightarrow> 'f ASTNode
    \<Rightarrow> nat \<Rightarrow> 'f Interpreter \<Rightarrow> ('f BoaValue, 'f) outcome" where
  "eval_index P ev object index env st =
     seq (ev object env st) (\<lambda>obj st1.
       seq (ev index env st1) (\<lambda>idx st2. index_value P obj idx st2))"

definition no_member :: "string \<Rightarrow> 'f BoaValue \<Rightarrow> 'f Interpreter \<Rightarrow> ('f BoaValue, 'f) outcome" where
  "no_member member obj st =
     throw_error (''Cannot access member '' @ quoted member @ '' on '' @ value_type_name obj) st"

definition eval_member :: "'f evaluator \<Rightarrow> 'f ASTNode \<Rightarrow> string
    \<Rightarrow> nat \<Rightarrow> 'f Interpreter \<Rightarrow> ('f BoaValue, 'f) outcome" where
  "eval_member ev object member env st =
     seq (ev object env st) (\<lambda>obj st1.
       case obj of
         VModule r \<Rightarrow>
           (case members (module_heap st1 r) member of
              Some v \<Rightarrow> Normal v st1
            | None \<Rightarrow> throw_error (''Module '' @ quoted (mod_name (module_heap st1 r))
                         @ '' has no member '' @ quoted member) st1)
       | VList r \<Rightarrow>
           if member = ''append'' then Normal (VBuiltin (B_list_append r)) st1
           else if member = ''length'' then Normal (VInt (size_of (list_heap st1 r))) st1
           else no_member member obj st1
       | VString s \<Rightarrow>
           if member = ''length'' then Normal (VInt (size_of s)) st1
           else if member = ''upper'' then Normal (VBuiltin (B_upper s)) st1
           else if member = ''lower'' then Normal (VBuiltin (B_lower s)) st1
           else no_member member obj st1
       | _ \<Rightarrow> no_member member obj st1)"

text \<open>The loop of \<^verbatim>\<open>eval_call\<close> that binds the parameters in the new environment.\<close>

fun bind_params :: "nat \<Rightarrow> string list \<Rightarrow> 'f BoaValue list \<Rightarrow> 'f Interpreter \<Rightarrow> 'f Interpreter" where
  "bind_params env (p # ps) (a # as) st = bind_params env ps as (define_var env p a st)"
| "bind_params env ps as st = st"

definition call_function :: "'f evaluator \<Rightarrow> string \<Rightarrow> string list \<Rightarrow> 'f ASTNode list \<Rightarrow> nat
    \<Rightarrow> 'f BoaValue list \<Rightarrow> 'f Interpreter \<Rightarrow> ('f BoaValue, 'f) outcome" where
  "call_function ev name params body closure args st =
     (if length args \<noteq> length params
      then throw_error (''Function '' @ quoted name @ '' expected '' @ show_nat (length params)
             @ '' arguments, got '' @ show_nat (length args)) st
      else
        let (fn_env, st1) = new_env (Some closure) st;
            st2 = bind_params fn_env params args st1
        in case exec_body ev body fn_env st2 of
             Throw (ReturnException v) st3 \<Rightarrow> Normal v st3
           | other \<Rightarrow> other)"

definition eval_call :: "nat \<Rightarrow> 'f Platform \<Rightarrow> 'f evaluator \<Rightarrow> 'f ASTNode \<Rightarrow> 'f ASTNode list
    \<Rightarrow> nat \<Rightarrow> 'f Interpreter \<Rightarrow> ('f BoaValue, 'f) outcome" where
  "eval_call k P ev callee_node arg_nodes env st =
     seq (ev callee_node env st) (\<lambda>callee st1.
       seq (eval_all ev arg_nodes env st1) (\<lambda>args st2.
         case callee of
           VBuiltin b \<Rightarrow> call_builtin k P b args st2
         | VFunction name params body closure \<Rightarrow>
             call_function ev name params body closure args st2
         | _ \<Rightarrow> throw_error ''Object is not callable'' st2))"

definition eval_fndef :: "string \<Rightarrow> string list \<Rightarrow> 'f ASTNode list \<Rightarrow> nat \<Rightarrow> 'f Interpreter
    \<Rightarrow> ('f BoaValue, 'f) outcome" where
  "eval_fndef name params body env st =
     (let fn = VFunction name params body env in Normal fn (define_var env name fn st))"

definition eval_return :: "'f evaluator \<Rightarrow> 'f ASTNode option \<Rightarrow> nat \<Rightarrow> 'f Interpreter
    \<Rightarrow> ('f BoaValue, 'f) outcome" where
  "eval_return ev v env st =
     (case v of
        None \<Rightarrow> Throw (ReturnException VNone) st
      | Some e \<Rightarrow> seq (ev e env st) (\<lambda>val st1. Throw (ReturnException val) st1))"

fun eval_elifs :: "'f Platform \<Rightarrow> 'f evaluator \<Rightarrow> ('f ASTNode \<times> 'f ASTNode list) list
    \<Rightarrow> 'f ASTNode list \<Rightarrow> nat \<Rightarrow> 'f Interpreter \<Rightarrow> ('f BoaValue, 'f) outcome" where
  "eval_elifs P ev [] else_body env st =
     (if else_body \<noteq> [] then exec_body ev else_body env st else Normal VNone st)"
| "eval_elifs P ev ((cond, body) # rest) else_body env st =
     seq (ev cond env st) (\<lambda>c st1.
       if is_truthy P st1 c then exec_body ev body env st1
       else eval_elifs P ev rest else_body env st1)"

definition eval_if :: "'f Platform \<Rightarrow> 'f evaluator \<Rightarrow> 'f ASTNode \<Rightarrow> 'f ASTNode list
    \<Rightarrow> ('f ASTNode \<times> 'f ASTNode list) list \<Rightarrow> 'f ASTNode list
    \<Rightarrow> nat \<Rightarrow> 'f Interpreter \<Rightarrow> ('f BoaValue, 'f) outcome" where
  "eval_if P ev condition body elif_clauses else_body env st =
     seq (ev condition env st) (\<lambda>c st1.
       if is_truthy P st1 c then exec_body ev body env st1
       else eval_elifs P ev elif_clauses else_body env st1)"

text \<open>
  The loop of \<^verbatim>\<open>eval_for\<close>. The range-based \<^verbatim>\<open>for\<close> runs from \<^verbatim>\<open>begin()\<close> to the
  \<^verbatim>\<open>end()\<close> taken when the loop starts and reads each element in place: \<open>i\<close> is the
  position, the next argument the number of elements still to visit. No operation of
  the language shortens a list, so the position is always in range.
\<close>

fun for_loop :: "'f evaluator \<Rightarrow> string \<Rightarrow> 'f ASTNode list \<Rightarrow> nat \<Rightarrow> nat \<Rightarrow> nat \<Rightarrow> nat
    \<Rightarrow> 'f BoaValue \<Rightarrow> 'f Interpreter \<Rightarrow> ('f BoaValue, 'f) outcome" where
  "for_loop ev var_name body env r i 0 result st = Normal result st"
| "for_loop ev var_name body env r i (Suc n) result st =
     (case exec_body ev body env (set_var env var_name (list_heap st r ! i) st) of
        Normal res st2 \<Rightarrow> for_loop ev var_name body env r (Suc i) n res st2
      | Throw BreakException st2 \<Rightarrow> Normal result st2
      | Throw ContinueException st2 \<Rightarrow> for_loop ev var_name body env r (Suc i) n result st2
      | other \<Rightarrow> other)"

definition eval_for :: "'f evaluator \<Rightarrow> string \<Rightarrow> 'f ASTNode \<Rightarrow> 'f ASTNode list
    \<Rightarrow> nat \<Rightarrow> 'f Interpreter \<Rightarrow> ('f BoaValue, 'f) outcome" where
  "eval_for ev var_name iterable body env st =
     seq (ev iterable env st) (\<lambda>it st1.
       case it of
         VList r \<Rightarrow> for_loop ev var_name body env r 0 (length (list_heap st1 r)) VNone st1
       | _ \<Rightarrow> throw_error ''for: can only iterate over lists'' st1)"

text \<open>The loop of \<^verbatim>\<open>eval_while\<close>; the first argument bounds the iterations.\<close>

fun while_loop :: "nat \<Rightarrow> 'f Platform \<Rightarrow> 'f evaluator \<Rightarrow> 'f ASTNode \<Rightarrow> 'f ASTNode list \<Rightarrow> nat
    \<Rightarrow> 'f BoaValue \<Rightarrow> 'f Interpreter \<Rightarrow> ('f BoaValue, 'f) outcome" where
  "while_loop 0 P ev condition body env result st = OutOfFuel"
| "while_loop (Suc k) P ev condition body env result st =
     seq (ev condition env st) (\<lambda>c st1.
       if is_truthy P st1 c
       then (case exec_body ev body env st1 of
               Normal res st2 \<Rightarrow> while_loop k P ev condition body env res st2
             | Throw BreakException st2 \<Rightarrow> Normal result st2
             | Throw ContinueException st2 \<Rightarrow> while_loop k P ev condition body env result st2
             | other \<Rightarrow> other)
       else Normal result st1)"

definition eval_while :: "nat \<Rightarrow> 'f Platform \<Rightarrow> 'f evaluator \<Rightarrow> 'f ASTNode \<Rightarrow> 'f ASTNode list
    \<Rightarrow> nat \<Rightarrow> 'f Interpreter \<Rightarrow> ('f BoaValue, 'f) outcome" where
  "eval_while k P ev condition body env st = while_loop k P ev condition body env VNone st"

text \<open>
  \<^verbatim>\<open>eval_import\<close>, one module name after the other. For a module that is not cached the
  file \<^verbatim>\<open>base_dir/name.boa\<close> is read, lexed and parsed; the source then makes a new
  environment \<^verbatim>\<open>mod_env\<close> whose parent is the global one, calls \<^verbatim>\<open>exec(program.get())\<close>,
  which is \<^verbatim>\<open>exec_body(program->statements, global_env_)\<close>, and builds the module from
  the variables of \<^verbatim>\<open>mod_env\<close>.
\<close>

fun eval_import :: "'f Platform \<Rightarrow> 'f evaluator \<Rightarrow> string list \<Rightarrow> nat \<Rightarrow> 'f Interpreter
    \<Rightarrow> ('f BoaValue, 'f) outcome" where
  "eval_import P ev [] env st = Normal VNone st"
| "eval_import P ev (m # ms) env st =
     (case module_cache st m of
        Some cached \<Rightarrow> eval_import P ev ms env (define_var env m cached st)
      | None \<Rightarrow>
          let path = base_dir st @ ''/'' @ m @ ''.boa'' in
          case files st path of
            None \<Rightarrow> throw_error (''Cannot find module '' @ quoted m @ '' (looked in ''
                      @ path @ '')'') st
          | Some src \<Rightarrow>
              (case tokenize src of
                 Inl e \<Rightarrow> Throw (LexerFailure e) st
               | Inr tokens \<Rightarrow>
                   (case parse_program P tokens of
                      Inl e \<Rightarrow> Throw e st
                    | Inr program \<Rightarrow>
                        let (mod_env, st1) = new_env (Some (global_env st)) st in
                        seq (exec_body ev program (global_env st1) st1) (\<lambda>r st2.
                          let (module, st3) = make_module m (vars (env_heap st2 mod_env)) st2;
                              st4 = st3\<lparr>module_cache := (module_cache st3)(m \<mapsto> module)\<rparr>
                          in eval_import P ev ms env (define_var env m module st4)))))"

text \<open>
  \<^verbatim>\<open>eval_try\<close>. \<open>handle\<close> is the common body of the two \<^verbatim>\<open>catch\<close> clauses, with the
  value bound to the exception variable (the string built from the C string
  \<^verbatim>\<open>e.what()\<close>, which ends at the first NUL byte of the message, or \<^verbatim>\<open>e.value\<close>);
  \<^verbatim>\<open>throw;\<close> rethrows the exception caught. When the try body returns normally the
  function returns its value at once.
\<close>

definition c_string :: "string \<Rightarrow> string" where
  "c_string s = takeWhile (\<lambda>c. c \<noteq> c_nul) s"

definition run_finally :: "'f evaluator \<Rightarrow> 'f ASTNode list \<Rightarrow> nat \<Rightarrow> 'f Interpreter
    \<Rightarrow> ('f Interpreter \<Rightarrow> ('f BoaValue, 'f) outcome) \<Rightarrow> ('f BoaValue, 'f) outcome" where
  "run_finally ev finally_body env st cont =
     (if finally_body \<noteq> [] then seq (exec_body ev finally_body env st) (\<lambda>r st'. cont st')
      else cont st)"

definition handle :: "'f evaluator \<Rightarrow> 'f Thrown \<Rightarrow> 'f BoaValue \<Rightarrow> string \<Rightarrow> 'f ASTNode list
    \<Rightarrow> 'f ASTNode list \<Rightarrow> nat \<Rightarrow> 'f Interpreter \<Rightarrow> ('f BoaValue, 'f) outcome" where
  "handle ev caught payload except_var except_body finally_body env st =
     (if except_body \<noteq> []
      then seq (exec_body ev except_body env
                  (if except_var \<noteq> [] then set_var env except_var payload st else st))
             (\<lambda>result st1. run_finally ev finally_body env st1 (Normal result))
      else run_finally ev finally_body env st (Throw caught))"

definition eval_try :: "'f evaluator \<Rightarrow> 'f ASTNode list \<Rightarrow> string \<Rightarrow> 'f ASTNode list
    \<Rightarrow> 'f ASTNode list \<Rightarrow> nat \<Rightarrow> 'f Interpreter \<Rightarrow> ('f BoaValue, 'f) outcome" where
  "eval_try ev try_body except_var except_body finally_body env st =
     (case exec_body ev try_body env st of
        Normal v st1 \<Rightarrow> Normal v st1
      | Throw (BoaRuntimeError msg) st1 \<Rightarrow>
          handle ev (BoaRuntimeError msg) (VString (c_string msg)) except_var except_body
            finally_body env st1
      | Throw (BoaException v) st1 \<Rightarrow>
          handle ev (BoaException v) v except_var except_body finally_body env st1
      | other \<Rightarrow> other)"

text \<open>The chain of \<^verbatim>\<open>dynamic_cast\<close> tests of \<^verbatim>\<open>eval\<close>. No test matches a \<^verbatim>\<open>ClassDef\<close> or
  a \<^verbatim>\<open>Program\<close> node.\<close>

definition eval_node :: "nat \<Rightarrow> 'f Platform \<Rightarrow> 'f evaluator \<Rightarrow> 'f evaluator" where
  "eval_node k P ev node env st =
     (case node of
        NumberLiteral v \<Rightarrow> Normal (eval_number P v) st
      | StringLiteral s \<Rightarrow> Normal (VString s) st
      | BoolLiteral b \<Rightarrow> Normal (VBool b) st
      | NoneLiteral \<Rightarrow> Normal VNone st
      | Identifier name \<Rightarrow> eval_identifier name env st
      | BinaryOp left op right \<Rightarrow> eval_binary P ev left op right env st
      | UnaryOp op operand \<Rightarrow> eval_unary P ev op operand env st
      | Assignment target op rhs \<Rightarrow> eval_assignment P ev target op rhs env st
      | ListLiteral elements \<Rightarrow> eval_list ev elements env st
      | DictLiteral entries \<Rightarrow> eval_dict ev entries env st
      | IndexExpr object index \<Rightarrow> eval_index P ev object index env st
      | MemberAccess object member \<Rightarrow> eval_member ev object member env st
      | FunctionCall callee args \<Rightarrow> eval_call k P ev callee args env st
      | ExpressionStmt e \<Rightarrow> ev e env st
      | FnDef name params body \<Rightarrow> eval_fndef name params body env st
      | ReturnStmt v \<Rightarrow> eval_return ev v env st
      | IfStmt condition body elifs else_body \<Rightarrow>
          eval_if P ev condition body elifs else_body env st
      | ForStmt var_name iterable body \<Rightarrow> eval_for ev var_name iterable body env st
      | WhileStmt condition body \<Rightarrow> eval_while k P ev condition body env st
      | ImportStmt modules \<Rightarrow> eval_import P ev modules env st
      | TryStmt try_body except_var except_body finally_body \<Rightarrow>
          eval_try ev try_body except_var except_body finally_body env st
      | Block statements \<Rightarrow> exec_body ev statements env st
      | PassStmt \<Rightarrow> Normal VNone st
      | ClassDef name methods \<Rightarrow> throw_error ''Unknown AST node'' st
      | Program statements \<Rightarrow> throw_error ''Unknown AST node'' st)"

text \<open>
  \<^verbatim>\<open>Interpreter::eval\<close>. The first argument bounds the depth of nested calls of \<^verbatim>\<open>eval\<close>
  and, at each depth, the iterations of a \<^verbatim>\<open>while\<close> or \<^verbatim>\<open>range\<close> loop; with too small
  a bound the result is \<open>OutOfFuel\<close>.
\<close>

primrec eval :: "nat \<Rightarrow> 'f Platform \<Rightarrow> 'f evaluator" where
  "eval 0 P = (\<lambda>node env st. OutOfFuel)"
| "eval (Suc k) P = eval_node k P (eval k P)"

definition exec :: "nat \<Rightarrow> 'f Platform \<Rightarrow> 'f ASTNode list \<Rightarrow> 'f Interpreter
    \<Rightarrow> ('f BoaValue, 'f) outcome" where
  "exec k P statements st = exec_body (eval k P) statements (global_env st) st"

definition run :: "nat \<Rightarrow> 'f Platform \<Rightarrow> string \<Rightarrow> string \<Rightarrow> 'f Interpreter
    \<Rightarrow> ('f BoaValue, 'f) outcome" where
  "run k P src filename st =
     (case tokenize src of
        Inl e \<Rightarrow> Throw (LexerFailure e) st
      | Inr tokens \<Rightarrow>
          (case parse_program P tokens of
             Inl e \<Rightarrow> Throw e st
           | Inr program \<Rightarrow> exec k P program (st\<lparr>current_file := filename\<rparr>)))"

text \<open>
  The state after the constructor \<^verbatim>\<open>Interpreter()\<close>: the global environment at address
  0 with the global built-ins of \<^verbatim>\<open>register_builtins\<close>, the modules \<^verbatim>\<open>io\<close> and \<^verbatim>\<open>fs\<close>
  in the module cache. The arguments are the process environment: the standard input,
  the files, and the paths that can be written.
\<close>

definition io_members :: "string \<rightharpoonup> 'f BoaValue" where
  "io_members = [''print'' \<mapsto> VBuiltin B_io_print, ''println'' \<mapsto> VBuiltin B_io_print,
                 ''input'' \<mapsto> VBuiltin B_io_input]"

definition fs_members :: "string \<rightharpoonup> 'f BoaValue" where
  "fs_members = [''read_all_bytes'' \<mapsto> VBuiltin B_fs_read_all_bytes,
                 ''write_all_bytes'' \<mapsto> VBuiltin B_fs_write_all_bytes,
                 ''read_text'' \<mapsto> VBuiltin B_fs_read_text,
                 ''write_text'' \<mapsto> VBuiltin B_fs_write_text]"

definition global_builtins :: "string \<rightharpoonup> 'f BoaValue" where
  "global_builtins = [''len'' \<mapsto> VBuiltin B_len, ''str'' \<mapsto> VBuiltin B_str,
                      ''int'' \<mapsto> VBuiltin B_int, ''float'' \<mapsto> VBuiltin B_float,
                      ''type'' \<mapsto> VBuiltin B_type, ''range'' \<mapsto> VBuiltin B_range,
                      ''append'' \<mapsto> VBuiltin B_append, ''print'' \<mapsto> VBuiltin B_print]"

definition Interpreter_init :: "string \<Rightarrow> (string \<rightharpoonup> string) \<Rightarrow> (string \<Rightarrow> bool)
    \<Rightarrow> 'f Interpreter" where
  "Interpreter_init inp fs wr =
     \<lparr>env_heap = (\<lambda>a. \<lparr>parent = None, vars = Map.empty\<rparr>)
                   (0 := \<lparr>parent = None, vars = global_builtins\<rparr>),
      env_next = 1,
      list_heap = (\<lambda>a. []), list_next = 0,
      dict_heap = (\<lambda>a. []), dict_next = 0,
      module_heap = (\<lambda>a. \<lparr>mod_name = [], members = Map.empty\<rparr>)
                      (0 := \<lparr>mod_name = ''io'', members = io_members\<rparr>,
                       1 := \<lparr>mod_name = ''fs'', members = fs_members\<rparr>),
      module_next = 2,
      global_env = 0,
      base_dir = ''.'',
      current_file = ''<stdin>'',
      module_cache = [''io'' \<mapsto> VModule 0, ''fs'' \<mapsto> VModule 1],
      captured = [],
      capture_output = False,
      std_cout = [],
      std_cin = inp,
      files = fs,
      writable = wr\<rparr>"


section \<open>The type double on its finite values\<close>

text \<open>
  The evaluator above is written for any arithmetic of \<^verbatim>\<open>double\<close>. Where a statement
  needs a concrete one, it is \<open>binary64\<close> below: a finite IEEE 754 binary64 value is
  the rational number it denotes, and an operation rounds its exact result to the
  nearest such value, ties to even. The instance does not tell the two zeros apart and
  has no infinities, NaNs or subnormal rounding: it is the arithmetic of the source as
  long as every value stays a normal finite number (magnitude from \<open>2^-1022\<close> to below
  \<open>2^1024\<close>) or zero.
\<close>

type_synonym double = rat

definition round_half_even :: "rat \<Rightarrow> int" where
  "round_half_even q =
     (let f = \<lfloor>q\<rfloor>; r = q - of_int f
      in if r < 1 / 2 then f else if 1 / 2 < r then f + 1
         else if even f then f else f + 1)"

text \<open>The number of binary digits of a natural number.\<close>

function bit_length :: "nat \<Rightarrow> nat" where
  "bit_length n = (if n = 0 then 0 else Suc (bit_length (n div 2)))"
  by pat_completeness auto
termination
  by (relation "measure id") auto

declare bit_length.simps [simp del]

text \<open>For \<open>q > 0\<close>, the exponent \<open>e\<close> with \<open>2^e \<le> q < 2^(e+1)\<close>.\<close>

definition binade :: "rat \<Rightarrow> int" where
  "binade q =
     (if 1 \<le> q then int (bit_length (nat \<lfloor>q\<rfloor>)) - 1
      else - int (bit_length (nat (\<lceil>1 / q\<rceil> - 1))))"

text \<open>Rounding to 53 significant bits.\<close>

definition round_double :: "rat \<Rightarrow> double" where
  "round_double q =
     (if q = 0 then 0
      else let e = binade \<bar>q\<bar> - 52
           in sgn q * of_int (round_half_even (\<bar>q\<bar> / 2 powi e)) * 2 powi e)"

definition is_double :: "rat \<Rightarrow> bool" where
  "is_double q = (round_double q = q)"

definition truncate :: "rat \<Rightarrow> int" where
  "truncate q = (if 0 \<le> q then \<lfloor>q\<rfloor> else \<lceil>q\<rceil>)"

text \<open>
  \<^verbatim>\<open>static_cast<int64_t>(double)\<close> truncates towards zero. Out of the range of
  \<^verbatim>\<open>int64_t\<close> C++ leaves the result undefined; the conversion instruction of x86-64
  gives the most negative value, and so does this definition.
\<close>

definition double_to_int64 :: "double \<Rightarrow> int64" where
  "double_to_int64 q =
     (let t = truncate q
      in if - (2 ^ 63) \<le> t \<and> t < 2 ^ 63 then word_of_int t else word_of_int (- (2 ^ 63)))"

definition int64_to_double :: "int64 \<Rightarrow> double" where
  "int64_to_double i = round_double (of_int (sint i))"

text \<open>\<^verbatim>\<open>std::fmod\<close>: the remainder of the division truncated towards zero; it is exact.\<close>

definition fmod :: "double \<Rightarrow> double \<Rightarrow> double" where
  "fmod a b = a - b * of_int (truncate (a / b))"

subsection \<open>Writing a double to a stream\<close>

text \<open>
  \<^verbatim>\<open>oss << float_val\<close> on a default-constructed stream: the conversion \<^verbatim>\<open>%g\<close> of
  \<^verbatim>\<open>printf\<close> with precision 6. The value is rounded to six significant decimal digits
  \<open>m\<close> with decimal exponent \<open>X\<close>; for \<open>-4 \<le> X < 6\<close> it is written in fixed
  notation, otherwise in scientific notation with an exponent of at least two digits;
  trailing zeros of the fraction, and a decimal point with nothing after it, are
  dropped.
\<close>

function digit_count :: "nat \<Rightarrow> nat" where
  "digit_count n = (if n < 10 then 1 else Suc (digit_count (n div 10)))"
  by pat_completeness auto
termination
  by (relation "measure id") auto

declare digit_count.simps [simp del]

text \<open>For \<open>q > 0\<close>, the exponent \<open>X\<close> with \<open>10^X \<le> q < 10^(X+1)\<close>.\<close>

definition decade :: "rat \<Rightarrow> int" where
  "decade q =
     (if 1 \<le> q then int (digit_count (nat \<lfloor>q\<rfloor>)) - 1
      else - int (digit_count (nat (\<lceil>1 / q\<rceil> - 1))))"

definition strip_zeros :: "string \<Rightarrow> string" where
  "strip_zeros s = rev (dropWhile (\<lambda>c. c = CHR ''0'') (rev s))"

definition with_fraction :: "string \<Rightarrow> string \<Rightarrow> string" where
  "with_fraction ip fp = (if strip_zeros fp = [] then ip else ip @ ''.'' @ strip_zeros fp)"

definition fmt_scientific :: "nat \<Rightarrow> int \<Rightarrow> string" where
  "fmt_scientific m X =
     with_fraction (take 1 (show_nat m)) (drop 1 (show_nat m)) @ ''e''
       @ (if X < 0 then ''-'' else ''+'')
       @ (if \<bar>X\<bar> < 10 then ''0'' else []) @ show_nat (nat \<bar>X\<bar>)"

definition fmt_fixed :: "nat \<Rightarrow> int \<Rightarrow> string" where
  "fmt_fixed m X =
     (if 0 \<le> X
      then with_fraction (take (nat X + 1) (show_nat m)) (drop (nat X + 1) (show_nat m))
      else with_fraction ''0'' (replicate (nat (- X - 1)) (CHR ''0'') @ show_nat m))"

definition fmt_g :: "double \<Rightarrow> string" where
  "fmt_g v =
     (if v = 0 then ''0''
      else
        let a = \<bar>v\<bar>;
            e0 = decade a;
            m0 = round_half_even (a / 10 powi (e0 - 5));
            m = (if m0 = 1000000 then 100000 else nat m0);
            X = (if m0 = 1000000 then e0 + 1 else e0)
        in (if v < 0 then ''-'' else [])
           @ (if X < - 4 \<or> 6 \<le> X then fmt_scientific m X else fmt_fixed m X))"

text \<open>
  The instance. \<^verbatim>\<open>std::pow\<close>, \<^verbatim>\<open>std::stod\<close> and the parser stay arguments.
\<close>

definition binary64 :: "(double \<Rightarrow> double \<Rightarrow> double) \<Rightarrow> (string \<Rightarrow> double option)
    \<Rightarrow> (Token list \<Rightarrow> double Thrown + double ASTNode list) \<Rightarrow> double Platform" where
  "binary64 pw sd pp =
     \<lparr>d_of_int = int64_to_double,
      d_to_int = double_to_int64,
      d_add = (\<lambda>a b. round_double (a + b)),
      d_sub = (\<lambda>a b. round_double (a - b)),
      d_mul = (\<lambda>a b. round_double (a * b)),
      d_div = (\<lambda>a b. round_double (a / b)),
      d_fmod = fmod,
      d_pow = pw,
      d_neg = uminus,
      d_eq = (=),
      d_lt = (<),
      d_show = fmt_g,
      stod = sd,
      parse_program = pp\<rparr>"


lemma digit_char_simps [simp]:
  "digit_char 0 = CHR ''0''" "digit_char 1 = CHR ''1''" "digit_char 2 = CHR ''2''"
  "digit_char 3 = CHR ''3''" "digit_char 4 = CHR ''4''" "digit_char 5 = CHR ''5''"
  "digit_char 6 = CHR ''6''" "digit_char 7 = CHR ''7''" "digit_char 8 = CHR ''8''"
  "digit_char 9 = CHR ''9''" "digit_char (Suc 0) = CHR ''1''"
  by code_simp+

lemmas fmt_eval = fmt_g_def decade_def digit_count.simps round_half_even_def Let_def
  fmt_scientific_def fmt_fixed_def with_fraction_def strip_zeros_def show_nat.simps

lemmas round_eval = round_double_def binade_def bit_length.simps round_half_even_def Let_def

subsection \<open>Facts about rounding\<close>

lemma bit_length_0 [simp]: "bit_length 0 = 0"
  by (simp add: bit_length.simps)

lemma bit_length_pos: "0 < n \<Longrightarrow> bit_length n = Suc (bit_length (n div 2))"
  by (simp add: bit_length.simps [of n])

lemma bit_length_bounds:
  "0 < n \<Longrightarrow> 2 ^ (bit_length n - 1) \<le> n \<and> n < 2 ^ bit_length n"
proof (induction n rule: bit_length.induct)
  case (1 n)
  note bl = bit_length_pos [OF "1.prems"]
  show ?case
  proof (cases "n div 2 = 0")
    case True
    with "1.prems" have "n = 1" by (simp add: div_eq_0_iff)
    with bl True show ?thesis by simp
  next
    case False
    then have pos: "0 < n div 2" by simp
    from "1.IH" [OF _ pos] "1.prems"
    have IH: "2 ^ (bit_length (n div 2) - 1) \<le> n div 2" "n div 2 < 2 ^ bit_length (n div 2)"
      by simp_all
    from bit_length_pos [OF pos] obtain j where j: "bit_length (n div 2) = Suc j" by simp
    from IH j have "2 * 2 ^ j \<le> 2 * (n div 2)" by simp
    also have "\<dots> \<le> n" by simp
    finally have lo: "2 ^ (bit_length n - 1) \<le> n" using bl j by simp
    from IH(2) have "Suc (n div 2) \<le> 2 ^ bit_length (n div 2)" by simp
    then have "2 * Suc (n div 2) \<le> 2 * 2 ^ bit_length (n div 2)" by simp
    moreover have "n < 2 * Suc (n div 2)" by simp
    ultimately have "n < 2 ^ bit_length n" using bl by simp
    with lo show ?thesis by simp
  qed
qed

lemma bit_length_unique:
  assumes "2 ^ e \<le> n" "n < 2 ^ Suc e"
  shows "bit_length n = Suc e"
proof -
  from assms(1) have pos: "0 < n"
    by (metis gr0I not_less_eq_eq power_eq_0_iff zero_neq_numeral le_zero_eq)
  from bit_length_bounds [OF pos]
  have b: "2 ^ (bit_length n - 1) \<le> n" "n < 2 ^ bit_length n" by simp_all
  from bit_length_pos [OF pos] obtain j where j: "bit_length n = Suc j" by simp
  have "(2::nat) ^ e < 2 ^ Suc j" using assms(1) b(2) j by simp
  then have "e < Suc j" by (rule power_less_imp_less_exp [rotated]) simp
  moreover have "(2::nat) ^ j < 2 ^ Suc e" using assms(2) b(1) j by simp
  then have "j < Suc e" by (rule power_less_imp_less_exp [rotated]) simp
  ultimately show ?thesis using j by simp
qed

lemma round_half_even_of_int [simp]: "round_half_even (of_int k) = k"
  by (simp add: round_half_even_def)

lemma round_half_even_le: "q \<le> of_int K \<Longrightarrow> round_half_even q \<le> K"
proof -
  assume a: "q \<le> of_int K"
  show ?thesis
  proof (cases "q = of_int K")
    case True
    then show ?thesis by simp
  next
    case False
    with a have "q < of_int K" by simp
    then have "\<lfloor>q\<rfloor> < K" by (simp add: floor_less_iff)
    then have "\<lfloor>q\<rfloor> + 1 \<le> K" by simp
    then show ?thesis by (auto simp: round_half_even_def Let_def)
  qed
qed

lemma round_half_even_ge: "of_int K \<le> q \<Longrightarrow> K \<le> round_half_even q"
proof -
  assume "of_int K \<le> q"
  then have "K \<le> \<lfloor>q\<rfloor>" by (simp add: le_floor_iff)
  then show ?thesis by (auto simp: round_half_even_def Let_def)
qed

text \<open>The binade of a positive integer.\<close>

lemma binade_of_nat:
  assumes "0 < n"
  shows "binade (of_nat n) = int (bit_length n) - 1"
proof -
  have "(1::rat) \<le> of_nat n" using assms by simp
  then show ?thesis by (simp add: binade_def)
qed

lemma bit_length_mult_pow2: "0 < m \<Longrightarrow> bit_length (m * 2 ^ k) = bit_length m + k"
proof (induction k)
  case 0
  then show ?case by simp
next
  case (Suc k)
  then have "0 < m * 2 ^ Suc k" by simp
  from bit_length_pos [OF this] have "bit_length (m * 2 ^ Suc k) = Suc (bit_length (m * 2 ^ k))"
    by simp
  with Suc show ?case by simp
qed

lemma round_double_exact:
  assumes "q \<noteq> 0" "\<bar>q\<bar> / 2 powi (binade \<bar>q\<bar> - 52) = of_int z"
  shows "round_double q = q"
proof -
  let ?e = "binade \<bar>q\<bar> - 52"
  have nz: "(2::rat) powi ?e \<noteq> 0" by simp
  have "round_double q = sgn q * of_int (round_half_even (\<bar>q\<bar> / 2 powi ?e)) * 2 powi ?e"
    using assms(1) by (simp add: round_double_def Let_def)
  also have "\<dots> = sgn q * (\<bar>q\<bar> / 2 powi ?e) * 2 powi ?e"
    by (simp add: assms(2))
  also have "\<dots> = sgn q * \<bar>q\<bar>" using nz by simp
  also have "\<dots> = q" by (simp add: sgn_mult_abs)
  finally show ?thesis .
qed

lemma round_double_minus: "round_double (- q) = - round_double q"
  by (simp add: round_double_def Let_def sgn_minus)

text \<open>Every \<open>m * 2^k\<close> with \<open>m \<le> 2^53\<close> is a double.\<close>

lemma round_double_nat:
  assumes "0 < m" "m \<le> 2 ^ 53"
  shows "round_double (of_nat (m * 2 ^ k)) = of_nat (m * 2 ^ k)"
proof -
  define q :: rat where "q = of_nat (m * 2 ^ k)"
  have pos: "0 < m * 2 ^ k" using assms(1) by simp
  have absq: "\<bar>q\<bar> = q" by (simp add: q_def)
  have bin: "binade q = int (bit_length m) + int k - 1"
    unfolding q_def using binade_of_nat [OF pos] bit_length_mult_pow2 [OF assms(1), of k] by simp
  have qv: "q = of_nat m * 2 ^ k" by (simp add: q_def)
  from bit_length_bounds [OF assms(1)]
  have b: "2 ^ (bit_length m - 1) \<le> m" by simp
  from bit_length_pos [OF assms(1)] obtain j where j: "bit_length m = Suc j" by simp
  have "(2::nat) ^ j \<le> 2 ^ 53" using b assms(2) j by simp
  then have j53: "j \<le> 53" by (rule power_le_imp_le_exp [rotated]) simp
  have "\<exists>z. q / 2 powi (binade q - 52) = of_int z"
  proof (cases "j = 53")
    case True
    with b j assms(2) have m: "m = 2 ^ 53" by simp
    have e: "binade q - 52 = int (Suc k)" using bin j True by simp
    have p: "(2::rat) powi (binade q - 52) = 2 * 2 ^ k"
      unfolding e by (simp only: power_int_of_nat power_Suc)
    have f: "(of_nat m :: rat) * 2 ^ k / (2 * 2 ^ k) = of_int (2 ^ 52)"
      unfolding m by simp
    have "q / 2 powi (binade q - 52) = of_int (2 ^ 52)"
      by (subst p, subst qv, rule f)
    then show ?thesis ..
  next
    case False
    define d where "d = 52 - j"
    from False j53 have d: "52 = j + d" by (simp add: d_def)
    have e: "binade q - 52 = int k - int d" using bin j d by simp
    have p: "(2::rat) powi (binade q - 52) = 2 ^ k / 2 ^ d"
      unfolding e by (simp add: power_int_diff)
    have f: "(of_nat m :: rat) * 2 ^ k / (2 ^ k / 2 ^ d) = of_int (int (m * 2 ^ d))"
      by simp
    have "q / 2 powi (binade q - 52) = of_int (int (m * 2 ^ d))"
      by (subst p, subst qv, rule f)
    then show ?thesis ..
  qed
  then obtain z where "\<bar>q\<bar> / 2 powi (binade \<bar>q\<bar> - 52) = of_int z" unfolding absq ..
  moreover have "q \<noteq> 0" using pos unfolding q_def by simp
  ultimately have "round_double q = q" by (rule round_double_exact [rotated])
  then show ?thesis unfolding q_def .
qed

lemma round_double_small_nat: "n < 2 ^ 53 \<Longrightarrow> round_double (of_nat n) = of_nat n"
proof (cases "n = 0")
  case True
  then show ?thesis by (simp add: round_double_def)
next
  case False
  assume "n < 2 ^ 53"
  with False round_double_nat [of n 0] show ?thesis by simp
qed

lemma round_double_small_int:
  assumes "\<bar>i\<bar> < 2 ^ 53"
  shows "round_double (of_int i) = of_int i"
proof (cases "0 \<le> i")
  case True
  with assms have "nat i < 2 ^ 53" by (simp add: nat_less_iff)
  from round_double_small_nat [OF this] True show ?thesis by simp
next
  case False
  with assms have "nat (- i) < 2 ^ 53" by (simp add: nat_less_iff)
  from round_double_small_nat [OF this] False have "round_double (of_int (- i)) = of_int (- i)"
    by simp
  then show ?thesis using round_double_minus [of "of_int i"] by simp
qed


text \<open>
  Rounding a natural number up to \<open>9 * 10^18\<close> gives a natural number up to
  \<open>9 * 10^18\<close> that is a double.
\<close>

lemma round_double_nat_9e18:
  assumes "n \<le> 9000000000000000000"
  shows "\<exists>r. round_double (of_nat n) = of_nat r \<and> r \<le> 9000000000000000000 \<and>
             round_double (of_nat r) = of_nat r"
proof (cases "n < 2 ^ 53")
  case True
  from round_double_small_nat [OF True] assms show ?thesis by auto
next
  case False
  then have big: "2 ^ 53 \<le> n" by simp
  then have pos: "0 < n" by simp
  from bit_length_bounds [OF pos]
  have b: "2 ^ (bit_length n - 1) \<le> n" "n < 2 ^ bit_length n" by simp_all
  have "(2::nat) ^ 53 < 2 ^ bit_length n" using big b(2) by simp
  then have "53 < bit_length n" by (rule power_less_imp_less_exp [rotated]) simp
  define k where "k = bit_length n - 54"
  from \<open>53 < bit_length n\<close> have k: "bit_length n = 53 + Suc k" by (simp add: k_def)
  have "n < 2 ^ 63" using assms by simp
  with b(1) k have "(2::nat) ^ (52 + Suc k) < 2 ^ 63" by simp
  then have "52 + Suc k < 63" by (rule power_less_imp_less_exp [rotated]) simp
  then have k10: "k < 10" by simp
  let ?s = "(of_nat n :: rat) / 2 ^ Suc k"
  let ?m = "round_half_even ?s"
  have e: "binade \<bar>of_nat n\<bar> - 52 = int (Suc k)"
    using binade_of_nat [OF pos] k by simp
  have pw: "(2::rat) powi (binade \<bar>of_nat n\<bar> - 52) = 2 ^ Suc k"
    unfolding e by (simp only: power_int_of_nat)
  have nz: "(of_nat n :: rat) \<noteq> 0" using pos by simp
  have "round_double (of_nat n) =
          sgn (of_nat n) * of_int (round_half_even (\<bar>of_nat n\<bar> / 2 powi (binade \<bar>of_nat n\<bar> - 52)))
            * 2 powi (binade \<bar>of_nat n\<bar> - 52)"
    unfolding round_double_def Let_def using nz by (simp only: if_False)
  also have "\<dots> = sgn (of_nat n) * of_int (round_half_even (\<bar>of_nat n\<bar> / 2 ^ Suc k)) * 2 ^ Suc k"
    by (simp only: pw)
  also have "\<dots> = of_int ?m * 2 ^ Suc k"
    using pos by (simp del: power_Suc)
  finally have rd: "round_double (of_nat n) = of_int ?m * 2 ^ Suc k" .
  have lo: "(of_int (2 ^ 52) :: rat) \<le> ?s"
  proof -
    have "(2::nat) ^ 52 * 2 ^ Suc k \<le> n" using b(1) k by (simp add: power_add)
    then have "(of_nat (2 ^ 52 * 2 ^ Suc k) :: rat) \<le> of_nat n" by (simp only: of_nat_le_iff)
    then show ?thesis by (simp add: pos_le_divide_eq)
  qed
  have hi: "?s \<le> of_int (2 ^ 53)"
  proof -
    have "n \<le> 2 ^ 53 * 2 ^ Suc k" using b(2) k by (simp add: power_add)
    then have "(of_nat n :: rat) \<le> of_nat (2 ^ 53 * 2 ^ Suc k)" by (simp only: of_nat_le_iff)
    then show ?thesis by (simp add: pos_divide_le_eq)
  qed
  from round_half_even_ge [OF lo] have mlo: "2 ^ 52 \<le> ?m" .
  from round_half_even_le [OF hi] have mhi: "?m \<le> 2 ^ 53" .
  define m where "m = nat ?m"
  have m: "?m = int m" "0 < m" "m \<le> 2 ^ 53"
    using mlo mhi by (simp_all add: m_def nat_le_iff)
  have r: "round_double (of_nat n) = of_nat (m * 2 ^ Suc k)"
    using rd m(1) by simp
  have bound: "m * 2 ^ Suc k \<le> 9000000000000000000"
  proof (cases "k = 9")
    case True
    have "(of_nat n :: rat) \<le> of_nat 9000000000000000000" using assms by (simp only: of_nat_le_iff)
    then have "?s \<le> of_int 8789062500000000" using True by simp
    from round_half_even_le [OF this] m(1) have "m \<le> 8789062500000000" by simp
    then have "m * 2 ^ Suc k \<le> 8789062500000000 * 2 ^ Suc k" by (rule mult_le_mono1)
    then show ?thesis using True by simp
  next
    case False
    with k10 have "Suc k \<le> 9" by simp
    then have "(2::nat) ^ Suc k \<le> 2 ^ 9" by (rule power_increasing) simp
    with m(3) have "m * 2 ^ Suc k \<le> 2 ^ 53 * 2 ^ 9" by (rule mult_le_mono)
    then show ?thesis by simp
  qed
  from round_double_nat [OF m(2,3), of "Suc k"] r bound show ?thesis by blast
qed

lemma sint_int64_of_nat: "r < 2 ^ 63 \<Longrightarrow> sint (of_nat r :: int64) = int r"
proof -
  assume "r < 2 ^ 63"
  then have "int r < 2 ^ 63" by simp
  moreover have "- (2 ^ 63) \<le> int r" by simp
  ultimately have "signed_take_bit 63 (int r) = int r"
    by (simp only: signed_take_bit_int_eq_self)
  then show ?thesis by (simp add: signed_of_nat)
qed

lemma round_double_9e18:
  "round_double 9000000000000000000 = 9000000000000000000"
  "round_double (- 9000000000000000000) = - 9000000000000000000"
proof -
  have "round_double (of_nat (8789062500000000 * 2 ^ 10)) = of_nat (8789062500000000 * 2 ^ 10)"
    by (rule round_double_nat) simp_all
  then show a: "round_double 9000000000000000000 = 9000000000000000000" by simp
  show "round_double (- 9000000000000000000) = - 9000000000000000000"
    using a by (simp only: round_double_minus)
qed

text \<open>\<^verbatim>\<open>eval_number\<close> on a double that is a natural number up to \<open>9 * 10^18\<close>.\<close>

lemma eval_number_nat:
  assumes "r \<le> 9000000000000000000" "round_double (of_nat r) = of_nat r"
  shows "eval_number (binary64 pw sd pp) (of_nat r) = VInt (of_nat r)"
proof -
  have r63: "r < 2 ^ 63" using assms(1) by simp
  have t: "truncate (of_nat r) = int r" by (simp add: truncate_def)
  have "int r < 2 ^ 63" using r63 by simp
  then have cast: "double_to_int64 (of_nat r) = of_nat r"
    by (simp add: double_to_int64_def t Let_def)
  have conv: "int64_to_double (of_nat r) = of_nat r"
    using assms(2) by (simp add: int64_to_double_def sint_int64_of_nat [OF r63])
  have lo: "int64_to_double (- 9000000000000000000) = - 9000000000000000000"
    by (simp add: int64_to_double_def round_double_9e18)
  have hi: "int64_to_double 9000000000000000000 = 9000000000000000000"
    by (simp add: int64_to_double_def round_double_9e18)
  have le: "(of_nat r :: rat) \<le> 9000000000000000000"
    using assms(1) by (metis of_nat_le_iff of_nat_numeral)
  have ge: "- 9000000000000000000 \<le> (of_nat r :: rat)"
    by (rule order_trans [of _ 0]) simp_all
  show ?thesis
    using le ge by (simp add: eval_number_def binary64_def d_le_def cast conv lo hi)
qed

lemma eval_number_small:
  "n < 2 ^ 53 \<Longrightarrow> eval_number (binary64 pw sd pp) (of_nat n) = VInt (of_nat n)"
  by (rule eval_number_nat) (simp_all add: round_double_small_nat)

lemma eval_number_numeral [simp]:
  "numeral w < (9007199254740992 :: nat)
   \<Longrightarrow> eval_number (binary64 pw sd pp) (numeral w) = VInt (numeral w)"
  using eval_number_small [of "numeral w" pw sd pp] by simp

lemma eval_number_0_1 [simp]:
  "eval_number (binary64 pw sd pp) 0 = VInt 0"
  "eval_number (binary64 pw sd pp) 1 = VInt 1"
  using eval_number_small [of 0 pw sd pp] eval_number_small [of 1 pw sd pp] by simp_all


subsection \<open>Reading a double from a string\<close>

text \<open>
  \<^verbatim>\<open>std::stod\<close> calls \<^verbatim>\<open>strtod\<close>: white space is skipped, then come an optional sign and
  the longest text that is a decimal number (digits with an optional point, at least one
  digit, and an optional exponent \<^verbatim>\<open>e\<close> with its own sign and digits) or a hexadecimal one
  (\<^verbatim>\<open>0x\<close>, hexadecimal digits with an optional point, an optional binary exponent \<^verbatim>\<open>p\<close>);
  what follows is ignored. \<open>exact_value\<close> is the number that this text denotes, or
  \<open>None\<close> when there is no such text, and \<^verbatim>\<open>stod\<close> throws \<^verbatim>\<open>std::invalid_argument\<close>. The
  texts \<^verbatim>\<open>inf\<close> and \<^verbatim>\<open>nan\<close>, whose values the instance does not have, count as no number
  here.
\<close>

definition isxdigit :: "char \<Rightarrow> bool" where
  "isxdigit c = (isdigit c \<or> (65 \<le> (of_char c :: nat) \<and> (of_char c :: nat) \<le> 70)
                 \<or> (97 \<le> (of_char c :: nat) \<and> (of_char c :: nat) \<le> 102))"

definition xdigit_val :: "char \<Rightarrow> int" where
  "xdigit_val c = (if isdigit c then int (of_char c) - 48
                   else if (of_char c :: nat) \<le> 70 then int (of_char c) - 55
                   else int (of_char c) - 87)"

definition xdigits_value :: "string \<Rightarrow> int" where
  "xdigits_value ds = foldl (\<lambda>a c. 16 * a + xdigit_val c) 0 ds"

text \<open>An optional sign: whether it is a minus, and the rest.\<close>

definition split_sign :: "string \<Rightarrow> bool \<times> string" where
  "split_sign s =
     (case s of
        c # r \<Rightarrow> if c = CHR ''-'' then (True, r) else if c = CHR ''+'' then (False, r)
                 else (False, s)
      | [] \<Rightarrow> (False, s))"

text \<open>The exponent part that starts with one of the two marks, when its digits are
  there; otherwise there is none and the exponent is 0.\<close>

definition exponent_part :: "char \<Rightarrow> char \<Rightarrow> string \<Rightarrow> int" where
  "exponent_part lower upper s =
     (case s of
        c # r \<Rightarrow>
          if c = lower \<or> c = upper
          then (let (neg, t) = split_sign r; ds = takeWhile isdigit t
                in if ds = [] then 0 else if neg then - digits_value ds else digits_value ds)
          else 0
      | [] \<Rightarrow> 0)"

text \<open>Digits with an optional point: the digits before it, those after it, and the
  rest.\<close>

definition split_point :: "(char \<Rightarrow> bool) \<Rightarrow> string \<Rightarrow> string \<times> string \<times> string" where
  "split_point digit s =
     (let ip = takeWhile digit s; r = dropWhile digit s
      in case r of
           c # t \<Rightarrow> if c = CHR ''.'' then (ip, takeWhile digit t, dropWhile digit t)
                    else (ip, [], r)
         | [] \<Rightarrow> (ip, [], r))"

definition decimal_value :: "string \<Rightarrow> rat option" where
  "decimal_value s =
     (let (ip, fp, r) = split_point isdigit s
      in if ip = [] \<and> fp = [] then None
         else Some (of_int (digits_value (ip @ fp)) / 10 ^ length fp
                    * 10 powi exponent_part (CHR ''e'') (CHR ''E'') r))"

definition hexadecimal_value :: "string \<Rightarrow> rat option" where
  "hexadecimal_value s =
     (let (ip, fp, r) = split_point isxdigit s
      in if ip = [] \<and> fp = [] then None
         else Some (of_int (xdigits_value (ip @ fp)) / 16 ^ length fp
                    * 2 powi exponent_part (CHR ''p'') (CHR ''P'') r))"

definition exact_value :: "string \<Rightarrow> rat option" where
  "exact_value s =
     (let (neg, t) = split_sign (dropWhile isspace s);
          hex = (case t of
                   z # x # r \<Rightarrow>
                     if z = CHR ''0'' \<and> (x = CHR ''x'' \<or> x = CHR ''X'') then hexadecimal_value r
                     else None
                 | _ \<Rightarrow> None)
      in map_option (\<lambda>q. if neg then - q else q)
           (case hex of Some q \<Rightarrow> Some q | None \<Rightarrow> decimal_value t))"

text \<open>
  The result is the double nearest to the exact value. For a value that is not zero and
  whose magnitude is not in the range of the normal doubles, from \<open>2^-1022\<close> up to the
  midpoint \<open>2^1024 - 2^970\<close> above the largest one, \<^verbatim>\<open>strtod\<close> reports \<^verbatim>\<open>ERANGE\<close> and
  \<^verbatim>\<open>stod\<close> throws \<^verbatim>\<open>std::out_of_range\<close> (the instance has no subnormal values). \<open>None\<close>
  is either exception.
\<close>

definition strtod :: "string \<Rightarrow> double option" where
  "strtod s =
     (case exact_value s of
        None \<Rightarrow> None
      | Some q \<Rightarrow>
          if q = 0 then Some 0
          else if 1 / 2 ^ 1022 \<le> \<bar>q\<bar> \<and> \<bar>q\<bar> < 2 ^ 1024 - 2 ^ 970 then Some (round_double q)
          else None)"


section \<open>Properties of the evaluator\<close>

text \<open>
  The concrete runs below use the arithmetic \<open>binary64\<close> with \<open>strtod\<close>, and with
  placeholders for what no program run here calls (\<^verbatim>\<open>std::pow\<close> and the parser); they
  start from the state of a new interpreter with no input and no files.
\<close>

definition plain_platform :: "double Platform" where
  "plain_platform = binary64 (\<lambda>a b. 0) strtod (\<lambda>toks. Inl (ParseError []))"

definition fresh :: "double Interpreter" where
  "fresh = Interpreter_init [] Map.empty (\<lambda>p. False)"

text \<open>The equations of \<open>eval\<close>, applied to a node.\<close>

lemma eval_0 [simp]: "eval 0 P node env st = OutOfFuel"
  by simp

lemma eval_Suc [simp]: "eval (Suc k) P node env st = eval_node k P (eval k P) node env st"
  by simp

lemma eval_numeral [simp]:
  "eval (numeral n) P node env st
     = eval_node (pred_numeral n) P (eval (pred_numeral n) P) node env st"
  by (simp add: numeral_eq_Suc)

lemma eval_1 [simp]: "eval 1 P node env st = eval_node 0 P (eval 0 P) node env st"
  using eval_Suc [of 0] by (simp del: eval_Suc)

declare eval.simps [simp del]

lemma get_var_fresh_undefined: "get_var fresh 0 ''undefined_var'' = None"
  by (simp add: get_var_def fresh_def Interpreter_init_def env_get.simps global_builtins_def)

subsection \<open>The operators and, or\<close>

text \<open>
  C1 (as amended). \<^verbatim>\<open>eval_binary\<close> evaluates both operands of \<^verbatim>\<open>and\<close> and \<^verbatim>\<open>or\<close>, the
  left one first, before it looks at the operator. When both evaluate to values,
  \<^verbatim>\<open>L or R\<close> is the value of \<open>L\<close> if that is truthy and the value of \<open>R\<close> otherwise, and
  \<^verbatim>\<open>L and R\<close> is the value of \<open>R\<close> if the value of \<open>L\<close> is truthy and the value of \<open>L\<close>
  otherwise. When the right operand raises, the operator raises that error, whatever the
  value of the left operand.
\<close>

theorem and_or_evaluate_both_operands:
  assumes "eval k P L env st = Normal l st1"
  shows "(eval k P R env st1 = Normal r st2 \<longrightarrow>
            eval (Suc k) P (BinaryOp L T_Or R) env st
              = Normal (if is_truthy P st2 l then l else r) st2 \<and>
            eval (Suc k) P (BinaryOp L T_And R) env st
              = Normal (if is_truthy P st2 l then r else l) st2) \<and>
         (eval k P R env st1 = Throw e st2 \<longrightarrow>
            eval (Suc k) P (BinaryOp L T_Or R) env st = Throw e st2 \<and>
            eval (Suc k) P (BinaryOp L T_And R) env st = Throw e st2)"
  using assms by (simp add: eval_node_def eval_binary_def binary_op_def)

theorem and_or_evaluate_both_operands_witness:
  "eval 1 plain_platform (BoolLiteral True) 0 fresh = Normal (VBool True) fresh \<and>
   eval 1 plain_platform (Identifier ''undefined_var'') 0 fresh
     = Throw (BoaRuntimeError (''Undefined variable '' @ quoted ''undefined_var'')) fresh \<and>
   eval 2 plain_platform (BinaryOp (BoolLiteral True) T_Or (Identifier ''undefined_var'')) 0 fresh
     = Throw (BoaRuntimeError (''Undefined variable '' @ quoted ''undefined_var'')) fresh \<and>
   eval 1 plain_platform (NumberLiteral 1) 0 fresh = Normal (VInt 1) fresh \<and>
   eval 1 plain_platform (NumberLiteral 2) 0 fresh = Normal (VInt 2) fresh \<and>
   eval 2 plain_platform (BinaryOp (NumberLiteral 1) T_And (NumberLiteral 2)) 0 fresh
     = Normal (VInt 2) fresh \<and>
   eval 2 plain_platform (BinaryOp (NumberLiteral 1) T_Or (NumberLiteral 2)) 0 fresh
     = Normal (VInt 1) fresh"
proof -
  have l: "eval 1 plain_platform (BoolLiteral True) 0 fresh = Normal (VBool True) fresh"
    by (simp add: eval_node_def)
  have r: "eval 1 plain_platform (Identifier ''undefined_var'') 0 fresh
     = Throw (BoaRuntimeError (''Undefined variable '' @ quoted ''undefined_var'')) fresh"
    by (simp add: eval_node_def eval_identifier_def get_var_fresh_undefined throw_error_def)
  have one: "eval 1 plain_platform (NumberLiteral 1) 0 fresh = Normal (VInt 1) fresh"
    by (simp add: eval_node_def plain_platform_def)
  have two: "eval 1 plain_platform (NumberLiteral 2) 0 fresh = Normal (VInt 2) fresh"
    by (simp add: eval_node_def plain_platform_def)
  have t: "is_truthy plain_platform fresh (VInt 1)"
    by simp
  from and_or_evaluate_both_operands [of 1 plain_platform "BoolLiteral True" 0 fresh, OF l]
    and_or_evaluate_both_operands [of 1 plain_platform "NumberLiteral 1" 0 fresh, OF one,
      of "NumberLiteral 2" "VInt 2" fresh]
    l r one two t show ?thesis
    by simp
qed

text \<open>
  The claim as stated fails: \<^verbatim>\<open>true or undefined_var\<close> raises the error of its right
  operand, and so does \<^verbatim>\<open>false and undefined_var\<close>.
\<close>

theorem short_circuit_counterexample:
  "eval 2 plain_platform (BinaryOp (BoolLiteral True) T_Or (Identifier ''undefined_var'')) 0 fresh
     \<noteq> Normal (VBool True) fresh \<and>
   eval 2 plain_platform (BinaryOp (BoolLiteral True) T_Or (Identifier ''undefined_var'')) 0 fresh
     = Throw (BoaRuntimeError (''Undefined variable '' @ quoted ''undefined_var'')) fresh \<and>
   eval 2 plain_platform (BinaryOp (BoolLiteral False) T_And (Identifier ''undefined_var'')) 0 fresh
     = Throw (BoaRuntimeError (''Undefined variable '' @ quoted ''undefined_var'')) fresh"
  by (simp add: eval_node_def eval_binary_def eval_identifier_def
        get_var_fresh_undefined throw_error_def)

subsection \<open>try and finally\<close>

lemmas run_simps = eval_node_def exec_body_def eval_assignment_def eval_identifier_def
  throw_error_def

lemma env_find_fresh_0: "vars (env_heap st 0) name = None \<Longrightarrow> parent (env_heap st 0) = None
  \<Longrightarrow> env_find (env_heap st) 0 name = None"
  by (simp add: env_find.simps)

lemma fresh_simps [simp]:
  "env_heap fresh 0 = \<lparr>parent = None, vars = global_builtins\<rparr>"
  "global_env fresh = 0" "env_next fresh = 1" "list_next fresh = 0" "dict_next fresh = 0"
  "module_next fresh = 2" "list_heap fresh = (\<lambda>a. [])" "capture_output fresh = False"
  "std_cout fresh = []" "captured fresh = []" "base_dir fresh = ''.''" "files fresh = Map.empty"
  "module_cache fresh = [''io'' \<mapsto> VModule 0, ''fs'' \<mapsto> VModule 1]"
  by (simp_all add: fresh_def Interpreter_init_def)

text \<open>
  C3. When the try body ends without an error, \<^verbatim>\<open>eval_try\<close> returns its value at once
  (\<^verbatim>\<open>return exec_body(n->try_body, env)\<close>): the finally body is not run, whereas it is
  run on the two paths through a \<^verbatim>\<open>catch\<close> clause. The claim asks for the finally body in
  every case.
\<close>

theorem finally_not_run_when_try_succeeds:
  assumes "exec_body ev try_body env st = Normal v st1"
  shows "eval_try ev try_body except_var except_body finally_body env st = Normal v st1"
  using assms by (simp add: eval_try_def)

text \<open>
  The program \<^verbatim>\<open>try: x = 1\<close> / \<^verbatim>\<open>finally: y = 2\<close> leaves \<open>y\<close> undefined, while
  \<^verbatim>\<open>try: undefined_var\<close> / \<^verbatim>\<open>finally: y = 2\<close> defines \<open>y\<close> before the error goes on.
\<close>

theorem finally_not_run_when_try_succeeds_witness:
  "exec_body (eval 2 plain_platform) [Assignment (Identifier ''x'') T_Eq (NumberLiteral 1)] 0 fresh
     = Normal (VInt 1) (set_var 0 ''x'' (VInt 1) fresh) \<and>
   eval 3 plain_platform
     (TryStmt [Assignment (Identifier ''x'') T_Eq (NumberLiteral 1)] [] []
        [Assignment (Identifier ''y'') T_Eq (NumberLiteral 2)]) 0 fresh
     = Normal (VInt 1) (set_var 0 ''x'' (VInt 1) fresh) \<and>
   get_var (set_var 0 ''x'' (VInt 1) fresh) 0 ''y'' = None \<and>
   eval 3 plain_platform
     (TryStmt [ExpressionStmt (Identifier ''undefined_var'')] [] []
        [Assignment (Identifier ''y'') T_Eq (NumberLiteral 2)]) 0 fresh
     = Throw (BoaRuntimeError (''Undefined variable '' @ quoted ''undefined_var''))
         (set_var 0 ''y'' (VInt 2) fresh)"
proof -
  have body: "exec_body (eval 2 plain_platform)
      [Assignment (Identifier ''x'') T_Eq (NumberLiteral 1)] 0 fresh
     = Normal (VInt 1) (set_var 0 ''x'' (VInt 1) fresh)"
    by (simp add: run_simps plain_platform_def)
  have y: "get_var (set_var 0 ''x'' (VInt 1) fresh) 0 ''y'' = None"
    by (simp add: get_var_def set_var_def env_set_def env_define_def env_find.simps
          env_get.simps global_builtins_def)
  have err: "eval 3 plain_platform
     (TryStmt [ExpressionStmt (Identifier ''undefined_var'')] [] []
        [Assignment (Identifier ''y'') T_Eq (NumberLiteral 2)]) 0 fresh
     = Throw (BoaRuntimeError (''Undefined variable '' @ quoted ''undefined_var''))
         (set_var 0 ''y'' (VInt 2) fresh)"
    by (simp add: run_simps plain_platform_def eval_try_def handle_def run_finally_def
          get_var_fresh_undefined)
  have "eval 3 plain_platform
     (TryStmt [Assignment (Identifier ''x'') T_Eq (NumberLiteral 1)] [] []
        [Assignment (Identifier ''y'') T_Eq (NumberLiteral 2)]) 0 fresh
     = Normal (VInt 1) (set_var 0 ''x'' (VInt 1) fresh)"
    using finally_not_run_when_try_succeeds [OF body]
    by (simp add: eval_node_def)
  with body y err show ?thesis by simp
qed

lemma plain_platform_simps [simp]:
  "d_of_int plain_platform = int64_to_double"
  "d_to_int plain_platform = double_to_int64"
  "d_eq plain_platform = (=)"
  "d_lt plain_platform = (<)"
  "d_show plain_platform = fmt_g"
  "eval_number plain_platform = eval_number (binary64 (\<lambda>a b. 0) strtod (\<lambda>toks. Inl (ParseError [])))"
  by (simp_all add: plain_platform_def binary64_def)

lemma truncate_of_int [simp]: "truncate (of_int z) = z"
  by (simp add: truncate_def)

lemma truncate_signed [simp]: "truncate (signed i) = sint i"
  using truncate_of_int [of "sint i"] by (simp only: of_int_sint)

lemma int64_double_roundtrip:
  assumes "\<bar>sint i\<bar> < 2 ^ 53"
  shows "double_to_int64 (int64_to_double i) = i"
proof -
  have "round_double (of_int (sint i)) = of_int (sint i)"
    using assms by (rule round_double_small_int)
  then have "int64_to_double i = of_int (sint i)"
    by (simp only: int64_to_double_def)
  moreover have "- (2 ^ 63) \<le> sint i" "sint i < 2 ^ 63" using assms by simp_all
  ultimately show ?thesis by (simp add: double_to_int64_def Let_def)
qed

lemma int64_double_roundtrip_numeral [simp]:
  "double_to_int64 (int64_to_double 0) = 0"
  "double_to_int64 (int64_to_double 1) = 1"
  by (simp_all add: int64_double_roundtrip)

subsection \<open>Assignment to a name\<close>

text \<open>The environments that the loop of \<^verbatim>\<open>Environment::set\<close> visits, innermost first.\<close>

function env_chain :: "(nat \<Rightarrow> 'f Environment) \<Rightarrow> nat \<Rightarrow> nat list" where
  "env_chain h e =
     e # (case parent (h e) of None \<Rightarrow> [] | Some p \<Rightarrow> if p < e then env_chain h p else [])"
  by pat_completeness auto
termination
  by (relation "measure (\<lambda>(h, e). e)") auto

declare env_chain.simps [simp del]

lemma env_find_chain:
  "env_find h e name = find (\<lambda>a. vars (h a) name \<noteq> None) (env_chain h e)"
proof (induction h e name rule: env_find.induct)
  case (1 h e name)
  show ?case
  proof (cases "vars (h e) name \<noteq> None")
    case True
    then show ?thesis
      by (subst env_find.simps, subst env_chain.simps) simp
  next
    case False
    note nf = this
    show ?thesis
    proof (cases "parent (h e)")
      case None
      with nf show ?thesis
        by (subst env_find.simps, subst env_chain.simps) simp
    next
      case (Some p)
      show ?thesis
      proof (cases "p < e")
        case True
        from "1.IH" [OF _ Some True] nf
        have "env_find h p name = find (\<lambda>a. vars (h a) name \<noteq> None) (env_chain h p)" by simp
        with nf Some True show ?thesis
          by (subst env_find.simps, subst env_chain.simps) simp
      next
        case False
        with nf Some show ?thesis
          by (subst env_find.simps, subst env_chain.simps) simp
      qed
    qed
  qed
qed

lemma env_get_define_same:
  "env_get (env_define h a name v) a name = Some v"
  by (subst env_get.simps) (simp add: env_define_def)

lemma env_get_define_up:
  assumes "vars (h e) name = None" "parent (h e) = Some p" "p < e"
  shows "env_get (env_define h a name v) e name
           = (if a = e then Some v else env_get (env_define h a name v) p name)"
  using assms by (subst env_get.simps) (simp add: env_define_def)

text \<open>After \<^verbatim>\<open>set(name, val)\<close> on an environment, \<^verbatim>\<open>get(name)\<close> on it gives \<open>val\<close>.\<close>

lemma env_get_after_set: "env_get (env_set h e name v) e name = Some v"
proof (induction h e name rule: env_find.induct)
  case (1 h e name)
  show ?case
  proof (cases "vars (h e) name \<noteq> None")
    case True
    then have "env_find h e name = Some e" by (subst env_find.simps) simp
    then show ?thesis by (simp add: env_set_def env_get_define_same)
  next
    case False
    note nf = this
    show ?thesis
    proof (cases "parent (h e)")
      case None
      with nf have "env_find h e name = None" by (subst env_find.simps) simp
      then show ?thesis by (simp add: env_set_def env_get_define_same)
    next
      case (Some p)
      show ?thesis
      proof (cases "p < e")
        case False
        with nf Some have "env_find h e name = None" by (subst env_find.simps) simp
        then show ?thesis by (simp add: env_set_def env_get_define_same)
      next
        case True
        from nf Some True have up: "env_find h e name = env_find h p name"
          by (subst env_find.simps) simp
        from "1.IH" [OF _ Some True] nf have IH: "env_get (env_set h p name v) p name = Some v"
          by simp
        show ?thesis
        proof (cases "env_find h p name")
          case None
          with up show ?thesis by (simp add: env_set_def env_get_define_same)
        next
          case (Some owner)
          with IH have "env_get (env_define h owner name v) p name = Some v"
            by (simp add: env_set_def)
          moreover from nf have "vars (h e) name = None" by simp
          ultimately show ?thesis
            using up Some env_get_define_up [of h e name p owner v] \<open>parent (h e) = Some p\<close> True
            by (simp add: env_set_def split: if_splits)
        qed
      qed
    qed
  qed
qed

lemmas call_simps = eval_call_def call_function_def eval_fndef_def new_env_def define_var_def
  set_var_def get_var_def env_set_def env_define_def env_find.simps env_get.simps
  global_builtins_def builtin_print_def print_output_def

subsection \<open>Compound assignment\<close>

lemma dict_find_store:
  "values_equal P idx idx \<Longrightarrow> dict_find P idx (dict_store P idx val es) = Some val"
  by (induction es) auto

text \<open>
  C9. For a target that is an index expression or a member access, \<^verbatim>\<open>eval_assignment\<close>
  never looks at the operator: whatever \<open>op\<close> is, the right-hand side, the object and
  the index are evaluated and the right-hand value is stored, as the plain \<^verbatim>\<open>=\<close> does. In
  a list it replaces the element at the position of the index, in a dict it becomes the
  value found under the key (for a key that equals itself), in a module the value of the
  member. For an identifier target each of the four compound operators combines the
  value of the name with the right-hand value (\<^verbatim>\<open>add\<close>, \<^verbatim>\<open>subtract\<close>, \<^verbatim>\<open>multiply\<close>,
  \<^verbatim>\<open>divide\<close>) and stores the result; the value of the statement is the right-hand value.
\<close>

theorem compound_assignment_on_index_or_member_stores_value:
  "eval (Suc k) P (Assignment (IndexExpr object index) op rhs) env st
     = eval (Suc k) P (Assignment (IndexExpr object index) T_Eq rhs) env st \<and>
   eval (Suc k) P (Assignment (MemberAccess object member) op rhs) env st
     = eval (Suc k) P (Assignment (MemberAccess object member) T_Eq rhs) env st \<and>
   (eval k P rhs env st = Normal val st1 \<and> eval k P object env st1 = Normal (VList r) st2 \<and>
    eval k P index env st2 = Normal idx st3 \<and> as_number P idx = Inr d \<and>
    norm_index (d_to_int P d) (size_of (list_heap st3 r)) = Some j \<longrightarrow>
      eval (Suc k) P (Assignment (IndexExpr object index) op rhs) env st
        = Normal val (st3\<lparr>list_heap := (list_heap st3)(r := (list_heap st3 r)[j := val])\<rparr>)) \<and>
   (eval k P rhs env st = Normal val st1 \<and> eval k P object env st1 = Normal (VDict r) st2 \<and>
    eval k P index env st2 = Normal idx st3 \<and> values_equal P idx idx \<longrightarrow>
      (\<exists>st4. eval (Suc k) P (Assignment (IndexExpr object index) op rhs) env st = Normal val st4 \<and>
             dict_find P idx (dict_heap st4 r) = Some val)) \<and>
   (eval k P rhs env st = Normal val st1 \<and> eval k P object env st1 = Normal (VModule r) st2 \<longrightarrow>
      (\<exists>st4. eval (Suc k) P (Assignment (MemberAccess object member) op rhs) env st
               = Normal val st4 \<and>
             members (module_heap st4 r) member = Some val)) \<and>
   (eval k P rhs env st = Normal val st1 \<and> get_var st1 env name = Some existing \<longrightarrow>
      eval (Suc k) P (Assignment (Identifier name) T_PlusEq rhs) env st
        = seq (add P existing val st1) (\<lambda>result st2. Normal val (set_var env name result st2)) \<and>
      eval (Suc k) P (Assignment (Identifier name) T_MinusEq rhs) env st
        = seq (subtract P existing val st1)
            (\<lambda>result st2. Normal val (set_var env name result st2)) \<and>
      eval (Suc k) P (Assignment (Identifier name) T_StarEq rhs) env st
        = seq (multiply P existing val st1)
            (\<lambda>result st2. Normal val (set_var env name result st2)) \<and>
      eval (Suc k) P (Assignment (Identifier name) T_SlashEq rhs) env st
        = seq (divide P existing val st1)
            (\<lambda>result st2. Normal val (set_var env name result st2)))"
proof -
  have index: "eval (Suc k) P (Assignment (IndexExpr object index) op' rhs) env st
     = seq (eval k P rhs env st) (\<lambda>val st1.
         seq (eval k P object env st1) (\<lambda>obj st2.
           seq (eval k P index env st2) (\<lambda>idx st3. assign_index P obj idx val st3)))" for op'
    by (simp add: eval_node_def eval_assignment_def)
  have member: "eval (Suc k) P (Assignment (MemberAccess object member) op' rhs) env st
     = seq (eval k P rhs env st) (\<lambda>val st1.
         seq (eval k P object env st1) (\<lambda>obj st2. assign_member obj member val st2))" for op'
    by (simp add: eval_node_def eval_assignment_def)
  have a: "eval (Suc k) P (Assignment (IndexExpr object index) op rhs) env st
     = eval (Suc k) P (Assignment (IndexExpr object index) T_Eq rhs) env st"
    by (simp only: index)
  have b: "eval (Suc k) P (Assignment (MemberAccess object member) op rhs) env st
     = eval (Suc k) P (Assignment (MemberAccess object member) T_Eq rhs) env st"
    by (simp only: member)
  have c: "eval k P rhs env st = Normal val st1 \<and> eval k P object env st1 = Normal (VList r) st2 \<and>
    eval k P index env st2 = Normal idx st3 \<and> as_number P idx = Inr d \<and>
    norm_index (d_to_int P d) (size_of (list_heap st3 r)) = Some j \<longrightarrow>
      eval (Suc k) P (Assignment (IndexExpr object index) op rhs) env st
        = Normal val (st3\<lparr>list_heap := (list_heap st3)(r := (list_heap st3 r)[j := val])\<rparr>)"
    by (simp add: eval_node_def eval_assignment_def assign_index_def to_int64_def with_number_def)
  have d: "eval k P rhs env st = Normal val st1 \<and> eval k P object env st1 = Normal (VDict r) st2 \<and>
    eval k P index env st2 = Normal idx st3 \<and> values_equal P idx idx \<longrightarrow>
      (\<exists>st4. eval (Suc k) P (Assignment (IndexExpr object index) op rhs) env st = Normal val st4 \<and>
             dict_find P idx (dict_heap st4 r) = Some val)"
    by (simp add: eval_node_def eval_assignment_def assign_index_def dict_find_store)
  have e: "eval k P rhs env st = Normal val st1 \<and> eval k P object env st1 = Normal (VModule r) st2 \<longrightarrow>
      (\<exists>st4. eval (Suc k) P (Assignment (MemberAccess object member) op rhs) env st
               = Normal val st4 \<and>
             members (module_heap st4 r) member = Some val)"
    by (simp add: eval_node_def eval_assignment_def assign_member_def)
  have f: "eval k P rhs env st = Normal val st1 \<and> get_var st1 env name = Some existing \<longrightarrow>
      eval (Suc k) P (Assignment (Identifier name) T_PlusEq rhs) env st
        = seq (add P existing val st1) (\<lambda>result st2. Normal val (set_var env name result st2)) \<and>
      eval (Suc k) P (Assignment (Identifier name) T_MinusEq rhs) env st
        = seq (subtract P existing val st1)
            (\<lambda>result st2. Normal val (set_var env name result st2)) \<and>
      eval (Suc k) P (Assignment (Identifier name) T_StarEq rhs) env st
        = seq (multiply P existing val st1)
            (\<lambda>result st2. Normal val (set_var env name result st2)) \<and>
      eval (Suc k) P (Assignment (Identifier name) T_SlashEq rhs) env st
        = seq (divide P existing val st1)
            (\<lambda>result st2. Normal val (set_var env name result st2))"
    by (simp add: eval_node_def eval_assignment_def compound_op_def)
  from a b c d e f show ?thesis by blast
qed

lemma fresh_heaps [simp]:
  "dict_heap fresh = (\<lambda>a. [])"
  "module_heap fresh = (\<lambda>a. \<lparr>mod_name = [], members = Map.empty\<rparr>)
                      (0 := \<lparr>mod_name = ''io'', members = io_members\<rparr>,
                       1 := \<lparr>mod_name = ''fs'', members = fs_members\<rparr>)"
  by (simp_all add: fresh_def Interpreter_init_def)

lemma double_to_int64_0 [simp]: "double_to_int64 0 = 0"
  by (simp add: double_to_int64_def truncate_def)

text \<open>
  The four kinds of target, each after the statement that binds the name:
  \<^verbatim>\<open>l = [1, 2]\<close> then \<^verbatim>\<open>l[0] += 5\<close>; \<^verbatim>\<open>d = {1: 2}\<close> then \<^verbatim>\<open>d[1] *= 5\<close>; \<^verbatim>\<open>imp io\<close> then
  \<^verbatim>\<open>io.x -= 5\<close>; \<^verbatim>\<open>x = 10\<close> then \<^verbatim>\<open>x -= 3\<close>.
\<close>

theorem compound_assignment_on_index_or_member_stores_value_witness:
  "exec 3 plain_platform
     [Assignment (Identifier ''l'') T_Eq (ListLiteral [NumberLiteral 1, NumberLiteral 2])] fresh
     = Normal (VList 0)
         (set_var 0 ''l'' (VList 0)
            (fresh\<lparr>list_heap := (list_heap fresh)(0 := [VInt 1, VInt 2]), list_next := 1\<rparr>)) \<and>
   eval 2 plain_platform
     (Assignment (IndexExpr (Identifier ''l'') (NumberLiteral 0)) T_PlusEq (NumberLiteral 5)) 0
     (set_var 0 ''l'' (VList 0)
        (fresh\<lparr>list_heap := (list_heap fresh)(0 := [VInt 1, VInt 2]), list_next := 1\<rparr>))
     = Normal (VInt 5)
         (set_var 0 ''l'' (VList 0)
            (fresh\<lparr>list_heap := (list_heap fresh)(0 := [VInt 5, VInt 2]), list_next := 1\<rparr>)) \<and>
   exec 3 plain_platform
     [Assignment (Identifier ''d'') T_Eq (DictLiteral [(NumberLiteral 1, NumberLiteral 2)])] fresh
     = Normal (VDict 0)
         (set_var 0 ''d'' (VDict 0)
            (fresh\<lparr>dict_heap := (dict_heap fresh)(0 := [(VInt 1, VInt 2)]), dict_next := 1\<rparr>)) \<and>
   (\<exists>st4. eval 2 plain_platform
            (Assignment (IndexExpr (Identifier ''d'') (NumberLiteral 1)) T_StarEq (NumberLiteral 5)) 0
            (set_var 0 ''d'' (VDict 0)
               (fresh\<lparr>dict_heap := (dict_heap fresh)(0 := [(VInt 1, VInt 2)]), dict_next := 1\<rparr>))
            = Normal (VInt 5) st4 \<and>
          dict_find plain_platform (VInt 1) (dict_heap st4 0) = Some (VInt 5)) \<and>
   exec 1 plain_platform [ImportStmt [''io'']] fresh
     = Normal VNone (define_var 0 ''io'' (VModule 0) fresh) \<and>
   (\<exists>st4. eval 2 plain_platform
            (Assignment (MemberAccess (Identifier ''io'') ''x'') T_MinusEq (NumberLiteral 5)) 0
            (define_var 0 ''io'' (VModule 0) fresh)
            = Normal (VInt 5) st4 \<and>
          members (module_heap st4 0) ''x'' = Some (VInt 5)) \<and>
   exec 2 plain_platform [Assignment (Identifier ''x'') T_Eq (NumberLiteral 10)] fresh
     = Normal (VInt 10) (set_var 0 ''x'' (VInt 10) fresh) \<and>
   eval 2 plain_platform (Assignment (Identifier ''x'') T_MinusEq (NumberLiteral 3)) 0
     (set_var 0 ''x'' (VInt 10) fresh)
     = Normal (VInt 3) (set_var 0 ''x'' (VInt 7) (set_var 0 ''x'' (VInt 10) fresh))"
proof -
  let ?P = "plain_platform"
  let ?stl = "set_var 0 ''l'' (VList 0)
     (fresh\<lparr>list_heap := (list_heap fresh)(0 := [VInt 1, VInt 2]), list_next := 1\<rparr>)"
  let ?std = "set_var 0 ''d'' (VDict 0)
     (fresh\<lparr>dict_heap := (dict_heap fresh)(0 := [(VInt 1, VInt 2)]), dict_next := 1\<rparr>)"
  let ?stm = "define_var 0 ''io'' (VModule 0) fresh"
  let ?stx = "set_var 0 ''x'' (VInt 10) fresh"
  note stores = compound_assignment_on_index_or_member_stores_value
  have l0: "exec 3 ?P
     [Assignment (Identifier ''l'') T_Eq (ListLiteral [NumberLiteral 1, NumberLiteral 2])] fresh
     = Normal (VList 0) ?stl"
    by (simp add: exec_def run_simps eval_list_def make_list_def)
  have l1: "eval 1 ?P (NumberLiteral 5) 0 ?stl = Normal (VInt 5) ?stl"
    by (simp add: eval_node_def)
  have l2: "eval 1 ?P (Identifier ''l'') 0 ?stl = Normal (VList 0) ?stl"
    by (simp add: run_simps call_simps)
  have l3: "eval 1 ?P (NumberLiteral 0) 0 ?stl = Normal (VInt 0) ?stl"
    by (simp add: eval_node_def)
  have l4: "as_number ?P (VInt 0) = Inr 0"
    by (simp add: int64_to_double_def round_double_def)
  have l5: "norm_index (d_to_int ?P 0) (size_of (list_heap ?stl 0)) = Some 0"
    by (simp add: norm_index_def size_of_def set_var_def word_sle_eq word_sless_alt)
  from stores [where k = 1 and P = ?P and rhs = "NumberLiteral 5" and env = 0 and st = ?stl
      and val = "VInt 5" and ?st1.0 = ?stl and object = "Identifier ''l''" and r = 0
      and ?st2.0 = ?stl and index = "NumberLiteral 0" and idx = "VInt 0" and ?st3.0 = ?stl
      and d = 0 and j = 0 and op = T_PlusEq] l1 l2 l3 l4 l5
  have l: "eval (Suc 1) ?P
     (Assignment (IndexExpr (Identifier ''l'') (NumberLiteral 0)) T_PlusEq (NumberLiteral 5)) 0 ?stl
     = Normal (VInt 5) (?stl\<lparr>list_heap := (list_heap ?stl)(0 := (list_heap ?stl 0)[0 := VInt 5])\<rparr>)"
    by blast
  have l': "?stl\<lparr>list_heap := (list_heap ?stl)(0 := (list_heap ?stl 0)[0 := VInt 5])\<rparr>
     = set_var 0 ''l'' (VList 0)
         (fresh\<lparr>list_heap := (list_heap fresh)(0 := [VInt 5, VInt 2]), list_next := 1\<rparr>)"
    by (simp add: set_var_def)
  have d0: "exec 3 ?P
     [Assignment (Identifier ''d'') T_Eq (DictLiteral [(NumberLiteral 1, NumberLiteral 2)])] fresh
     = Normal (VDict 0) ?std"
    by (simp add: exec_def run_simps eval_dict_def make_dict_def)
  have d1: "eval 1 ?P (NumberLiteral 5) 0 ?std = Normal (VInt 5) ?std"
    by (simp add: eval_node_def)
  have d2: "eval 1 ?P (Identifier ''d'') 0 ?std = Normal (VDict 0) ?std"
    by (simp add: run_simps call_simps)
  have d3: "eval 1 ?P (NumberLiteral 1) 0 ?std = Normal (VInt 1) ?std"
    by (simp add: eval_node_def)
  have d4: "values_equal ?P (VInt 1) (VInt 1)"
    by simp
  from stores [where k = 1 and P = ?P and rhs = "NumberLiteral 5" and env = 0 and st = ?std
      and val = "VInt 5" and ?st1.0 = ?std and object = "Identifier ''d''" and r = 0
      and ?st2.0 = ?std and index = "NumberLiteral 1" and idx = "VInt 1" and ?st3.0 = ?std
      and op = T_StarEq] d1 d2 d3 d4
  have d: "\<exists>st4. eval (Suc 1) ?P
            (Assignment (IndexExpr (Identifier ''d'') (NumberLiteral 1)) T_StarEq (NumberLiteral 5)) 0
            ?std = Normal (VInt 5) st4 \<and>
          dict_find ?P (VInt 1) (dict_heap st4 0) = Some (VInt 5)"
    by blast
  have m0: "exec 1 ?P [ImportStmt [''io'']] fresh = Normal VNone ?stm"
    by (simp add: exec_def run_simps)
  have m1: "eval 1 ?P (NumberLiteral 5) 0 ?stm = Normal (VInt 5) ?stm"
    by (simp add: eval_node_def)
  have m2: "eval 1 ?P (Identifier ''io'') 0 ?stm = Normal (VModule 0) ?stm"
    by (simp add: run_simps call_simps)
  from stores [where k = 1 and P = ?P and rhs = "NumberLiteral 5" and env = 0 and st = ?stm
      and val = "VInt 5" and ?st1.0 = ?stm and object = "Identifier ''io''" and r = 0
      and ?st2.0 = ?stm and member = "''x''" and op = T_MinusEq] m1 m2
  have m: "\<exists>st4. eval (Suc 1) ?P
            (Assignment (MemberAccess (Identifier ''io'') ''x'') T_MinusEq (NumberLiteral 5)) 0 ?stm
            = Normal (VInt 5) st4 \<and>
          members (module_heap st4 0) ''x'' = Some (VInt 5)"
    by blast
  have x0: "exec 2 ?P [Assignment (Identifier ''x'') T_Eq (NumberLiteral 10)] fresh
     = Normal (VInt 10) ?stx"
    by (simp add: exec_def run_simps)
  have x1: "eval 1 ?P (NumberLiteral 3) 0 ?stx = Normal (VInt 3) ?stx"
    by (simp add: eval_node_def)
  have x2: "get_var ?stx 0 ''x'' = Some (VInt 10)"
    by (simp add: call_simps)
  from stores [where k = 1 and P = ?P and rhs = "NumberLiteral 3" and env = 0 and st = ?stx
      and val = "VInt 3" and ?st1.0 = ?stx and name = "''x''" and existing = "VInt 10"] x1 x2
  have x: "eval (Suc 1) ?P (Assignment (Identifier ''x'') T_MinusEq (NumberLiteral 3)) 0 ?stx
     = seq (subtract ?P (VInt 10) (VInt 3) ?stx)
         (\<lambda>result st2. Normal (VInt 3) (set_var 0 ''x'' result st2))"
    by blast
  from l0 l l' d0 d m0 m x0 x show ?thesis by simp
qed

subsection \<open>Scope of a plain assignment\<close>

text \<open>
  C7. The statement \<^verbatim>\<open>name = rhs\<close> evaluates the right-hand side and calls
  \<^verbatim>\<open>env->set(name, val)\<close>. \<^verbatim>\<open>set\<close> walks the chain of environments from \<open>env\<close> through the
  parents: the first environment on it that binds the name gets the new value, in place,
  and if none binds it the name is defined in \<open>env\<close> itself. In both cases a later
  \<^verbatim>\<open>get\<close> from \<open>env\<close> gives the new value. The program
  \<^verbatim>\<open>x = 1\<close>, \<^verbatim>\<open>fn f(): x = 2\<close>, \<^verbatim>\<open>f()\<close>, \<^verbatim>\<open>print(x)\<close> ends normally, has printed \<open>2\<close>, and
  leaves \<open>x = 2\<close> in the global environment and no \<open>x\<close> in the environment of the call,
  whose parent is the global one.
\<close>

theorem assignment_walks_the_environment_chain:
  "eval (Suc k) P (Assignment (Identifier name) T_Eq rhs) env st
     = seq (eval k P rhs env st) (\<lambda>val st1. Normal val (set_var env name val st1)) \<and>
   set_var env name val st
     = st\<lparr>env_heap :=
          (let h = env_heap st;
               owner = (case find (\<lambda>a. vars (h a) name \<noteq> None) (env_chain h env) of
                          Some a \<Rightarrow> a
                        | None \<Rightarrow> env)
           in h(owner := (h owner)\<lparr>vars := (vars (h owner))(name \<mapsto> val)\<rparr>))\<rparr> \<and>
   get_var (set_var env name val st) env name = Some val \<and>
   (case exec 5 plain_platform
           [Assignment (Identifier ''x'') T_Eq (NumberLiteral 1),
            FnDef ''f'' [] [Assignment (Identifier ''x'') T_Eq (NumberLiteral 2)],
            ExpressionStmt (FunctionCall (Identifier ''f'') []),
            ExpressionStmt (FunctionCall (Identifier ''print'') [Identifier ''x''])] fresh of
      Normal v st' \<Rightarrow>
        get_var st' (global_env st') ''x'' = Some (VInt 2) \<and> std_cout st' = ''2'' @ [c_nl] \<and>
        vars (env_heap st' 1) ''x'' = None \<and> parent (env_heap st' 1) = Some (global_env st')
    | Throw e st' \<Rightarrow> False
    | OutOfFuel \<Rightarrow> False)"
proof -
  have a: "eval (Suc k) P (Assignment (Identifier name) T_Eq rhs) env st
     = seq (eval k P rhs env st) (\<lambda>val st1. Normal val (set_var env name val st1))"
    by (simp add: eval_node_def eval_assignment_def)
  have b: "set_var env name val st
     = st\<lparr>env_heap :=
          (let h = env_heap st;
               owner = (case find (\<lambda>a. vars (h a) name \<noteq> None) (env_chain h env) of
                          Some a \<Rightarrow> a
                        | None \<Rightarrow> env)
           in h(owner := (h owner)\<lparr>vars := (vars (h owner))(name \<mapsto> val)\<rparr>))\<rparr>"
    by (simp only: Let_def env_find_chain [symmetric] set_var_def env_set_def env_define_def)
      (simp split: option.split)
  have c: "get_var (set_var env name val st) env name = Some val"
    by (simp add: get_var_def set_var_def env_get_after_set)
  have d: "(case exec 5 plain_platform
           [Assignment (Identifier ''x'') T_Eq (NumberLiteral 1),
            FnDef ''f'' [] [Assignment (Identifier ''x'') T_Eq (NumberLiteral 2)],
            ExpressionStmt (FunctionCall (Identifier ''f'') []),
            ExpressionStmt (FunctionCall (Identifier ''print'') [Identifier ''x''])] fresh of
      Normal v st' \<Rightarrow>
        get_var st' (global_env st') ''x'' = Some (VInt 2) \<and> std_cout st' = ''2'' @ [c_nl] \<and>
        vars (env_heap st' 1) ''x'' = None \<and> parent (env_heap st' 1) = Some (global_env st')
    | Throw e st' \<Rightarrow> False
    | OutOfFuel \<Rightarrow> False)"
    by (simp add: exec_def run_simps call_simps Let_def int64_to_string_def show_int_def
          show_nat.simps)
  from a b c d show ?thesis by (simp only: simp_thms)
qed

text \<open>
  In the state after \<^verbatim>\<open>x = 1\<close> with a second environment below the global one, an
  assignment to the unbound name \<open>y\<close> from the inner environment defines \<open>y\<close> there and
  not in the global environment, while an assignment to \<open>x\<close> changes the global one.
\<close>

theorem assignment_walks_the_environment_chain_witness:
  "vars (env_heap (set_var 1 ''y'' (VInt 5)
      (snd (new_env (Some 0) (set_var 0 ''x'' (VInt 1) fresh)))) 1) ''y'' = Some (VInt 5) \<and>
   vars (env_heap (set_var 1 ''y'' (VInt 5)
      (snd (new_env (Some 0) (set_var 0 ''x'' (VInt 1) fresh)))) 0) ''y'' = None \<and>
   vars (env_heap (set_var 1 ''x'' (VInt 2)
      (snd (new_env (Some 0) (set_var 0 ''x'' (VInt 1) fresh)))) 1) ''x'' = None \<and>
   vars (env_heap (set_var 1 ''x'' (VInt 2)
      (snd (new_env (Some 0) (set_var 0 ''x'' (VInt 1) fresh)))) 0) ''x'' = Some (VInt 2)"
proof -
  let ?st = "snd (new_env (Some 0) (set_var 0 ''x'' (VInt 1) fresh))"
  have chain: "env_chain (env_heap ?st) 1 = [1, 0]"
    by (simp add: env_chain.simps new_env_def set_var_def env_set_def env_define_def
          env_find.simps global_builtins_def)
  have vars: "vars (env_heap ?st 1) = Map.empty"
    "vars (env_heap ?st 0) ''y'' = None" "vars (env_heap ?st 0) ''x'' = Some (VInt 1)"
    by (simp_all add: new_env_def set_var_def env_set_def env_define_def
          env_find.simps global_builtins_def)
  from assignment_walks_the_environment_chain [of 0 plain_platform "''y''" NoneLiteral 1 ?st "VInt 5",
      THEN conjunct2, THEN conjunct1]
    assignment_walks_the_environment_chain [of 0 plain_platform "''x''" NoneLiteral 1 ?st "VInt 2",
      THEN conjunct2, THEN conjunct1]
    chain vars
  show ?thesis by (simp add: Let_def)
qed

subsection \<open>Import of a module file\<close>

text \<open>
  C2. For a module that is not cached, \<^verbatim>\<open>eval_import\<close> makes the new environment
  \<open>mod_env\<close> below the global one, but \<^verbatim>\<open>exec(program.get())\<close> runs the statements of the
  module in the global environment. When they end normally the import ends normally; the
  members of the module bound to the name are the variables that \<open>mod_env\<close> has after the
  run, and the bindings that the statements made are in the global environment. The
  claim asks for the statements to run in \<open>mod_env\<close> and for their bindings to be the
  members.
\<close>

theorem import_runs_the_module_in_the_global_environment:
  assumes "module_cache st m = None"
    and "files st (base_dir st @ ''/'' @ m @ ''.boa'') = Some src"
    and "tokenize src = Inr toks"
    and "parse_program P toks = Inr program"
    and "new_env (Some (global_env st)) st = (mod_env, st1)"
    and "exec_body ev program (global_env st) st1 = Normal r st2"
  shows "\<exists>a st'. eval_import P ev [m] env st = Normal VNone st' \<and>
           vars (env_heap st' env) m = Some (VModule a) \<and>
           module_cache st' m = Some (VModule a) \<and>
           mod_name (module_heap st' a) = m \<and>
           members (module_heap st' a) = vars (env_heap st2 mod_env) \<and>
           env_heap st' = env_define (env_heap st2) env m (VModule a)"
proof -
  from assms(5) have g: "global_env st1 = global_env st"
    by (auto simp add: new_env_def)
  show ?thesis
    using assms g
    by (simp add: make_module_def define_var_def env_define_def Let_def)
qed

text \<open>
  The parser is not part of this development. For the example the module file \<^verbatim>\<open>m.boa\<close>
  holds the line \<^verbatim>\<open>x = 1\<close>; \<open>parse_module\<close> stands for \<^verbatim>\<open>Parser::parse_program\<close> on the
  tokens of that line, for which \<^verbatim>\<open>parse_assignment_or_expr_stmt\<close> builds the assignment.
\<close>

definition parse_module :: "Token list \<Rightarrow> double Thrown + double ASTNode list" where
  "parse_module toks =
     (if map tok_type toks = [T_Identifier, T_Eq, T_Int, T_Newline, T_Eof] \<and>
         map tok_value (take 3 toks) = [''x'', ''='', ''1'']
      then Inr [Assignment (Identifier ''x'') T_Eq (NumberLiteral 1)]
      else Inl (ParseError ''unexpected token''))"

definition module_platform :: "double Platform" where
  "module_platform = binary64 (\<lambda>a b. 0) strtod parse_module"

definition with_module :: "double Interpreter" where
  "with_module = Interpreter_init [] [''./m.boa'' \<mapsto> ''x = 1\<newline>''] (\<lambda>p. False)"

text \<open>
  With that file, \<^verbatim>\<open>imp m\<close> binds \<open>m\<close> to a module without members and sets the global
  \<open>x\<close> to 1; \<^verbatim>\<open>m.x\<close> then fails and \<^verbatim>\<open>x\<close> is 1.
\<close>

theorem import_runs_the_module_in_the_global_environment_witness:
  "\<exists>a st'. eval 3 module_platform (ImportStmt [''m'']) 0 with_module = Normal VNone st' \<and>
     vars (env_heap st' 0) ''m'' = Some (VModule a) \<and>
     members (module_heap st' a) = Map.empty \<and>
     eval 2 module_platform (MemberAccess (Identifier ''m'') ''x'') 0 st'
       = Throw (BoaRuntimeError (''Module '' @ quoted ''m'' @ '' has no member '' @ quoted ''x'')) st' \<and>
     eval 1 module_platform (Identifier ''x'') 0 st' = Normal (VInt 1) st'"
proof -
  let ?P = "module_platform"
  let ?toks = "[mk_token T_Identifier ''x'' 1 1, mk_token T_Eq ''='' 1 3,
      mk_token T_Int ''1'' 1 5, newline_token 1 6, mk_token T_Eof [] 2 1]"
  let ?st1 = "snd (new_env (Some 0) with_module) :: double Interpreter"
  let ?st2 = "set_var 0 ''x'' (VInt 1) ?st1"
  have c: "module_cache with_module ''m'' = None"
    by (simp add: with_module_def Interpreter_init_def)
  have f: "files with_module (base_dir with_module @ ''/'' @ ''m'' @ ''.boa'') = Some ''x = 1\<newline>''"
    by (simp add: with_module_def Interpreter_init_def)
  have t: "tokenize ''x = 1\<newline>'' = Inr ?toks"
    by code_simp
  have p: "parse_program ?P ?toks = Inr [Assignment (Identifier ''x'') T_Eq (NumberLiteral 1)]"
    by (simp add: module_platform_def binary64_def parse_module_def mk_token_def newline_token_def)
  have n: "new_env (Some (global_env with_module)) with_module = (1, ?st1)"
    by (simp add: new_env_def with_module_def Interpreter_init_def)
  have e: "exec_body (eval 2 ?P) [Assignment (Identifier ''x'') T_Eq (NumberLiteral 1)]
      (global_env with_module) ?st1 = Normal (VInt 1) ?st2"
    by (simp add: run_simps module_platform_def with_module_def Interpreter_init_def)
  from import_runs_the_module_in_the_global_environment [OF c f t p n e, of 0]
  obtain a st' where r: "eval_import ?P (eval 2 ?P) [''m''] 0 with_module = Normal VNone st'"
    "vars (env_heap st' 0) ''m'' = Some (VModule a)"
    "members (module_heap st' a) = vars (env_heap ?st2 1)"
    "env_heap st' = env_define (env_heap ?st2) 0 ''m'' (VModule a)"
    "mod_name (module_heap st' a) = ''m''"
    by blast
  have h: "env_heap ?st2 = (env_heap with_module)
      (1 := \<lparr>parent = Some 0, vars = Map.empty\<rparr>,
       0 := \<lparr>parent = None, vars = global_builtins(''x'' \<mapsto> VInt 1)\<rparr>)"
    by (simp add: set_var_def new_env_def env_set_def env_define_def env_find.simps
          with_module_def Interpreter_init_def global_builtins_def)
  from r(3) h have m: "members (module_heap st' a) = Map.empty"
    by simp
  from r(4) h have h': "env_heap st' 0 = \<lparr>parent = None,
      vars = global_builtins(''x'' \<mapsto> VInt 1, ''m'' \<mapsto> VModule a)\<rparr>"
    by (simp add: env_define_def)
  have x: "eval 1 ?P (Identifier ''x'') 0 st' = Normal (VInt 1) st'"
    using h' by (simp add: eval_node_def eval_identifier_def get_var_def env_get.simps)
  have mx: "eval 2 ?P (MemberAccess (Identifier ''m'') ''x'') 0 st'
     = Throw (BoaRuntimeError (''Module '' @ quoted ''m'' @ '' has no member '' @ quoted ''x'')) st'"
    using h' m r(5)
    by (simp add: eval_node_def eval_identifier_def eval_member_def get_var_def env_get.simps
          throw_error_def)
  have i: "eval 3 ?P (ImportStmt [''m'']) 0 with_module = Normal VNone st'"
    using r(1) by (simp add: eval_node_def)
  from i r(2) m mx x show ?thesis by blast
qed

subsection \<open>The operator **\<close>

lemma int64_mod_2: "0 < sint (e :: int64) \<Longrightarrow> (int64_mod e 2 = 1) = odd (nat (sint e))"
proof -
  assume pos: "0 < sint e"
  have "tdiv (sint e) (sint (2 :: int64)) = sint e div 2"
    using pos by (simp add: tdiv_def)
  then have "tmod (sint e) (sint (2 :: int64)) = sint e mod 2"
    by (simp add: tmod_def minus_mult_div_eq_mod)
  then have m: "int64_mod e 2 = word_of_int (sint e mod 2)"
    by (simp add: int64_mod_def)
  have o: "odd (nat (sint e)) = odd (sint e)"
    using pos by (simp add: even_nat_iff)
  show ?thesis
  proof (cases "odd (sint e)")
    case True
    then have "sint e mod 2 = 1" by (simp add: odd_iff_mod_2_eq_one)
    with m o True show ?thesis by simp
  next
    case False
    then have "sint e mod 2 = 0" by simp
    with m o False show ?thesis by simp
  qed
qed

text \<open>The loop of \<^verbatim>\<open>power\<close> multiplies the result by the power of the base, in \<^verbatim>\<open>int64_t\<close>.\<close>

lemma power_loop_power: "power_loop result base ex = result * base ^ nat (sint ex)"
proof (induction result base ex rule: power_loop.induct)
  case (1 result base ex)
  show ?case
  proof (cases "0 <s ex")
    case False
    then have "sint ex \<le> 0" by (simp add: word_sless_alt)
    with False show ?thesis by (subst power_loop.simps) simp
  next
    case True
    then have pos: "0 < sint ex" by (simp add: word_sless_alt)
    define n where "n = nat (sint ex)"
    have half: "nat (sint (int64_div ex 2)) = n div 2"
      using sint_int64_div_2 [OF pos] pos by (simp add: n_def nat_div_distrib)
    have sq: "(base * base) ^ (n div 2) = base ^ (2 * (n div 2))"
      by (simp add: power_mult power2_eq_square)
    from "1.IH" [OF True] half
    have IH: "power_loop (if int64_mod ex 2 = 1 then result * base else result) (base * base)
                (int64_div ex 2)
              = (if int64_mod ex 2 = 1 then result * base else result) * (base * base) ^ (n div 2)"
      by simp
    have "(if int64_mod ex 2 = 1 then result * base else result) * (base * base) ^ (n div 2)
          = result * base ^ n"
    proof (cases "odd n")
      case True
      then have "n = Suc (2 * (n div 2))" by presburger
      then have "base ^ n = base * base ^ (2 * (n div 2))" by (metis power_Suc)
      with True int64_mod_2 [OF pos] sq show ?thesis by (simp add: n_def mult.assoc)
    next
      case False
      then have "n = 2 * (n div 2)" by presburger
      then have "base ^ n = base ^ (2 * (n div 2))" by simp
      with False int64_mod_2 [OF pos] sq show ?thesis by (simp add: n_def)
    qed
    with IH True show ?thesis
      by (subst power_loop.simps) (simp add: n_def)
  qed
qed

text \<open>
  C4. \<^verbatim>\<open>power\<close> tests \<^verbatim>\<open>right->int_val >= 0\<close> and not the sign of the left operand: for two
  \<^verbatim>\<open>Int\<close> operands with a non-negative exponent the result is the \<^verbatim>\<open>Int\<close> that the loop of
  binary exponentiation computes, the power of the base in \<^verbatim>\<open>int64_t\<close> arithmetic, also for
  a negative base. For two \<^verbatim>\<open>Int\<close> operands with a negative exponent, and when one operand
  is a \<^verbatim>\<open>Float\<close>, the result is the \<^verbatim>\<open>Float\<close> of \<^verbatim>\<open>std::pow\<close>.
\<close>

theorem power_is_int_for_int_operands_and_nonnegative_exponent:
  "eval (Suc k) P (BinaryOp L T_DoubleStar R) env st
     = seq (eval k P L env st) (\<lambda>l st1. seq (eval k P R env st1) (\<lambda>r st2. power P l r st2)) \<and>
   power P (VInt a) (VInt b) st
     = (if 0 \<le> sint b then Normal (VInt (power_loop 1 a b)) st
        else Normal (VFloat (d_pow P (d_of_int P a) (d_of_int P b))) st) \<and>
   power_loop 1 a b = a ^ nat (sint b) \<and>
   power P (VInt a) (VFloat y) st = Normal (VFloat (d_pow P (d_of_int P a) y)) st \<and>
   power P (VFloat x) (VInt b) st = Normal (VFloat (d_pow P x (d_of_int P b))) st \<and>
   power P (VFloat x) (VFloat y) st = Normal (VFloat (d_pow P x y)) st"
  by (simp add: eval_node_def eval_binary_def binary_op_def power_loop_power word_sle_eq
        with_number_def)

text \<open>\<^verbatim>\<open>2 ** 10\<close> is the \<^verbatim>\<open>Int\<close> 1024, \<^verbatim>\<open>(-2) ** 3\<close> the \<^verbatim>\<open>Int\<close> -8, and \<^verbatim>\<open>2 ** -1\<close> a \<^verbatim>\<open>Float\<close>.\<close>

theorem power_is_int_for_int_operands_and_nonnegative_exponent_witness:
  "power plain_platform (VInt 2) (VInt 10) fresh = Normal (VInt 1024) fresh \<and>
   power plain_platform (VInt (- 2)) (VInt 3) fresh = Normal (VInt (- 8)) fresh \<and>
   power plain_platform (VInt 2) (VInt (- 1)) fresh
     = Normal (VFloat (d_pow plain_platform (d_of_int plain_platform 2)
         (d_of_int plain_platform (- 1)))) fresh"
  using power_is_int_for_int_operands_and_nonnegative_exponent [of 0 plain_platform _ _ _ fresh 2 10]
    power_is_int_for_int_operands_and_nonnegative_exponent [of 0 plain_platform _ _ _ fresh "- 2" 3]
    power_is_int_for_int_operands_and_nonnegative_exponent [of 0 plain_platform _ _ _ fresh 2 "- 1"]
  by simp

text \<open>
  The claim as stated fails for a negative \<^verbatim>\<open>Int\<close> base with a non-negative \<^verbatim>\<open>Int\<close>
  exponent: \<^verbatim>\<open>(-2) ** 3\<close> evaluates to the \<^verbatim>\<open>Int\<close> -8 and not to a \<^verbatim>\<open>Float\<close>.
\<close>

theorem power_negative_base_counterexample:
  "eval 3 plain_platform
     (BinaryOp (UnaryOp T_Minus (NumberLiteral 2)) T_DoubleStar (NumberLiteral 3)) 0 fresh
     = Normal (VInt (- 8)) fresh"
  by (simp add: eval_node_def eval_binary_def binary_op_def eval_unary_def power_loop_power
        word_sle_eq)

subsection \<open>str and int\<close>

lemma of_char_digit_char: "d < 10 \<Longrightarrow> (of_char (digit_char d) :: nat) = 48 + d"
  by (simp add: digit_char_def)

lemma isdigit_digit_char: "d < 10 \<Longrightarrow> isdigit (digit_char d)"
  by (simp add: isdigit_def of_char_digit_char)

lemma digit_val_digit_char: "d < 10 \<Longrightarrow> digit_val (digit_char d) = int d"
  by (simp add: digit_val_def of_char_digit_char)

lemma digit_char_digit_val:
  "isdigit c \<Longrightarrow> digit_char (nat (digit_val c)) = c"
proof -
  assume "isdigit c"
  then have b: "48 \<le> (of_char c :: nat)" "(of_char c :: nat) \<le> 57"
    by (simp_all add: isdigit_def)
  then have "nat (digit_val c) = of_char c - 48"
    by (simp add: digit_val_def)
  with b have "48 + nat (digit_val c) = of_char c" by simp
  then show ?thesis by (simp add: digit_char_def)
qed

lemma digit_val_range: "isdigit c \<Longrightarrow> 0 \<le> digit_val c \<and> digit_val c < 10"
  by (auto simp add: isdigit_def digit_val_def)

lemma digits_value_snoc: "digits_value (ds @ [c]) = 10 * digits_value ds + digit_val c"
  by (simp add: digits_value_def)

lemma digits_value_nonneg: "list_all isdigit ds \<Longrightarrow> 0 \<le> digits_value ds"
proof (induction ds rule: rev_induct)
  case Nil
  show ?case by (simp add: digits_value_def)
next
  case (snoc c ds)
  then have "0 \<le> digits_value ds" "0 \<le> digit_val c"
    using digit_val_range [of c] by simp_all
  then show ?case by (simp add: digits_value_snoc)
qed

lemma show_nat_digits: "list_all isdigit (show_nat n) \<and> show_nat n \<noteq> []"
proof (induction n rule: show_nat.induct)
  case (1 n)
  show ?case
  proof (cases "n < 10")
    case True
    then show ?thesis by (subst (1 2) show_nat.simps) (simp add: isdigit_digit_char)
  next
    case False
    with "1.IH" have "list_all isdigit (show_nat (n div 10))" by simp
    with False show ?thesis
      by (subst (1 2) show_nat.simps) (simp add: isdigit_digit_char)
  qed
qed

lemma digits_value_show_nat: "digits_value (show_nat n) = int n"
proof (induction n rule: show_nat.induct)
  case (1 n)
  show ?case
  proof (cases "n < 10")
    case True
    then show ?thesis
      by (subst show_nat.simps) (simp add: digits_value_def digit_val_digit_char)
  next
    case False
    with "1.IH" have "digits_value (show_nat (n div 10)) = int (n div 10)" by simp
    moreover have "10 * int (n div 10) + int (n mod 10) = int n"
      by presburger
    ultimately show ?thesis
      using False
      by (subst show_nat.simps) (simp add: digits_value_snoc digit_val_digit_char)
  qed
qed

text \<open>
  The digit strings that \<^verbatim>\<open>std::to_string\<close> produces for a non-negative number: not empty,
  digits only, and with a first digit 0 only in the string \<open>0\<close> itself.
\<close>

definition canonical_digits :: "string \<Rightarrow> bool" where
  "canonical_digits s = (s \<noteq> [] \<and> list_all isdigit s \<and> (hd s = CHR ''0'' \<longrightarrow> s = ''0''))"

lemma isdigit_not_sign: "isdigit c \<Longrightarrow> \<not> isspace c \<and> c \<noteq> CHR ''-'' \<and> c \<noteq> CHR ''+''"
  by (auto simp add: isdigit_def isspace_def)

lemma stoll_digits:
  assumes "s \<noteq> []" "list_all isdigit s"
  shows "stoll s = (if digits_value s < 2 ^ 63 then Some (word_of_int (digits_value s)) else None)"
proof -
  from assms obtain c r where s: "s = c # r" "isdigit c" by (cases s) auto
  from isdigit_not_sign [OF s(2)] s(1) have d: "dropWhile isspace s = s" by simp
  from assms(2) have t: "takeWhile isdigit s = s"
    by (simp add: list_all_iff)
  from digits_value_nonneg [OF assms(2)] have n: "- (2 ^ 63) \<le> digits_value s" by simp
  have "stoll s =
     (let s1 = s; ds = takeWhile isdigit s1
      in if ds = [] then None
         else let n = digits_value ds
              in if - (2 ^ 63) \<le> n \<and> n < 2 ^ 63 then Some (word_of_int n) else None)"
    unfolding stoll_def d using s isdigit_not_sign [OF s(2)] by (simp add: Let_def)
  also have "\<dots> = (if digits_value s < 2 ^ 63 then Some (word_of_int (digits_value s)) else None)"
    unfolding Let_def t using assms(1) n by simp
  finally show ?thesis .
qed

lemma show_nat_digits_value:
  "canonical_digits s \<Longrightarrow> show_nat (nat (digits_value s)) = s"
proof (induction s rule: rev_induct)
  case Nil
  then show ?case by (simp add: canonical_digits_def)
next
  case (snoc c ds)
  from snoc.prems have c: "isdigit c" and ds: "list_all isdigit ds"
    by (simp_all add: canonical_digits_def)
  note r = digit_val_range [OF c]
  show ?case
  proof (cases "ds = []")
    case True
    with r show ?thesis
      by (subst show_nat.simps)
         (simp add: digits_value_def digit_char_digit_val [OF c] nat_less_iff)
  next
    case False
    with snoc.prems have nz: "hd ds \<noteq> CHR ''0''" by (auto simp add: canonical_digits_def)
    with False ds have can: "canonical_digits ds" by (simp add: canonical_digits_def)
    from snoc.IH [OF can] have IH: "show_nat (nat (digits_value ds)) = ds" .
    have pos: "1 \<le> digits_value ds"
    proof (rule ccontr)
      assume "\<not> 1 \<le> digits_value ds"
      with digits_value_nonneg [OF ds] have "digits_value ds = 0" by simp
      with IH have "ds = show_nat 0" by simp
      then have "ds = ''0''" by (simp add: show_nat.simps)
      with nz show False by simp
    qed
    define v where "v = nat (digits_value ds)"
    define e where "e = nat (digit_val c)"
    from pos r have n: "nat (digits_value (ds @ [c])) = 10 * v + e"
      by (simp add: digits_value_snoc v_def e_def nat_add_distrib nat_mult_distrib)
    from pos have v: "1 \<le> v" by (simp add: v_def)
    from r have e: "e < 10" by (simp add: e_def nat_less_iff)
    from v e have "\<not> 10 * v + e < 10" "(10 * v + e) div 10 = v" "(10 * v + e) mod 10 = e"
      by simp_all
    then have "show_nat (10 * v + e) = show_nat v @ [digit_char e]"
      by (subst show_nat.simps) simp
    with n IH show ?thesis
      by (simp add: v_def e_def digit_char_digit_val [OF c])
  qed
qed

text \<open>
  C6. For a string of digits that is canonical (no leading zero unless it is \<open>0\<close>) and
  whose value is below \<open>2^63\<close>, \<^verbatim>\<open>str(int(s))\<close> evaluates to \<open>s\<close>, in any environment in
  which \<open>str\<close> and \<open>int\<close> are the built-ins. The claim asks for this for every string of
  digits.
\<close>

theorem str_of_int_of_canonical_digits:
  assumes "canonical_digits s"
    and "digits_value s < 2 ^ 63"
    and "get_var st env ''int'' = Some (VBuiltin B_int)"
    and "get_var st env ''str'' = Some (VBuiltin B_str)"
  shows "eval (Suc (Suc (Suc k))) P
           (FunctionCall (Identifier ''str'') [FunctionCall (Identifier ''int'') [StringLiteral s]])
           env st
         = Normal (VString s) st"
proof -
  from assms(1) have d: "s \<noteq> []" "list_all isdigit s"
    by (simp_all add: canonical_digits_def)
  define n where "n = nat (digits_value s)"
  from digits_value_nonneg [OF d(2)] have v: "digits_value s = int n" by (simp add: n_def)
  from assms(2) v have lt: "n < 2 ^ 63" by simp
  from stoll_digits [OF d] assms(2) v have i: "stoll s = Some (of_nat n)" by simp
  from show_nat_digits_value [OF assms(1)] have "show_nat n = s" by (simp add: n_def)
  with sint_int64_of_nat [OF lt] have str: "int64_to_string (of_nat n) = s"
    by (simp add: int64_to_string_def show_int_def)
  from i str assms(3,4) show ?thesis
    by (simp add: eval_node_def eval_call_def eval_identifier_def)
qed

theorem str_of_int_of_canonical_digits_witness:
  "canonical_digits ''42'' \<and> digits_value ''42'' < 2 ^ 63 \<and>
   get_var fresh 0 ''int'' = Some (VBuiltin B_int) \<and>
   get_var fresh 0 ''str'' = Some (VBuiltin B_str) \<and>
   eval 3 plain_platform
     (FunctionCall (Identifier ''str'') [FunctionCall (Identifier ''int'') [StringLiteral ''42'']])
     0 fresh
   = Normal (VString ''42'') fresh"
proof -
  have c: "canonical_digits ''42''"
    by (simp add: canonical_digits_def isdigit_def)
  have v: "digits_value ''42'' < 2 ^ 63"
    by (simp add: digits_value_def digit_val_def)
  have i: "get_var fresh 0 ''int'' = Some (VBuiltin B_int)"
    by (simp add: get_var_def env_get.simps global_builtins_def)
  have s: "get_var fresh 0 ''str'' = Some (VBuiltin B_str)"
    by (simp add: get_var_def env_get.simps global_builtins_def)
  from str_of_int_of_canonical_digits [OF c v i s, of 0 plain_platform] c v i s
  show ?thesis by (simp add: numeral_3_eq_3)
qed

text \<open>
  The claim as stated fails for a string of digits with a leading zero, and for one whose
  value is not an \<^verbatim>\<open>int64_t\<close>: \<^verbatim>\<open>str(int("007"))\<close> is \<open>7\<close>, and
  \<^verbatim>\<open>int("9223372036854775808")\<close> raises an error.
\<close>

theorem str_of_int_counterexample:
  "eval 3 plain_platform
     (FunctionCall (Identifier ''str'') [FunctionCall (Identifier ''int'') [StringLiteral ''007'']])
     0 fresh
   = Normal (VString ''7'') fresh \<and>
   eval 3 plain_platform
     (FunctionCall (Identifier ''str'')
        [FunctionCall (Identifier ''int'') [StringLiteral ''9223372036854775808'']])
     0 fresh
   = Throw (BoaRuntimeError
       (''int: cannot convert '' @ quoted ''9223372036854775808'' @ '' to int'')) fresh"
proof -
  have i: "get_var fresh 0 ''int'' = Some (VBuiltin B_int)"
    by (simp add: get_var_def env_get.simps global_builtins_def)
  have s: "get_var fresh 0 ''str'' = Some (VBuiltin B_str)"
    by (simp add: get_var_def env_get.simps global_builtins_def)
  have a: "stoll ''007'' = Some 7"
    by (simp add: stoll_digits isdigit_def digits_value_def digit_val_def)
  have b: "stoll ''9223372036854775808'' = None"
    by (simp add: stoll_digits isdigit_def digits_value_def digit_val_def)
  have c: "int64_to_string 7 = ''7''"
    by (simp add: int64_to_string_def show_int_def show_nat.simps)
  from i s a b c show ?thesis
    by (simp add: eval_node_def eval_call_def eval_identifier_def throw_error_def)
qed

subsection \<open>Number literals\<close>

text \<open>
  The branch of \<^verbatim>\<open>Parser::parse_atom\<close> for a number token: the text of the token goes
  through \<^verbatim>\<open>std::stod\<close>, whose exception nothing in the parser catches. \<open>None\<close> is any
  other token, for the other branches.
\<close>

definition number_literal :: "'f Platform \<Rightarrow> Token \<Rightarrow> ('f Thrown + 'f ASTNode) option" where
  "number_literal P tok =
     (if tok_type tok = T_Int \<or> tok_type tok = T_Float
      then Some (case stod P (tok_value tok) of
                   None \<Rightarrow> Inl (StdException ''stod'')
                 | Some val \<Rightarrow> Inr (NumberLiteral val))
      else None)"

lemmas exact_value_eval = exact_value_def split_sign_def decimal_value_def hexadecimal_value_def
  split_point_def exponent_part_def isdigit_def isxdigit_def isspace_def digits_value_def
  digit_val_def xdigits_value_def xdigit_val_def Let_def

lemma strtod_nat:
  assumes "exact_value s = Some (of_nat n)" "n \<le> 9000000000000000000"
  shows "strtod s = Some (round_double (of_nat n))"
proof (cases "n = 0")
  case True
  with assms(1) show ?thesis by (simp add: strtod_def round_double_def)
next
  case False
  then have "1 \<le> n" by simp
  then have "(1 :: rat) \<le> of_nat n" by simp
  moreover have "(1 :: rat) / 2 ^ 1022 \<le> 1" by simp
  ultimately have lo: "(1 :: rat) / 2 ^ 1022 \<le> of_nat n" by (rule order_trans [rotated])
  from assms(2) have "(of_nat n :: rat) \<le> of_nat 9000000000000000000"
    by (simp only: of_nat_le_iff)
  then have "(of_nat n :: rat) \<le> 9000000000000000000" by simp
  moreover have "(9000000000000000000 :: rat) < 2 ^ 1024 - 2 ^ 970" by simp
  ultimately have hi: "(of_nat n :: rat) < 2 ^ 1024 - 2 ^ 970" by (rule le_less_trans)
  from False have nz: "(of_nat n :: rat) \<noteq> 0" by simp
  have a: "\<bar>of_nat n :: rat\<bar> = of_nat n" by simp
  show ?thesis
    unfolding strtod_def assms(1) option.case a using nz lo hi by (simp only: if_False if_True simp_thms)
qed

text \<open>
  C10. The text of a number token that denotes a natural number up to \<open>9 * 10^18\<close>,
  whatever its syntax, becomes a literal that evaluates to an \<^verbatim>\<open>Int\<close>, and \<^verbatim>\<open>type\<close> of
  that literal is the string \<open>int\<close>. Below \<open>2^53\<close> the \<^verbatim>\<open>Int\<close> is the number denoted; above,
  it is the number that the nearest double denotes.
\<close>

theorem integer_valued_number_literal_is_int:
  assumes "tok_type tok = T_Int \<or> tok_type tok = T_Float"
    and "exact_value (tok_value tok) = Some (of_nat n)"
    and "n \<le> 9000000000000000000"
  shows "\<exists>val i. number_literal (binary64 pw strtod pp) tok = Some (Inr (NumberLiteral val)) \<and>
           eval (Suc k) (binary64 pw strtod pp) (NumberLiteral val) env st = Normal (VInt i) st \<and>
           (n < 2 ^ 53 \<longrightarrow> i = of_nat n) \<and>
           (get_var st env ''type'' = Some (VBuiltin B_type) \<longrightarrow>
              eval (Suc (Suc k)) (binary64 pw strtod pp)
                (FunctionCall (Identifier ''type'') [NumberLiteral val]) env st
              = Normal (VString ''int'') st)"
proof -
  let ?P = "binary64 pw strtod pp"
  from round_double_nat_9e18 [OF assms(3)] obtain r where
    r: "round_double (of_nat n) = of_nat r" "r \<le> 9000000000000000000"
       "round_double (of_nat r) = of_nat r"
    by blast
  from strtod_nat [OF assms(2,3)] r(1) have s: "stod ?P (tok_value tok) = Some (of_nat r)"
    by (simp add: binary64_def)
  with assms(1) have l: "number_literal ?P tok = Some (Inr (NumberLiteral (of_nat r)))"
    by (simp add: number_literal_def)
  from eval_number_nat [OF r(2,3)] have e: "eval_number ?P (of_nat r) = VInt (of_nat r)" .
  then have v: "eval (Suc k) ?P (NumberLiteral (of_nat r)) env st = Normal (VInt (of_nat r)) st"
    by (simp add: eval_node_def)
  have small: "n < 2 ^ 53 \<longrightarrow> (of_nat r :: int64) = of_nat n"
  proof
    assume "n < 2 ^ 53"
    from round_double_small_nat [OF this] r(1) have "(of_nat r :: rat) = of_nat n" by simp
    then have "r = n" by (simp only: of_nat_eq_iff)
    then show "(of_nat r :: int64) = of_nat n" by simp
  qed
  have t: "get_var st env ''type'' = Some (VBuiltin B_type) \<longrightarrow>
              eval (Suc (Suc k)) ?P (FunctionCall (Identifier ''type'') [NumberLiteral (of_nat r)])
                env st
              = Normal (VString ''int'') st"
    using e by (simp add: eval_node_def eval_call_def eval_identifier_def)
  from l v small t show ?thesis by blast
qed

text \<open>
  The tokens of \<^verbatim>\<open>type(2.0)\<close> and of \<^verbatim>\<open>1e3\<close>: the literals are the \<^verbatim>\<open>Int\<close> values 2 and 1000,
  and \<^verbatim>\<open>type(2.0)\<close> is \<open>int\<close>.
\<close>

theorem integer_valued_number_literal_is_int_witness:
  "tokenize ''type(2.0)''
     = Inr [mk_token T_Identifier ''type'' 1 1, mk_token T_LParen ''('' 1 5,
            mk_token T_Float ''2.0'' 1 6, mk_token T_RParen '')'' 1 9, newline_token 1 10,
            mk_token T_Eof [] 1 10] \<and>
   exact_value ''2.0'' = Some 2 \<and>
   number_literal plain_platform (mk_token T_Float ''2.0'' 1 6) = Some (Inr (NumberLiteral 2)) \<and>
   eval 1 plain_platform (NumberLiteral 2) 0 fresh = Normal (VInt 2) fresh \<and>
   eval 2 plain_platform (FunctionCall (Identifier ''type'') [NumberLiteral 2]) 0 fresh
     = Normal (VString ''int'') fresh \<and>
   tokenize ''1e3''
     = Inr [mk_token T_Float ''1e3'' 1 1, newline_token 1 4, mk_token T_Eof [] 1 4] \<and>
   exact_value ''1e3'' = Some 1000 \<and>
   number_literal plain_platform (mk_token T_Float ''1e3'' 1 1) = Some (Inr (NumberLiteral 1000)) \<and>
   eval 1 plain_platform (NumberLiteral 1000) 0 fresh = Normal (VInt 1000) fresh"
proof -
  have t2: "tokenize ''type(2.0)''
     = Inr [mk_token T_Identifier ''type'' 1 1, mk_token T_LParen ''('' 1 5,
            mk_token T_Float ''2.0'' 1 6, mk_token T_RParen '')'' 1 9, newline_token 1 10,
            mk_token T_Eof [] 1 10]"
    by code_simp
  have t3: "tokenize ''1e3''
     = Inr [mk_token T_Float ''1e3'' 1 1, newline_token 1 4, mk_token T_Eof [] 1 4]"
    by code_simp
  have x2: "exact_value ''2.0'' = Some (of_nat 2)"
    by (simp add: exact_value_eval)
  have x3: "exact_value ''1e3'' = Some (of_nat 1000)"
    by (simp add: exact_value_eval)
  have ty: "get_var fresh 0 ''type'' = Some (VBuiltin B_type)"
    by (simp add: get_var_def env_get.simps global_builtins_def)
  have s2: "strtod ''2.0'' = Some 2"
    using strtod_nat [OF x2] round_double_small_nat [of 2] by simp
  have s3: "strtod ''1e3'' = Some 1000"
    using strtod_nat [OF x3] round_double_small_nat [of 1000] by simp
  have n2: "number_literal plain_platform (mk_token T_Float ''2.0'' 1 6)
      = Some (Inr (NumberLiteral 2))"
    using s2 by (simp add: number_literal_def plain_platform_def binary64_def mk_token_def)
  have n3: "number_literal plain_platform (mk_token T_Float ''1e3'' 1 1)
      = Some (Inr (NumberLiteral 1000))"
    using s3 by (simp add: number_literal_def plain_platform_def binary64_def mk_token_def)
  from integer_valued_number_literal_is_int
         [of "mk_token T_Float ''2.0'' 1 6" 2 "\<lambda>a b. 0" "\<lambda>toks. Inl (ParseError [])" 0 0 fresh]
       x2 n2 ty
  have a: "eval (Suc 0) plain_platform (NumberLiteral 2) 0 fresh = Normal (VInt 2) fresh \<and>
     eval (Suc (Suc 0)) plain_platform (FunctionCall (Identifier ''type'') [NumberLiteral 2]) 0 fresh
       = Normal (VString ''int'') fresh"
    by (auto simp add: mk_token_def plain_platform_def [symmetric] simp del: eval_Suc eval_numeral eval_1)
  from integer_valued_number_literal_is_int
         [of "mk_token T_Float ''1e3'' 1 1" 1000 "\<lambda>a b. 0" "\<lambda>toks. Inl (ParseError [])" 0 0 fresh]
       x3 n3
  have b: "eval (Suc 0) plain_platform (NumberLiteral 1000) 0 fresh = Normal (VInt 1000) fresh"
    by (auto simp add: mk_token_def plain_platform_def [symmetric] simp del: eval_Suc eval_numeral eval_1)
  from t2 t3 x2 x3 n2 n3 a b show ?thesis by (simp add: numeral_2_eq_2 del: eval_Suc eval_numeral eval_1)
qed

subsection \<open>The string form of a Float\<close>

lemma fmt_g_positive:
  assumes "0 < v" "decade v = e0" "round_half_even (v / 10 powi (e0 - 5)) = m0" "m0 \<noteq> 1000000"
  shows "fmt_g v = (if e0 < - 4 \<or> 6 \<le> e0 then fmt_scientific (nat m0) e0
                    else fmt_fixed (nat m0) e0)"
proof -
  from assms(1) have a: "\<bar>v\<bar> = v" "v \<noteq> 0" "\<not> v < 0" by simp_all
  show ?thesis
    unfolding fmt_g_def Let_def a assms(2) assms(3) using assms(4) a(2,3) by simp
qed

lemma floor_rat_numeral [simp]: "\<lfloor>(numeral a :: rat) / numeral b\<rfloor> = numeral a div numeral b"
  using floor_divide_of_int_eq [of "numeral a" "numeral b", where ?'a = rat] by simp

lemma int64_to_double_small:
  "\<bar>sint i\<bar> < 2 ^ 53 \<Longrightarrow> int64_to_double i = of_int (sint i)"
  unfolding int64_to_double_def by (rule round_double_small_int)

lemma digit_count_bounds: "0 < n \<Longrightarrow> 10 ^ (digit_count n - 1) \<le> n \<and> n < 10 ^ digit_count n"
proof (induction n rule: digit_count.induct)
  case (1 n)
  show ?case
  proof (cases "n < 10")
    case True
    with "1.prems" show ?thesis by (subst (1 2) digit_count.simps) simp
  next
    case False
    then have pos: "0 < n div 10" by simp
    from "1.IH" [OF False pos]
    have IH: "10 ^ (digit_count (n div 10) - 1) \<le> n div 10" "n div 10 < 10 ^ digit_count (n div 10)"
      by simp_all
    have dc: "digit_count n = Suc (digit_count (n div 10))"
      using False by (subst digit_count.simps) simp
    have one: "1 \<le> digit_count (n div 10)"
      by (subst digit_count.simps) simp
    then obtain j where j: "digit_count (n div 10) = Suc j" by (cases "digit_count (n div 10)") simp_all
    from IH(1) j have "10 * 10 ^ j \<le> 10 * (n div 10)" by simp
    also have "\<dots> \<le> n" by simp
    finally have lo: "10 ^ (digit_count n - 1) \<le> n" by (simp add: dc j)
    from IH(2) have "Suc (n div 10) \<le> 10 ^ digit_count (n div 10)" by simp
    then have "10 * Suc (n div 10) \<le> 10 * 10 ^ digit_count (n div 10)" by (simp only: mult_le_mono2)
    moreover have "n < 10 * Suc (n div 10)" by simp
    ultimately have hi: "n < 10 ^ digit_count n" by (simp add: dc)
    from lo hi show ?thesis by simp
  qed
qed

lemma length_show_nat: "length (show_nat n) = digit_count n"
proof (induction n rule: show_nat.induct)
  case (1 n)
  show ?case
  proof (cases "n < 10")
    case True
    then show ?thesis by (subst show_nat.simps, subst digit_count.simps) simp
  next
    case False
    with "1.IH" have "length (show_nat (n div 10)) = digit_count (n div 10)" by simp
    with False show ?thesis by (subst show_nat.simps, subst digit_count.simps) simp
  qed
qed

lemma show_nat_mult_10: "0 < n \<Longrightarrow> show_nat (n * 10) = show_nat n @ ''0''"
  by (subst show_nat.simps) simp

lemma show_nat_mult_pow10: "0 < n \<Longrightarrow> show_nat (n * 10 ^ j) = show_nat n @ replicate j (CHR ''0'')"
proof (induction j)
  case 0
  show ?case by simp
next
  case (Suc j)
  from Suc.prems have pos: "0 < n * 10 ^ j" by simp
  have e: "n * 10 ^ Suc j = (n * 10 ^ j) * 10" by simp
  show ?case
    unfolding e show_nat_mult_10 [OF pos] Suc.IH [OF Suc.prems]
    by (simp add: replicate_append_same)
qed

lemma strip_zeros_replicate: "strip_zeros (replicate j (CHR ''0'')) = []"
  by (simp add: strip_zeros_def)

lemma decade_of_nat: "0 < n \<Longrightarrow> decade (of_nat n) = int (digit_count n) - 1"
  by (simp add: decade_def)

text \<open>A natural number below \<open>10^6\<close> is written as its decimal numeral.\<close>

lemma fmt_g_small_nat:
  assumes "n < 1000000"
  shows "fmt_g (of_nat n) = show_nat n"
proof (cases "n = 0")
  case True
  then show ?thesis by (simp add: fmt_g_def show_nat.simps)
next
  case False
  then have pos: "0 < n" by simp
  define dc where "dc = digit_count n"
  from digit_count_bounds [OF pos] have b: "10 ^ (dc - 1) \<le> n" "n < 10 ^ dc"
    by (simp_all add: dc_def)
  have dc1: "1 \<le> dc" unfolding dc_def by (subst digit_count.simps) simp
  have dc6: "dc \<le> 6"
  proof (rule ccontr)
    assume "\<not> dc \<le> 6"
    then have "6 \<le> dc - 1" by simp
    then have "(10 :: nat) ^ 6 \<le> 10 ^ (dc - 1)" by (rule power_increasing) simp
    with b(1) assms show False by simp
  qed
  define j where "j = 6 - dc"
  from dc1 dc6 have dcj: "dc + j = 6" by (simp add: j_def)
  have v: "(0 :: rat) < of_nat n" using pos by simp
  have e0: "decade (of_nat n) = int dc - 1"
    using decade_of_nat [OF pos] by (simp add: dc_def)
  have ex: "int dc - 1 - 5 = - int j" using dcj by simp
  have "(of_nat n :: rat) / 10 powi (int dc - 1 - 5) = of_nat n * 10 ^ j"
    unfolding ex by (simp add: power_int_minus field_simps)
  also have "\<dots> = of_int (int (n * 10 ^ j))" by simp
  finally have m0: "round_half_even (of_nat n / 10 powi (int dc - 1 - 5)) = int (n * 10 ^ j)"
    by (simp only: round_half_even_of_int)
  from b(2) have "n * 10 ^ j < 10 ^ dc * 10 ^ j" by simp
  also have "\<dots> = 10 ^ 6" using dcj by (simp add: power_add [symmetric])
  finally have lt: "n * 10 ^ j < 1000000" by simp
  then have ne: "int (n * 10 ^ j) \<noteq> 1000000" by linarith
  have range: "\<not> (int dc - 1 < - 4 \<or> 6 \<le> int dc - 1)" using dc1 dc6 by simp
  have len: "nat (int dc - 1) + 1 = length (show_nat n)"
    using dc1 by (simp add: length_show_nat dc_def)
  from fmt_g_positive [OF v e0 m0 ne] range
  have "fmt_g (of_nat n) = fmt_fixed (n * 10 ^ j) (int dc - 1)" by (simp only: nat_int if_False)
  also have "\<dots> = show_nat n"
    using dc1 unfolding fmt_fixed_def show_nat_mult_pow10 [OF pos] len
    by (simp add: with_fraction_def strip_zeros_replicate)
  finally show ?thesis .
qed

text \<open>Reading a decimal numeral gives the number, up to \<open>2^53\<close> exactly.\<close>

lemma exact_value_show_nat: "exact_value (show_nat n) = Some (of_nat n)"
proof -
  from show_nat_digits [of n] have d: "list_all isdigit (show_nat n)" "show_nat n \<noteq> []"
    by simp_all
  then obtain c r where s: "show_nat n = c # r" "isdigit c" "list_all isdigit r"
    by (cases "show_nat n") auto
  from isdigit_not_sign [OF s(2)] s(1) have w: "dropWhile isspace (show_nat n) = show_nat n"
    by simp
  from isdigit_not_sign [OF s(2)] s(1) have g: "split_sign (show_nat n) = (False, show_nat n)"
    by (simp add: split_sign_def)
  have nx: "isdigit x \<Longrightarrow> x \<noteq> CHR ''x'' \<and> x \<noteq> CHR ''X''" for x
    by (auto simp add: isdigit_def)
  have hex: "(case show_nat n of
                z # x # r \<Rightarrow>
                  if z = CHR ''0'' \<and> (x = CHR ''x'' \<or> x = CHR ''X'') then hexadecimal_value r
                  else None
              | _ \<Rightarrow> None) = None"
    using s nx by (cases r) auto
  from d(1) have t: "takeWhile isdigit (show_nat n) = show_nat n"
    "dropWhile isdigit (show_nat n) = []"
    by (simp_all add: list_all_iff)
  have sp: "split_point isdigit (show_nat n) = (show_nat n, [], [])"
    by (simp add: split_point_def t)
  have dv: "decimal_value (show_nat n) = Some (of_nat n)"
    using d(2) by (simp add: decimal_value_def sp exponent_part_def digits_value_show_nat)
  show ?thesis
    unfolding exact_value_def w g by (simp add: hex dv)
qed

lemma strtod_show_nat: "n < 2 ^ 53 \<Longrightarrow> strtod (show_nat n) = Some (of_nat n)"
proof -
  assume n: "n < 2 ^ 53"
  then have "n \<le> 9000000000000000000" by simp
  from strtod_nat [OF exact_value_show_nat this] round_double_small_nat [OF n]
  show ?thesis by simp
qed


lemma decade_7: "decade 1500001 = 6" "decade 1500002 = 6" "decade 1234567 = 6" "decade 1234568 = 6"
  by (simp_all add: decade_def digit_count.simps)

lemma six_digits:
  "round_half_even (1500001 / 10 powi (6 - 5)) = 150000"
  "round_half_even (1500002 / 10 powi (6 - 5)) = 150000"
  "round_half_even (1234567 / 10 powi (6 - 5)) = 123457"
  "round_half_even (1234568 / 10 powi (6 - 5)) = 123457"
  by (simp_all add: round_half_even_def Let_def)

lemma scientific_6:
  "fmt_scientific 150000 6 = ''1.5e+06''" "fmt_scientific 123457 6 = ''1.23457e+06''"
  by (simp_all add: fmt_scientific_def with_fraction_def strip_zeros_def show_nat.simps)




end
